(* ===== verification/Prelude.thy ===== *)
theory Prelude
  imports Main "HOL-Library.Sublist"
begin

text \<open>
  What every component of the development shares: the types that stand for Python's
  built-in ones, the errors the modelled code raises, and the generic lemmas on sums,
  options, strings and lists that carry the component proofs.

  \<^item> A timezone-aware \<^verbatim>\<open>datetime\<close> is an \<open>instant\<close>: microseconds since the epoch (the
    resolution of Python's type). A \<open>datetime\<close> that may be naive keeps a flag.
  \<^item> A Python \<^verbatim>\<open>str\<close> is a \<open>string\<close>; \<^verbatim>\<open>str | None\<close> is \<open>string option\<close>.
  \<^item> A function that may raise returns \<open>py_error + 'a\<close>, \<open>Inl\<close> the exception.
\<close>

section \<open>Python values\<close>

type_synonym instant = int

datatype py_error = ValueError | KeyError | TypeError | IndexError
  | StructError | OverflowError | ZeroDivisionError | RecursionError | AssertionError

type_synonym 'a result = "py_error + 'a"

text \<open>\<open>datetime.timedelta(seconds=n)\<close> in microseconds.\<close>

definition seconds :: "int \<Rightarrow> instant" where
  "seconds n = n * 1000000"

record datetime =
  at :: instant
  aware_flag :: bool

text \<open>A timezone-aware \<open>datetime\<close> at an instant.\<close>

definition aware_at :: "instant \<Rightarrow> datetime" where
  "aware_at t = \<lparr>at = t, aware_flag = True\<rparr>"

text \<open>
  Python's \<^verbatim>\<open>a or b\<close> on optional strings: the empty string is falsy, so it gives way to
  \<open>b\<close> like \<open>None\<close> does. On optional values that are never falsy (an enum member with a
  nonempty word, a \<open>datetime\<close>) it is \<open>opt_or\<close>.
\<close>

fun str_or :: "string option \<Rightarrow> string option \<Rightarrow> string option" where
  "str_or None b = b"
| "str_or (Some s) b = (if s = [] then b else Some s)"

fun str_or_else :: "string option \<Rightarrow> string \<Rightarrow> string" where
  "str_or_else None b = b"
| "str_or_else (Some s) b = (if s = [] then b else s)"

fun opt_or :: "'a option \<Rightarrow> 'a \<Rightarrow> 'a" where
  "opt_or None b = b"
| "opt_or (Some a) b = a"

text \<open>\<open>int(flag)\<close>.\<close>

definition of_flag :: "bool \<Rightarrow> int" where
  "of_flag b = (if b then 1 else 0)"

text \<open>\<open>tuple(dict.fromkeys(xs))\<close>: the distinct elements in order of first occurrence.\<close>

fun fromkeys :: "'a list \<Rightarrow> 'a list" where
  "fromkeys [] = []"
| "fromkeys (x # xs) = x # filter (\<lambda>y. y \<noteq> x) (fromkeys xs)"

text \<open>Decimal rendering of an integer, as in an f-string.\<close>

fun show_nat :: "nat \<Rightarrow> string" where
  "show_nat n =
     (if n < 10 then [char_of (48 + n)] else show_nat (n div 10) @ [char_of (48 + n mod 10)])"

declare show_nat.simps [simp del]

definition show_int :: "int \<Rightarrow> string" where
  "show_int i = (if i < 0 then CHR ''-'' # show_nat (nat (- i)) else show_nat (nat i))"

text \<open>\<open>sep.join(parts)\<close>.\<close>

fun join :: "string \<Rightarrow> string list \<Rightarrow> string" where
  "join sep [] = []"
| "join sep [x] = x"
| "join sep (x # y # xs) = x @ sep @ join sep (y # xs)"

text \<open>\<open>s.endswith(ends)\<close> for a tuple of endings.\<close>

definition ends_with :: "string \<Rightarrow> string list \<Rightarrow> bool" where
  "ends_with s ends \<longleftrightarrow> list_ex (\<lambda>x. suffix x s) ends"

section \<open>Results\<close>

text \<open>Sequencing of code that may raise.\<close>

fun res_bind :: "'a result \<Rightarrow> ('a \<Rightarrow> 'b result) \<Rightarrow> 'b result" where
  "res_bind (Inl e) f = Inl e"
| "res_bind (Inr x) f = f x"

fun res_map :: "('a \<Rightarrow> 'b) \<Rightarrow> 'a result \<Rightarrow> 'b result" where
  "res_map f (Inl e) = Inl e"
| "res_map f (Inr x) = Inr (f x)"

text \<open>Python's short-circuit \<^verbatim>\<open>any(...)\<close> where the condition may raise.\<close>

fun any_result :: "('a \<Rightarrow> bool result) \<Rightarrow> 'a list \<Rightarrow> bool result" where
  "any_result f [] = Inr False"
| "any_result f (x # xs) = res_bind (f x) (\<lambda>b. if b then Inr True else any_result f xs)"

text \<open>\<open>if not ok: raise ValueError(...)\<close>.\<close>

definition ensure :: "bool \<Rightarrow> unit result" where
  "ensure ok = (if ok then Inr () else Inl ValueError)"

text \<open>A \<^verbatim>\<open>for\<close> loop whose body updates a state and may raise.\<close>

fun fold_result :: "('a \<Rightarrow> 's \<Rightarrow> 's result) \<Rightarrow> 'a list \<Rightarrow> 's \<Rightarrow> 's result" where
  "fold_result f [] s = Inr s"
| "fold_result f (x # xs) s = res_bind (f x s) (fold_result f xs)"

text \<open>The results of a list comprehension whose elements may raise.\<close>

fun seq_results :: "'a result list \<Rightarrow> 'a list result" where
  "seq_results [] = Inr []"
| "seq_results (r # rs) = res_bind r (\<lambda>x. res_map (\<lambda>xs. x # xs) (seq_results rs))"

lemma res_map_Inr [simp]: "res_map f r = Inr y \<longleftrightarrow> (\<exists>x. r = Inr x \<and> y = f x)"
  by (cases r) auto

lemma res_map_Inl [simp]: "res_map f r = Inl e \<longleftrightarrow> r = Inl e"
  by (cases r) auto

lemma res_bind_Inr [simp]: "res_bind r f = Inr y \<longleftrightarrow> (\<exists>x. r = Inr x \<and> f x = Inr y)"
  by (cases r) auto

lemma seq_results_Inr: "seq_results rs = Inr xs \<longleftrightarrow> rs = map Inr xs"
proof (induction rs arbitrary: xs)
  case Nil
  then show ?case by auto
next
  case (Cons r rs)
  then show ?case by (cases xs) auto
qed

lemma seq_results_member:
  assumes "seq_results (map f xs) = Inr ys" and "y \<in> set ys"
  shows "\<exists>x \<in> set xs. f x = Inr y"
proof -
  have "map f xs = map Inr ys" using assms(1) by (simp add: seq_results_Inr)
  then have "f ` set xs = Inr ` set ys" by (metis list.set_map)
  then show ?thesis using assms(2) by (metis imageE imageI)
qed

text \<open>Code that does not raise.\<close>

definition returns :: "'a result \<Rightarrow> bool" where
  "returns r \<longleftrightarrow> (\<exists>x. r = Inr x)"

lemma returns_simps [simp]: "returns (Inr x)" "\<not> returns (Inl e)" "returns (res_map f r) \<longleftrightarrow> returns r"
  by (cases r; auto simp: returns_def)+

lemma returns_bind: "returns r \<Longrightarrow> (\<And>x. r = Inr x \<Longrightarrow> returns (f x)) \<Longrightarrow> returns (res_bind r f)"
  by (auto simp: returns_def)

lemma returnsE: "returns r \<Longrightarrow> (\<And>x. r = Inr x \<Longrightarrow> P) \<Longrightarrow> P"
  by (auto simp: returns_def)

lemma returns_any: "(\<And>x. x \<in> set xs \<Longrightarrow> returns (f x)) \<Longrightarrow> returns (any_result f xs)"
  by (induction xs) (auto intro: returns_bind)

lemma any_result_False: "any_result f xs = Inr False \<longleftrightarrow> (\<forall>x \<in> set xs. f x = Inr False)"
  by (induction xs) auto

lemma res_bind_cong [fundef_cong]:
  "r = r' \<Longrightarrow> (\<And>x. r' = Inr x \<Longrightarrow> f x = g x) \<Longrightarrow> res_bind r f = res_bind r' g"
  by (cases r') auto

section \<open>Generic lemmas\<close>

named_theorems core_simps \<open>definitions of the lifecycle core's builders and handlers\<close>
named_theorems plan_simps \<open>definitions of the capacity planner\<close>

lemma of_flag_simps [simp]: "of_flag True = 1" "of_flag False = 0"
  by (simp_all add: of_flag_def)

lemma of_flag_bounds: "0 \<le> of_flag b" "of_flag b \<le> 1"
  by (simp_all add: of_flag_def)

lemma seconds_mono [simp]: "seconds a \<le> seconds b \<longleftrightarrow> a \<le> b"
  by (simp add: seconds_def)

lemma seconds_add: "seconds (a + b) = seconds a + seconds b"
  by (simp add: seconds_def algebra_simps)

lemma at_aware_at [simp]: "at (aware_at t) = t" "aware_flag (aware_at t)"
  by (simp_all add: aware_at_def)

lemma str_or_None [simp]: "str_or a None = None \<longleftrightarrow> a = None \<or> a = Some []"
  by (cases a) auto

lemma set_fromkeys [simp]: "set (fromkeys xs) = set xs"
  by (induction xs) auto

lemma distinct_fromkeys [simp]: "distinct (fromkeys xs)"
  by (induction xs) auto

lemma fromkeys_distinct: "distinct xs \<Longrightarrow> fromkeys xs = xs"
proof (induction xs)
  case (Cons x xs)
  then have "filter (\<lambda>y. y \<noteq> x) xs = xs" by (auto intro: filter_True)
  with Cons show ?case by simp
qed simp

lemma fromkeys_Nil [simp]: "fromkeys xs = [] \<longleftrightarrow> xs = []"
  by (cases xs) auto

end
