(* ===== verification/Vocabulary.thy ===== *)
theory Vocabulary
  imports Prelude
begin

text \<open>
  The closed vocabularies of \<^verbatim>\<open>agent_protocol/src/vonk_agent_protocol\<close>: the lifecycle and
  outcome words (\<^verbatim>\<open>lifecycle_vocabulary.py\<close>), the failure dispositions
  (\<^verbatim>\<open>agent_words.py\<close>, \<^verbatim>\<open>disposition.py\<close>) and the agent's failure kinds
  (\<^verbatim>\<open>contracts.py\<close>). Every \<^verbatim>\<open>WireEnum\<close> is a datatype with the source's members, in the
  source's order, and a function that gives each member its wire word: the members are
  Python \<^verbatim>\<open>StrEnum\<close> values, so the code also uses them as strings.
\<close>

section \<open>Enumerations\<close>

text \<open>\<^verbatim>\<open>LifecycleState\<close> (lifecycle_vocabulary.py).\<close>

datatype lifecycle_state =
    S_QUEUED
  | S_RUNNING
  | S_OBSERVING
  | S_BACKOFF
  | S_SUCCEEDED
  | S_FAILED
  | S_CANCELLED
  | S_SUPERSEDED
  | S_NEEDS_OPERATOR

primrec lifecycle_state_value :: "lifecycle_state \<Rightarrow> string" where
  "lifecycle_state_value S_QUEUED = ''queued''"
| "lifecycle_state_value S_RUNNING = ''running''"
| "lifecycle_state_value S_OBSERVING = ''observing''"
| "lifecycle_state_value S_BACKOFF = ''backoff''"
| "lifecycle_state_value S_SUCCEEDED = ''succeeded''"
| "lifecycle_state_value S_FAILED = ''failed''"
| "lifecycle_state_value S_CANCELLED = ''cancelled''"
| "lifecycle_state_value S_SUPERSEDED = ''superseded''"
| "lifecycle_state_value S_NEEDS_OPERATOR = ''needs-operator''"

text \<open>\<^verbatim>\<open>AgentResultState\<close> (lifecycle_vocabulary.py).\<close>

datatype agent_result_state = R_SUCCEEDED | R_FAILED | R_CANCELLED | R_OBSERVING

primrec agent_result_state_value :: "agent_result_state \<Rightarrow> string" where
  "agent_result_state_value R_SUCCEEDED = ''succeeded''"
| "agent_result_state_value R_FAILED = ''failed''"
| "agent_result_state_value R_CANCELLED = ''cancelled''"
| "agent_result_state_value R_OBSERVING = ''observing''"

text \<open>\<^verbatim>\<open>LifecycleEffect\<close> (lifecycle_vocabulary.py).\<close>

datatype lifecycle_effect = E_UNKNOWN | E_NONE | E_ISSUED | E_ESTABLISHED | E_STOPPED

primrec lifecycle_effect_value :: "lifecycle_effect \<Rightarrow> string" where
  "lifecycle_effect_value E_UNKNOWN = ''unknown''"
| "lifecycle_effect_value E_NONE = ''none''"
| "lifecycle_effect_value E_ISSUED = ''issued''"
| "lifecycle_effect_value E_ESTABLISHED = ''established''"
| "lifecycle_effect_value E_STOPPED = ''stopped''"

text \<open>\<^verbatim>\<open>OutcomeKind\<close> (lifecycle_vocabulary.py).\<close>

datatype outcome_kind = O_DONE | O_FAILED | O_CANCELLED | O_UNKNOWN

primrec outcome_kind_value :: "outcome_kind \<Rightarrow> string" where
  "outcome_kind_value O_DONE = ''done''"
| "outcome_kind_value O_FAILED = ''failed''"
| "outcome_kind_value O_CANCELLED = ''cancelled''"
| "outcome_kind_value O_UNKNOWN = ''unknown''"

text \<open>\<^verbatim>\<open>StopOutcome\<close> (lifecycle_vocabulary.py).\<close>

datatype stop_outcome = Stop_CONFIRMED | Stop_UNCONFIRMED

primrec stop_outcome_value :: "stop_outcome \<Rightarrow> string" where
  "stop_outcome_value Stop_CONFIRMED = ''confirmed''"
| "stop_outcome_value Stop_UNCONFIRMED = ''unconfirmed''"

text \<open>\<^verbatim>\<open>OperatorActionName\<close> (lifecycle_vocabulary.py).\<close>

datatype operator_action_name = A_RESUME | A_RETIRE | A_RETRY | A_STOP

primrec operator_action_name_value :: "operator_action_name \<Rightarrow> string" where
  "operator_action_name_value A_RESUME = ''resume''"
| "operator_action_name_value A_RETIRE = ''retire''"
| "operator_action_name_value A_RETRY = ''retry''"
| "operator_action_name_value A_STOP = ''stop''"

text \<open>\<^verbatim>\<open>LifecycleSubject\<close> (lifecycle_vocabulary.py).\<close>

datatype lifecycle_subject =
    Subject_JOB
  | Subject_JOB_ATTEMPT
  | Subject_AGENT_OPERATION
  | Subject_AGENT_OPERATION_ATTEMPT
  | Subject_MODEL_CACHE_OPERATION
  | Subject_ARTIFACT_JOB
  | Subject_FLEET_PROFILE_APPLICATION

primrec lifecycle_subject_value :: "lifecycle_subject \<Rightarrow> string" where
  "lifecycle_subject_value Subject_JOB = ''Job''"
| "lifecycle_subject_value Subject_JOB_ATTEMPT = ''JobAttempt''"
| "lifecycle_subject_value Subject_AGENT_OPERATION = ''AgentOperation''"
| "lifecycle_subject_value Subject_AGENT_OPERATION_ATTEMPT = ''AgentOperationAttempt''"
| "lifecycle_subject_value Subject_MODEL_CACHE_OPERATION = ''ModelCacheOperation''"
| "lifecycle_subject_value Subject_ARTIFACT_JOB = ''ArtifactJob''"
| "lifecycle_subject_value Subject_FLEET_PROFILE_APPLICATION = ''FleetProfileApplication''"

text \<open>\<^verbatim>\<open>BlockerCategory\<close> (lifecycle_vocabulary.py).\<close>

datatype blocker_category = B_SECURITY_EDGE | B_INPUT_VALIDATION | B_ALREADY_RETRIED | B_BOOKKEEPING_DEBT

primrec blocker_category_value :: "blocker_category \<Rightarrow> string" where
  "blocker_category_value B_SECURITY_EDGE = ''security-edge''"
| "blocker_category_value B_INPUT_VALIDATION = ''input-validation''"
| "blocker_category_value B_ALREADY_RETRIED = ''already-retried''"
| "blocker_category_value B_BOOKKEEPING_DEBT = ''bookkeeping-debt''"

text \<open>\<^verbatim>\<open>ErrorCategory\<close> (lifecycle_vocabulary.py).\<close>

datatype error_category = Cat_SECURITY_REFUSAL | Cat_INVALID_REQUEST | Cat_UNKNOWN

primrec error_category_value :: "error_category \<Rightarrow> string" where
  "error_category_value Cat_SECURITY_REFUSAL = ''security-refusal''"
| "error_category_value Cat_INVALID_REQUEST = ''invalid-request''"
| "error_category_value Cat_UNKNOWN = ''unknown''"

text \<open>\<^verbatim>\<open>WaitReason\<close> (lifecycle_vocabulary.py).\<close>

datatype wait_reason =
    W_SPARK_BUSY
  | W_OPERATION_NOT_ENABLED
  | W_UPGRADE_AWAITING_IDENTITY
  | W_AGENT_RESTART_INTERRUPTED
  | W_STOP_UNCONFIRMED
  | W_CLEANUP_UNCONFIRMED
  | W_STOP_METADATA_UNCONFIRMED
  | W_RETAINED_IDENTITY_MISMATCH
  | W_MODEL_CUSTODY_UNCONFIRMED
  | W_RUNTIME_EFFECT_UNCONFIRMED
  | W_JOB_STOP_UNCONFIRMED
  | W_JOB_STATE_UNCERTAIN
  | W_LEASE_LAPSED
  | W_REPORT_UNCERTAIN
  | W_OBSERVATION_UNAVAILABLE
  | W_RECEIPT_MISSING
  | W_STALE_PLAN
  | W_SCOPE_CHANGED
  | W_LEGACY_UNCLASSIFIED

primrec wait_reason_value :: "wait_reason \<Rightarrow> string" where
  "wait_reason_value W_SPARK_BUSY = ''queue.spark_busy''"
| "wait_reason_value W_OPERATION_NOT_ENABLED = ''operation-not-enabled''"
| "wait_reason_value W_UPGRADE_AWAITING_IDENTITY = ''agent-upgrade-awaiting-identity''"
| "wait_reason_value W_AGENT_RESTART_INTERRUPTED = ''agent-restart-interrupted''"
| "wait_reason_value W_STOP_UNCONFIRMED = ''stop-unconfirmed''"
| "wait_reason_value W_CLEANUP_UNCONFIRMED = ''cleanup-unconfirmed''"
| "wait_reason_value W_STOP_METADATA_UNCONFIRMED = ''stop-metadata-unconfirmed''"
| "wait_reason_value W_RETAINED_IDENTITY_MISMATCH = ''retained-identity-mismatch''"
| "wait_reason_value W_MODEL_CUSTODY_UNCONFIRMED = ''model-custody-unconfirmed''"
| "wait_reason_value W_RUNTIME_EFFECT_UNCONFIRMED = ''runtime-effect-unconfirmed''"
| "wait_reason_value W_JOB_STOP_UNCONFIRMED = ''job-stop-unconfirmed''"
| "wait_reason_value W_JOB_STATE_UNCERTAIN = ''job-state-uncertain''"
| "wait_reason_value W_LEASE_LAPSED = ''lease-lapsed''"
| "wait_reason_value W_REPORT_UNCERTAIN = ''report-uncertain''"
| "wait_reason_value W_OBSERVATION_UNAVAILABLE = ''observation-unavailable''"
| "wait_reason_value W_RECEIPT_MISSING = ''receipt-missing''"
| "wait_reason_value W_STALE_PLAN = ''stale-plan''"
| "wait_reason_value W_SCOPE_CHANGED = ''scope-changed''"
| "wait_reason_value W_LEGACY_UNCLASSIFIED = ''legacy-unclassified''"

text \<open>\<^verbatim>\<open>SecurityRefusalReason\<close> (lifecycle_vocabulary.py).\<close>

datatype security_refusal_reason =
    Sec_HTTP_401
  | Sec_HTTP_403
  | Sec_AGENT_CERTIFICATE_ROTATION_CONFLICT
  | Sec_AGENT_ENROLLMENT_SUBMIT_REJECTED
  | Sec_AGENT_EXPIRED_RENEWAL_REFUSED
  | Sec_AGENT_EXPIRED_RENEWAL_GRACE_EXHAUSTED
  | Sec_AGENT_IDENTITY_MISMATCH
  | Sec_AGENT_TOMBSTONE_FENCED
  | Sec_CATALOG_AUTHENTICATION_REQUIRED
  | Sec_CONTROLLER_AUTHENTICATION_REQUIRED
  | Sec_CONTROLLER_FLEET_ENROLLMENT_DENIED
  | Sec_CONTROLLER_REQUEST_REJECTED
  | Sec_DIGEST_MISMATCH
  | Sec_DISTRIBUTION_REVOKED
  | Sec_FORBIDDEN
  | Sec_GRANT_INVALID
  | Sec_GRANT_NODE_MISMATCH
  | Sec_GRANT_UNAUTHORIZED
  | Sec_HELPER_AUTHORIZATION_INVALID
  | Sec_HELPER_GRANT_INVALID
  | Sec_HELPER_GRANT_NODE_MISMATCH
  | Sec_HELPER_GRANT_UNAUTHORIZED
  | Sec_HELPER_OPERATION_INVALID_ARTIFACT
  | Sec_HELPER_PEER_IDENTITY_INVALID
  | Sec_HELPER_REQUEST_INSTALLATION_IDENTITY_INVALID
  | Sec_HELPER_REQUEST_PLAN_BINDING_INVALID
  | Sec_HELPER_REQUEST_REPLAYED
  | Sec_HELPER_RUNTIME_IMAGE_IDENTITY_INVALID
  | Sec_HOST_HELPER_AUTHORITY_DENIED
  | Sec_LOCAL_IDENTITY_EXPIRED
  | Sec_LOCAL_IDENTITY_FAILED
  | Sec_MODEL_CACHE_CREDENTIALS_DENIED
  | Sec_MODEL_CACHE_CREDENTIALS_INVALID
  | Sec_MODEL_CACHE_SOURCE_ACCESS_DENIED
  | Sec_OPERATION_INVALID_ARTIFACT
  | Sec_PEER_IDENTITY_INVALID
  | Sec_PERMISSION_DENIED
  | Sec_RECIPE_UPDATE_AUTHORITY_DENIED
  | Sec_REQUEST_REPLAYED
  | Sec_RUN_SWITCH_ARTIFACT_DIGEST_VERIFICATION_FAILED
  | Sec_RUN_SWITCH_CLEANUP_NAS_EVICTION_FORBIDDEN
  | Sec_RUN_SWITCH_CLEANUP_RECLAIMED_DIGEST_NOT_PLANNED
  | Sec_RUN_SWITCH_RUNTIME_IMAGE_PREPARATION_DIGEST_MISMATCH
  | Sec_RUNTIME_IMAGE_AUTHORIZATION_INVALID
  | Sec_RUNTIME_IMAGE_AUTHORIZATION_REVOKED
  | Sec_RUNTIME_IMAGE_IDENTITY_INVALID
  | Sec_STALE_FENCE
  | Sec_TUF_METADATA_INVALID
  | Sec_TUF_SIGNATURE_INVALID
  | Sec_UNAUTHORIZED
  | Sec_UNSAFE_PATH

primrec security_refusal_reason_value :: "security_refusal_reason \<Rightarrow> string" where
  "security_refusal_reason_value Sec_HTTP_401 = ''401''"
| "security_refusal_reason_value Sec_HTTP_403 = ''403''"
| "security_refusal_reason_value Sec_AGENT_CERTIFICATE_ROTATION_CONFLICT = ''agent.certificate.rotation.conflict''"
| "security_refusal_reason_value Sec_AGENT_ENROLLMENT_SUBMIT_REJECTED = ''agent.enrollment.submit.rejected''"
| "security_refusal_reason_value Sec_AGENT_EXPIRED_RENEWAL_REFUSED = ''agent.expired_renewal_refused''"
| "security_refusal_reason_value Sec_AGENT_EXPIRED_RENEWAL_GRACE_EXHAUSTED = ''agent.expired_renewal_grace_exhausted''"
| "security_refusal_reason_value Sec_AGENT_IDENTITY_MISMATCH = ''agent.identity_mismatch''"
| "security_refusal_reason_value Sec_AGENT_TOMBSTONE_FENCED = ''agent.tombstone_fenced''"
| "security_refusal_reason_value Sec_CATALOG_AUTHENTICATION_REQUIRED = ''catalog.authentication_required''"
| "security_refusal_reason_value Sec_CONTROLLER_AUTHENTICATION_REQUIRED = ''controller.authentication_required''"
| "security_refusal_reason_value Sec_CONTROLLER_FLEET_ENROLLMENT_DENIED = ''controller.fleet.enrollment_denied''"
| "security_refusal_reason_value Sec_CONTROLLER_REQUEST_REJECTED = ''controller.request_rejected''"
| "security_refusal_reason_value Sec_DIGEST_MISMATCH = ''digest_verification_failed''"
| "security_refusal_reason_value Sec_DISTRIBUTION_REVOKED = ''distribution.revoked''"
| "security_refusal_reason_value Sec_FORBIDDEN = ''forbidden''"
| "security_refusal_reason_value Sec_GRANT_INVALID = ''grant_invalid''"
| "security_refusal_reason_value Sec_GRANT_NODE_MISMATCH = ''grant_node_mismatch''"
| "security_refusal_reason_value Sec_GRANT_UNAUTHORIZED = ''grant_unauthorized''"
| "security_refusal_reason_value Sec_HELPER_AUTHORIZATION_INVALID = ''helper.authorization_invalid''"
| "security_refusal_reason_value Sec_HELPER_GRANT_INVALID = ''helper_grant_invalid''"
| "security_refusal_reason_value Sec_HELPER_GRANT_NODE_MISMATCH = ''helper_grant_node_mismatch''"
| "security_refusal_reason_value Sec_HELPER_GRANT_UNAUTHORIZED = ''helper_grant_unauthorized''"
| "security_refusal_reason_value Sec_HELPER_OPERATION_INVALID_ARTIFACT = ''helper_operation_invalid_artifact''"
| "security_refusal_reason_value Sec_HELPER_PEER_IDENTITY_INVALID = ''helper_peer_identity_invalid''"
| "security_refusal_reason_value Sec_HELPER_REQUEST_INSTALLATION_IDENTITY_INVALID = ''helper_request_installation_identity_invalid''"
| "security_refusal_reason_value Sec_HELPER_REQUEST_PLAN_BINDING_INVALID = ''helper_request_plan_binding_invalid''"
| "security_refusal_reason_value Sec_HELPER_REQUEST_REPLAYED = ''helper_request_replayed''"
| "security_refusal_reason_value Sec_HELPER_RUNTIME_IMAGE_IDENTITY_INVALID = ''helper_runtime_image_identity_invalid''"
| "security_refusal_reason_value Sec_HOST_HELPER_AUTHORITY_DENIED = ''host_helper.authority_denied''"
| "security_refusal_reason_value Sec_LOCAL_IDENTITY_EXPIRED = ''local.identity_expired''"
| "security_refusal_reason_value Sec_LOCAL_IDENTITY_FAILED = ''local.identity_failed''"
| "security_refusal_reason_value Sec_MODEL_CACHE_CREDENTIALS_DENIED = ''model_cache.credentials_denied''"
| "security_refusal_reason_value Sec_MODEL_CACHE_CREDENTIALS_INVALID = ''model_cache.credentials_invalid''"
| "security_refusal_reason_value Sec_MODEL_CACHE_SOURCE_ACCESS_DENIED = ''model_cache.source_access_denied''"
| "security_refusal_reason_value Sec_OPERATION_INVALID_ARTIFACT = ''operation_invalid_artifact''"
| "security_refusal_reason_value Sec_PEER_IDENTITY_INVALID = ''peer_identity_invalid''"
| "security_refusal_reason_value Sec_PERMISSION_DENIED = ''permission_denied''"
| "security_refusal_reason_value Sec_RECIPE_UPDATE_AUTHORITY_DENIED = ''recipe_update.authority_denied''"
| "security_refusal_reason_value Sec_REQUEST_REPLAYED = ''request_replayed''"
| "security_refusal_reason_value Sec_RUN_SWITCH_ARTIFACT_DIGEST_VERIFICATION_FAILED = ''run-switch.artifact-digest-verification-failed''"
| "security_refusal_reason_value Sec_RUN_SWITCH_CLEANUP_NAS_EVICTION_FORBIDDEN = ''run-switch.cleanup-nas-eviction-forbidden''"
| "security_refusal_reason_value Sec_RUN_SWITCH_CLEANUP_RECLAIMED_DIGEST_NOT_PLANNED = ''run-switch.cleanup-reclaimed-digest-not-planned''"
| "security_refusal_reason_value Sec_RUN_SWITCH_RUNTIME_IMAGE_PREPARATION_DIGEST_MISMATCH = ''run-switch.runtime-image-preparation-digest-mismatch''"
| "security_refusal_reason_value Sec_RUNTIME_IMAGE_AUTHORIZATION_INVALID = ''runtime_image.authorization_invalid''"
| "security_refusal_reason_value Sec_RUNTIME_IMAGE_AUTHORIZATION_REVOKED = ''runtime_image.authorization_revoked''"
| "security_refusal_reason_value Sec_RUNTIME_IMAGE_IDENTITY_INVALID = ''runtime_image_identity_invalid''"
| "security_refusal_reason_value Sec_STALE_FENCE = ''stale_fence''"
| "security_refusal_reason_value Sec_TUF_METADATA_INVALID = ''tuf.metadata_invalid''"
| "security_refusal_reason_value Sec_TUF_SIGNATURE_INVALID = ''tuf.signature_invalid''"
| "security_refusal_reason_value Sec_UNAUTHORIZED = ''unauthorized''"
| "security_refusal_reason_value Sec_UNSAFE_PATH = ''unsafe_path''"

text \<open>\<^verbatim>\<open>FailureCode\<close> (lifecycle_vocabulary.py).\<close>

datatype failure_code =
    F_HOOK_VM_BUSY
  | F_HOOK_VM_PROCESS_KILLED
  | F_HOOK_VM_TIMEOUT
  | F_WORKLOAD_HOST_MEMORY_EXHAUSTED
  | F_OPERATION_FAILED
  | F_OPERATION_CANCELLED
  | F_AGENT_UPGRADE_FAILED
  | F_ARTIFACT_DISTRIBUTION_FAILED
  | F_RECIPE_BUILD_FAILED
  | F_RECIPE_BUILD_PLATFORM_BLOCKED
  | F_RECIPE_JOB_RUN_FAILED
  | F_RECIPE_INSTALL_FAILED
  | F_RECIPE_START_FAILED
  | F_RECIPE_STOP_FAILED
  | F_RECIPE_UNINSTALL_FAILED
  | F_MODEL_STORE_LAYOUT
  | F_RUNTIME_OBSERVATION_UNAVAILABLE
  | F_INSTALLATION_RECONCILIATION_BUSY
  | F_RECIPE_RECONCILIATION_DEPENDENCY_UNAVAILABLE
  | F_RETAINED_CONTAINER_FOREIGN

primrec failure_code_value :: "failure_code \<Rightarrow> string" where
  "failure_code_value F_HOOK_VM_BUSY = ''hook.vm_busy''"
| "failure_code_value F_HOOK_VM_PROCESS_KILLED = ''hook.vm_process_killed''"
| "failure_code_value F_HOOK_VM_TIMEOUT = ''hook.vm_timeout''"
| "failure_code_value F_WORKLOAD_HOST_MEMORY_EXHAUSTED = ''workload.host_memory_exhausted''"
| "failure_code_value F_OPERATION_FAILED = ''operation_failed''"
| "failure_code_value F_OPERATION_CANCELLED = ''operation_cancelled''"
| "failure_code_value F_AGENT_UPGRADE_FAILED = ''agent_upgrade_failed''"
| "failure_code_value F_ARTIFACT_DISTRIBUTION_FAILED = ''artifact_distribution_failed''"
| "failure_code_value F_RECIPE_BUILD_FAILED = ''recipe_build_failed''"
| "failure_code_value F_RECIPE_BUILD_PLATFORM_BLOCKED = ''recipe_build_platform_blocked''"
| "failure_code_value F_RECIPE_JOB_RUN_FAILED = ''recipe_job_run_failed''"
| "failure_code_value F_RECIPE_INSTALL_FAILED = ''recipe_install_failed''"
| "failure_code_value F_RECIPE_START_FAILED = ''recipe_start_failed''"
| "failure_code_value F_RECIPE_STOP_FAILED = ''recipe_stop_failed''"
| "failure_code_value F_RECIPE_UNINSTALL_FAILED = ''recipe_uninstall_failed''"
| "failure_code_value F_MODEL_STORE_LAYOUT = ''model_store_layout''"
| "failure_code_value F_RUNTIME_OBSERVATION_UNAVAILABLE = ''runtime_observation_unavailable''"
| "failure_code_value F_INSTALLATION_RECONCILIATION_BUSY = ''installation_reconciliation_busy''"
| "failure_code_value F_RECIPE_RECONCILIATION_DEPENDENCY_UNAVAILABLE = ''recipe_reconciliation_dependency_unavailable''"
| "failure_code_value F_RETAINED_CONTAINER_FOREIGN = ''retained_container_foreign''"

text \<open>\<^verbatim>\<open>Disposition\<close> (agent_words.py).\<close>

datatype disposition = D_FAIL | D_WAIT | D_OBSERVE | D_SECURITY

primrec disposition_value :: "disposition \<Rightarrow> string" where
  "disposition_value D_FAIL = ''fail''"
| "disposition_value D_WAIT = ''wait''"
| "disposition_value D_OBSERVE = ''observe''"
| "disposition_value D_SECURITY = ''security''"

text \<open>\<^verbatim>\<open>AgentFailureKind\<close> (contracts.py).\<close>

datatype agent_failure_kind = K_TEMPORARY_DEPENDENCY | K_UNCERTAIN_EFFECT | K_INVALID_AUTHORITY | K_INVALID_CONTRACT | K_INTEGRITY_FAILURE | K_RESOURCE_PREREQUISITE

primrec agent_failure_kind_value :: "agent_failure_kind \<Rightarrow> string" where
  "agent_failure_kind_value K_TEMPORARY_DEPENDENCY = ''temporary-dependency''"
| "agent_failure_kind_value K_UNCERTAIN_EFFECT = ''uncertain-effect''"
| "agent_failure_kind_value K_INVALID_AUTHORITY = ''invalid-authority''"
| "agent_failure_kind_value K_INVALID_CONTRACT = ''invalid-contract''"
| "agent_failure_kind_value K_INTEGRITY_FAILURE = ''integrity-failure''"
| "agent_failure_kind_value K_RESOURCE_PREREQUISITE = ''resource-prerequisite''"

section \<open>Reading a stored word\<close>

instantiation lifecycle_state :: enum
begin

definition enum_lifecycle_state :: "lifecycle_state list" where
  "enum_lifecycle_state =
     [S_QUEUED, S_RUNNING, S_OBSERVING, S_BACKOFF, S_SUCCEEDED, S_FAILED, S_CANCELLED,
      S_SUPERSEDED, S_NEEDS_OPERATOR]"

definition enum_all_lifecycle_state :: "(lifecycle_state \<Rightarrow> bool) \<Rightarrow> bool" where
  "enum_all_lifecycle_state P \<longleftrightarrow> list_all P enum_class.enum"

definition enum_ex_lifecycle_state :: "(lifecycle_state \<Rightarrow> bool) \<Rightarrow> bool" where
  "enum_ex_lifecycle_state P \<longleftrightarrow> list_ex P enum_class.enum"

instance
proof
  show univ: "(UNIV :: lifecycle_state set) = set enum_class.enum"
  proof (rule UNIV_eq_I)
    fix s :: lifecycle_state
    show "s \<in> set enum_class.enum" by (cases s) (simp_all add: enum_lifecycle_state_def)
  qed
  show "distinct (enum_class.enum :: lifecycle_state list)"
    by (simp add: enum_lifecycle_state_def)
  fix P :: "lifecycle_state \<Rightarrow> bool"
  show "enum_class.enum_all P \<longleftrightarrow> Ball UNIV P"
    unfolding enum_all_lifecycle_state_def list_all_iff univ ..
  show "enum_class.enum_ex P \<longleftrightarrow> Bex UNIV P"
    unfolding enum_ex_lifecycle_state_def list_ex_iff univ ..
qed

end

text \<open>\<^verbatim>\<open>TERMINAL_LIFECYCLE_STATES\<close>, as membership.\<close>

fun terminal_state :: "lifecycle_state \<Rightarrow> bool" where
  "terminal_state S_SUCCEEDED = True"
| "terminal_state S_FAILED = True"
| "terminal_state S_CANCELLED = True"
| "terminal_state S_SUPERSEDED = True"
| "terminal_state _ = False"

text \<open>\<^verbatim>\<open>LIVE_LIFECYCLE_STATES = frozenset(LifecycleState) - TERMINAL_LIFECYCLE_STATES\<close>.\<close>

definition live_lifecycle_states :: "lifecycle_state list" where
  "live_lifecycle_states = filter (\<lambda>s. \<not> terminal_state s) enum_class.enum"

text \<open>
  \<^verbatim>\<open>LifecycleState(stored)\<close> with the \<^verbatim>\<open>ValueError\<close> of an unknown word read as \<open>None\<close>. The
  subject is an argument of the source's function that it does not use.
\<close>

definition adopt_state :: "lifecycle_subject \<Rightarrow> string \<Rightarrow> lifecycle_state option" where
  "adopt_state subject stored =
     find (\<lambda>s. lifecycle_state_value s = stored) enum_class.enum"

definition stored_words :: "lifecycle_subject \<Rightarrow> lifecycle_state list \<Rightarrow> string list" where
  "stored_words subject states =
     map lifecycle_state_value (filter (\<lambda>s. s \<in> set states) enum_class.enum)"

definition live_words :: "lifecycle_subject \<Rightarrow> string list" where
  "live_words subject = stored_words subject live_lifecycle_states"

definition is_state ::
  "lifecycle_subject \<Rightarrow> string option \<Rightarrow> lifecycle_state list \<Rightarrow> bool" where
  "is_state subject stored states =
     (case stored of
        None \<Rightarrow> False
      | Some w \<Rightarrow> (case adopt_state subject w of None \<Rightarrow> False | Some s \<Rightarrow> s \<in> set states))"

definition is_live :: "lifecycle_subject \<Rightarrow> string option \<Rightarrow> bool" where
  "is_live subject stored =
     (case stored of
        None \<Rightarrow> False
      | Some w \<Rightarrow>
          (case adopt_state subject w of
             None \<Rightarrow> False | Some s \<Rightarrow> s \<in> set live_lifecycle_states))"

text \<open>
  \<^verbatim>\<open>AgentResultState(word)\<close>: a member's own word, or through \<^verbatim>\<open>_missing_\<close> the retired
  spelling of \<^verbatim>\<open>RETIRED_RESULT_STATE_SPELLINGS\<close>; any other word raises.
\<close>

definition retired_result_state :: "string \<Rightarrow> agent_result_state option" where
  "retired_result_state word =
     (if word = ''waiting-for-operator'' then Some R_OBSERVING else None)"

definition read_agent_result_state :: "string \<Rightarrow> agent_result_state result" where
  "read_agent_result_state word =
     (case find (\<lambda>s. agent_result_state_value s = word)
             [R_SUCCEEDED, R_FAILED, R_CANCELLED, R_OBSERVING] of
        Some s \<Rightarrow> Inr s
      | None \<Rightarrow>
          (case retired_result_state word of Some s \<Rightarrow> Inr s | None \<Rightarrow> Inl ValueError))"

text \<open>\<^verbatim>\<open>_BLOCKER_TO_ERROR\<close> and \<^verbatim>\<open>error_category_of\<close>.\<close>

fun error_category_of :: "blocker_category \<Rightarrow> error_category" where
  "error_category_of B_SECURITY_EDGE = Cat_SECURITY_REFUSAL"
| "error_category_of B_INPUT_VALIDATION = Cat_INVALID_REQUEST"
| "error_category_of B_ALREADY_RETRIED = Cat_UNKNOWN"
| "error_category_of B_BOOKKEEPING_DEBT = Cat_UNKNOWN"

section \<open>The failure-disposition table\<close>

text \<open>\<^verbatim>\<open>FAILURE_KIND_DISPOSITION\<close>.\<close>

fun failure_kind_disposition :: "agent_failure_kind \<Rightarrow> disposition" where
  "failure_kind_disposition K_TEMPORARY_DEPENDENCY = D_WAIT"
| "failure_kind_disposition K_RESOURCE_PREREQUISITE = D_WAIT"
| "failure_kind_disposition K_UNCERTAIN_EFFECT = D_OBSERVE"
| "failure_kind_disposition K_INVALID_AUTHORITY = D_SECURITY"
| "failure_kind_disposition K_INVALID_CONTRACT = D_FAIL"
| "failure_kind_disposition K_INTEGRITY_FAILURE = D_FAIL"

text \<open>\<^verbatim>\<open>WAIT_REASON_DISPOSITION\<close>.\<close>

fun wait_reason_disposition :: "wait_reason \<Rightarrow> disposition" where
  "wait_reason_disposition W_SPARK_BUSY = D_WAIT"
| "wait_reason_disposition W_OPERATION_NOT_ENABLED = D_WAIT"
| "wait_reason_disposition W_UPGRADE_AWAITING_IDENTITY = D_WAIT"
| "wait_reason_disposition W_AGENT_RESTART_INTERRUPTED = D_OBSERVE"
| "wait_reason_disposition W_STOP_UNCONFIRMED = D_OBSERVE"
| "wait_reason_disposition W_CLEANUP_UNCONFIRMED = D_OBSERVE"
| "wait_reason_disposition W_STOP_METADATA_UNCONFIRMED = D_OBSERVE"
| "wait_reason_disposition W_RETAINED_IDENTITY_MISMATCH = D_OBSERVE"
| "wait_reason_disposition W_MODEL_CUSTODY_UNCONFIRMED = D_OBSERVE"
| "wait_reason_disposition W_RUNTIME_EFFECT_UNCONFIRMED = D_OBSERVE"
| "wait_reason_disposition W_JOB_STOP_UNCONFIRMED = D_OBSERVE"
| "wait_reason_disposition W_JOB_STATE_UNCERTAIN = D_OBSERVE"
| "wait_reason_disposition W_LEASE_LAPSED = D_OBSERVE"
| "wait_reason_disposition W_REPORT_UNCERTAIN = D_OBSERVE"
| "wait_reason_disposition W_OBSERVATION_UNAVAILABLE = D_OBSERVE"
| "wait_reason_disposition W_RECEIPT_MISSING = D_OBSERVE"
| "wait_reason_disposition W_STALE_PLAN = D_OBSERVE"
| "wait_reason_disposition W_SCOPE_CHANGED = D_OBSERVE"
| "wait_reason_disposition W_LEGACY_UNCLASSIFIED = D_OBSERVE"

text \<open>\<^verbatim>\<open>HTTP_STATUS_DISPOSITIONS\<close>: first match wins.\<close>

definition http_status_dispositions :: "(int \<times> int \<times> disposition) list" where
  "http_status_dispositions =
     [(401, 401, D_SECURITY), (403, 403, D_SECURITY), (429, 429, D_WAIT),
      (400, 499, D_FAIL), (500, 599, D_WAIT)]"

definition http_status_disposition :: "int \<Rightarrow> disposition" where
  "http_status_disposition status =
     (case find (\<lambda>(lo, hi, verdict). lo \<le> status \<and> status \<le> hi)
             http_status_dispositions of
        Some (lo, hi, verdict) \<Rightarrow> verdict
      | None \<Rightarrow> D_OBSERVE)"

section \<open>What the vocabulary gives its readers\<close>

lemma set_enum_state [simp]: "set (enum_class.enum :: lifecycle_state list) = UNIV"
  by (rule enum_UNIV)

lemma lifecycle_state_value_inj:
  "lifecycle_state_value s = lifecycle_state_value t \<longleftrightarrow> s = t"
  by (cases s; cases t; simp)

lemma adopt_state_value [simp]: "adopt_state subject (lifecycle_state_value s) = Some s"
  by (cases s) (simp_all add: adopt_state_def enum_lifecycle_state_def)

lemma adopt_state_Some: "adopt_state subject w = Some s \<longleftrightarrow> w = lifecycle_state_value s"
proof
  assume "adopt_state subject w = Some s"
  then show "w = lifecycle_state_value s"
    by (auto simp: adopt_state_def find_Some_iff)
qed simp

lemma terminal_state_iff:
  "terminal_state s \<longleftrightarrow> s \<in> {S_SUCCEEDED, S_FAILED, S_CANCELLED, S_SUPERSEDED}"
  by (cases s) simp_all

lemma live_lifecycle_states_iff: "s \<in> set live_lifecycle_states \<longleftrightarrow> \<not> terminal_state s"
  by (simp add: live_lifecycle_states_def)

lemma wait_reason_disposition_never_ends:
  "wait_reason_disposition r = D_WAIT \<or> wait_reason_disposition r = D_OBSERVE"
  by (cases r) simp_all

lemma http_status_disposition_cases:
  "http_status_disposition status =
     (if status = 401 \<or> status = 403 then D_SECURITY
      else if status = 429 \<or> 500 \<le> status \<and> status \<le> 599 then D_WAIT
      else if 400 \<le> status \<and> status \<le> 499 then D_FAIL
      else D_OBSERVE)"
  by (auto simp: http_status_disposition_def http_status_dispositions_def)

end
