(* ===== verification/Recovery_Policy.thy ===== *)
theory Recovery_Policy
  imports Vocabulary
begin

text \<open>
  The shared retry clock (\<^verbatim>\<open>control/src/vonk_control/recovery_policy.py\<close>) and the stall
  windows (\<^verbatim>\<open>stall_window.py\<close>). \<^verbatim>\<open>hashlib.sha256\<close> is the parameter \<open>sha256\<close>, a function
  from the bytes of the hashed text to the digest's bytes: the schedule's bounds hold
  whatever the digest is, and the schedule is a function of its arguments, so a worker
  restart never shifts it.
\<close>

section \<open>Failure kinds of a typed observation\<close>

text \<open>\<^verbatim>\<open>FailureKind(raw_kind)\<close>: \<open>None\<close> for the \<^verbatim>\<open>ValueError\<close> of an unknown word.\<close>

definition read_failure_kind :: "string \<Rightarrow> agent_failure_kind option" where
  "read_failure_kind w =
     find (\<lambda>k. agent_failure_kind_value k = w)
       [K_TEMPORARY_DEPENDENCY, K_UNCERTAIN_EFFECT, K_INVALID_AUTHORITY, K_INVALID_CONTRACT,
        K_INTEGRITY_FAILURE, K_RESOURCE_PREREQUISITE]"

definition kind_for_failure_fields ::
  "string option \<Rightarrow> string option \<Rightarrow> bool \<Rightarrow> agent_failure_kind" where
  "kind_for_failure_fields failure_kind error_code uncertain =
     (case failure_kind of
        Some raw \<Rightarrow>
          (case read_failure_kind raw of Some k \<Rightarrow> k | None \<Rightarrow> K_INVALID_CONTRACT)
      | None \<Rightarrow>
          (if error_code = Some (failure_code_value F_RETAINED_CONTAINER_FOREIGN)
           then K_RESOURCE_PREREQUISITE
           else if uncertain \<or> error_code = Some ''operation_outcome_uncertain''
           then K_UNCERTAIN_EFFECT
           else if error_code = Some ''agent_lease_expired'' then K_UNCERTAIN_EFFECT
           else K_INVALID_CONTRACT))"

section \<open>The backoff schedule\<close>

record recovery_policy =
  max_failures :: int
  base_delay_seconds :: int
  max_delay_seconds :: int

text \<open>\<^verbatim>\<open>int.from_bytes(bytes, "big")\<close>.\<close>

definition int_from_bytes :: "string \<Rightarrow> int" where
  "int_from_bytes bs = foldl (\<lambda>n b. n * 256 + int (of_char b)) 0 bs"

definition retry_entropy :: "(string \<Rightarrow> string) \<Rightarrow> string \<Rightarrow> int \<Rightarrow> int" where
  "retry_entropy sha256 operation_id failed_attempts =
     int_from_bytes (take 8 (sha256 (operation_id @ '':'' @ show_int failed_attempts)))"

definition backoff_cap :: "recovery_policy \<Rightarrow> int \<Rightarrow> int" where
  "backoff_cap p failed_attempts =
     min (max_delay_seconds p) (base_delay_seconds p * 2 ^ nat (min (failed_attempts - 1) 30))"

definition backoff_lower :: "recovery_policy \<Rightarrow> int \<Rightarrow> int" where
  "backoff_lower p n = max 1 (backoff_cap p n * 3 div 4)"

definition backoff_upper :: "recovery_policy \<Rightarrow> int \<Rightarrow> int" where
  "backoff_upper p n =
     max (backoff_lower p n) (min (max_delay_seconds p) (backoff_cap p n * 5 div 4))"

text \<open>\<^verbatim>\<open>RecoveryPolicy.next_attempt\<close>, its checks in the source's order.\<close>

definition next_attempt ::
  "(string \<Rightarrow> string) \<Rightarrow> recovery_policy \<Rightarrow> string \<Rightarrow> int \<Rightarrow> datetime \<Rightarrow> datetime option
     \<Rightarrow> bool \<Rightarrow> datetime option result" where
  "next_attempt sha256 p operation_id failed_attempts now retry_after ongoing_intent =
     (if operation_id = [] \<or> failed_attempts < 1 then Inl ValueError
      else if max_failures p < 1 \<or> base_delay_seconds p < 1
              \<or> max_delay_seconds p < base_delay_seconds p then Inl ValueError
      else if \<not> ongoing_intent \<and> failed_attempts \<ge> max_failures p then Inr None
      else if \<not> aware_flag now
              \<or> (case retry_after of None \<Rightarrow> False | Some r \<Rightarrow> \<not> aware_flag r)
      then Inl ValueError
      else
        (let lower = backoff_lower p failed_attempts;
             upper = backoff_upper p failed_attempts;
             entropy = retry_entropy sha256 operation_id failed_attempts;
             scheduled = at now + seconds (lower + entropy mod (upper - lower + 1))
         in Inr (Some (aware_at
              (case retry_after of None \<Rightarrow> scheduled | Some r \<Rightarrow> max scheduled (at r))))))"

definition exhausted :: "recovery_policy \<Rightarrow> int \<Rightarrow> bool" where
  "exhausted p failures \<longleftrightarrow> failures \<ge> max_failures p"

definition WAIT_STEP :: int where
  "WAIT_STEP = 2"

definition RECOVERY :: recovery_policy where
  "RECOVERY = \<lparr>max_failures = 5, base_delay_seconds = 2, max_delay_seconds = 60\<rparr>"

definition ROUTE_RECOVERY :: recovery_policy where
  "ROUTE_RECOVERY = \<lparr>max_failures = 6, base_delay_seconds = 5, max_delay_seconds = 60\<rparr>"

definition DISTRIBUTED_RECOVERY :: recovery_policy where
  "DISTRIBUTED_RECOVERY = \<lparr>max_failures = 5, base_delay_seconds = 5, max_delay_seconds = 300\<rparr>"

record scheduled =
  failures :: int
  next_at :: "datetime option"

text \<open>\<^verbatim>\<open>schedule\<close>: the retry decision of an owner outside the lifecycle core.\<close>

definition schedule ::
  "(string \<Rightarrow> string) \<Rightarrow> recovery_policy \<Rightarrow> string \<Rightarrow> int \<Rightarrow> disposition \<Rightarrow> datetime
     \<Rightarrow> datetime option \<Rightarrow> scheduled result" where
  "schedule sha256 p operation_id fails verdict now retry_after =
     (if verdict = D_FAIL \<or> verdict = D_SECURITY
      then Inr \<lparr>failures = fails, next_at = None\<rparr>
      else if verdict = D_WAIT
      then res_map (\<lambda>t. \<lparr>failures = fails, next_at = t\<rparr>)
             (next_attempt sha256 p operation_id WAIT_STEP now retry_after True)
      else res_map (\<lambda>t. \<lparr>failures = fails + 1, next_at = t\<rparr>)
             (next_attempt sha256 p operation_id (fails + 1) now retry_after True))"

section \<open>Bounds of the schedule\<close>

text \<open>A policy whose fields the source's validation accepts.\<close>

definition valid_policy :: "recovery_policy \<Rightarrow> bool" where
  "valid_policy p \<longleftrightarrow> 1 \<le> max_failures p \<and> 1 \<le> base_delay_seconds p
     \<and> base_delay_seconds p \<le> max_delay_seconds p"

lemma backoff_cap_bounds:
  assumes "valid_policy p"
  shows "base_delay_seconds p \<le> backoff_cap p n" "backoff_cap p n \<le> max_delay_seconds p"
proof -
  have "1 * base_delay_seconds p \<le> 2 ^ nat (min (n - 1) 30) * base_delay_seconds p"
    using assms by (intro mult_right_mono) (auto simp: valid_policy_def)
  with assms show "base_delay_seconds p \<le> backoff_cap p n"
    by (simp add: backoff_cap_def valid_policy_def mult.commute)
qed (simp add: backoff_cap_def)

lemma backoff_range:
  assumes "valid_policy p"
  shows "1 \<le> backoff_lower p n" "backoff_lower p n \<le> backoff_upper p n"
    "backoff_upper p n \<le> max_delay_seconds p"
proof -
  have c: "1 \<le> backoff_cap p n" "backoff_cap p n \<le> max_delay_seconds p"
    using backoff_cap_bounds [OF assms, of n] assms by (auto simp: valid_policy_def)
  show "1 \<le> backoff_lower p n" "backoff_lower p n \<le> backoff_upper p n"
    by (simp_all add: backoff_lower_def backoff_upper_def)
  have "backoff_cap p n * 3 div 4 \<le> max_delay_seconds p" using c by linarith
  with c show "backoff_upper p n \<le> max_delay_seconds p"
    by (simp add: backoff_lower_def backoff_upper_def)
qed

lemma jitter_bounds:
  fixes lower upper e :: int
  assumes "lower \<le> upper"
  shows "lower \<le> lower + e mod (upper - lower + 1)" "lower + e mod (upper - lower + 1) \<le> upper"
proof -
  have "0 < upper - lower + 1" using assms by simp
  then have "0 \<le> e mod (upper - lower + 1)" "e mod (upper - lower + 1) < upper - lower + 1"
    by (rule pos_mod_sign, rule pos_mod_bound)
  then show "lower \<le> lower + e mod (upper - lower + 1)"
    "lower + e mod (upper - lower + 1) \<le> upper" by linarith+
qed

text \<open>The delay of a standing owner: an instant between the lower and the upper bound.\<close>

lemma next_attempt_ongoing:
  assumes "valid_policy p" "operation_id \<noteq> []" "1 \<le> n"
  obtains d where
    "next_attempt sha256 p operation_id n (aware_at now) (map_option aware_at after) True
       = Inr (Some (aware_at (case after of None \<Rightarrow> now + d | Some r \<Rightarrow> max (now + d) r)))"
    "seconds (backoff_lower p n) \<le> d" "d \<le> seconds (backoff_upper p n)"
proof
  let ?lo = "backoff_lower p n" and ?up = "backoff_upper p n"
  let ?e = "retry_entropy sha256 operation_id n"
  let ?d = "?lo + ?e mod (?up - ?lo + 1)"
  show "next_attempt sha256 p operation_id n (aware_at now) (map_option aware_at after) True
       = Inr (Some (aware_at
           (case after of None \<Rightarrow> now + seconds ?d | Some r \<Rightarrow> max (now + seconds ?d) r)))"
    using assms
    by (cases after) (simp_all add: next_attempt_def valid_policy_def Let_def not_less)
  show "seconds ?lo \<le> seconds ?d" "seconds ?d \<le> seconds ?up"
    using jitter_bounds [OF backoff_range(2) [OF assms(1), of n], of ?e] by simp_all
qed

section \<open>The clock a standing owner uses\<close>

text \<open>
  \<^verbatim>\<open>RECOVERY.next_attempt(..., ongoing_intent=True) or now\<close>, as the lifecycle core calls it
  with timezone-aware times.
\<close>

definition standing_attempt ::
  "(string \<Rightarrow> string) \<Rightarrow> recovery_policy \<Rightarrow> string \<Rightarrow> int \<Rightarrow> instant \<Rightarrow> instant option
     \<Rightarrow> instant result" where
  "standing_attempt sha256 p operation_id n now not_before =
     res_map (\<lambda>t. case t of None \<Rightarrow> now | Some d \<Rightarrow> at d)
       (next_attempt sha256 p operation_id n (aware_at now) (map_option aware_at not_before)
          True)"

text \<open>
  The contract of a retry clock towards the owners that schedule with it: for a named
  operation and a positive count it answers, no earlier than the given floor, at least a
  second from now and at most \<open>slowest\<close> seconds beyond what the floor demands; it raises for
  an operation without a name.
\<close>

locale retry_clock =
  fixes clock :: "string \<Rightarrow> int \<Rightarrow> instant \<Rightarrow> instant option \<Rightarrow> instant result"
    and slowest :: int
  assumes answers: "op \<noteq> [] \<Longrightarrow> 1 \<le> n \<Longrightarrow> \<exists>t. clock op n now floor = Inr t"
    and refuses: "clock [] n now floor = Inl ValueError"
    and prompt: "clock op n now None = Inr t \<Longrightarrow> now + seconds 1 \<le> t \<and> t \<le> now + seconds slowest"
    and floored:
      "clock op n now (Some f) = Inr t \<Longrightarrow>
         \<exists>t0. clock op n now None = Inr t0 \<and> t = max t0 f"
begin

lemma never_early: "clock op n now floor = Inr t \<Longrightarrow> now + seconds 1 \<le> t"
  by (cases floor) (force dest: prompt floored)+

lemma bounded:
  "clock op n now floor = Inr t \<Longrightarrow>
     t \<le> max (now + seconds slowest) (case floor of None \<Rightarrow> now | Some f \<Rightarrow> f)"
  by (cases floor) (force dest: prompt floored)+

lemma respects_floor: "clock op n now (Some f) = Inr t \<Longrightarrow> f \<le> t"
  by (drule floored) auto

lemma slowest_positive: "1 \<le> slowest"
proof -
  obtain t where "clock ''x'' 1 0 None = Inr t" using answers [of "''x''" 1 0 None] by auto
  from prompt [OF this] show ?thesis by (simp add: seconds_def)
qed

end

lemma standing_attempt_range:
  assumes "valid_policy p" "standing_attempt sha256 p op n now None = Inr t"
  shows "now + seconds (backoff_lower p n) \<le> t" "t \<le> now + seconds (backoff_upper p n)"
proof -
  have ok: "op \<noteq> []" "1 \<le> n"
    using assms(2) by (auto simp: standing_attempt_def next_attempt_def split: if_splits)
  obtain d where
    "next_attempt sha256 p op n (aware_at now) (map_option aware_at None) True
       = Inr (Some (aware_at (case None of None \<Rightarrow> now + d | Some r \<Rightarrow> max (now + d) r)))"
    and d: "seconds (backoff_lower p n) \<le> d" "d \<le> seconds (backoff_upper p n)"
    by (rule next_attempt_ongoing [OF assms(1) ok])
  with assms(2) have "t = now + d" by (simp add: standing_attempt_def)
  with d show "now + seconds (backoff_lower p n) \<le> t" "t \<le> now + seconds (backoff_upper p n)"
    by simp_all
qed

lemma retry_clock_standing_attempt:
  assumes "valid_policy p"
  shows "retry_clock (standing_attempt sha256 p) (max_delay_seconds p)"
proof
  fix op :: string and n now :: int and floor :: "instant option"
  assume "op \<noteq> []" "1 \<le> n"
  then obtain x where
    "next_attempt sha256 p op n (aware_at now) (map_option aware_at floor) True = Inr x"
    using next_attempt_ongoing [OF assms] by meson
  then show "\<exists>t. standing_attempt sha256 p op n now floor = Inr t"
    by (simp add: standing_attempt_def)
next
  fix n now :: int and floor :: "instant option"
  show "standing_attempt sha256 p [] n now floor = Inl ValueError"
    by (simp add: standing_attempt_def next_attempt_def)
next
  fix op :: string and n now t :: int
  assume r: "standing_attempt sha256 p op n now None = Inr t"
  note standing_attempt_range [OF assms r]
  moreover have "seconds 1 \<le> seconds (backoff_lower p n)"
    "seconds (backoff_upper p n) \<le> seconds (max_delay_seconds p)"
    using backoff_range [OF assms, of n] by simp_all
  ultimately show "now + seconds 1 \<le> t \<and> t \<le> now + seconds (max_delay_seconds p)" by linarith
next
  fix op :: string and n now f t :: int
  assume "standing_attempt sha256 p op n now (Some f) = Inr t"
  then show "\<exists>t0. standing_attempt sha256 p op n now None = Inr t0 \<and> t = max t0 f"
    by (auto simp: standing_attempt_def next_attempt_def Let_def split: if_splits)
qed

lemma valid_policies [simp]:
  "valid_policy RECOVERY" "valid_policy ROUTE_RECOVERY" "valid_policy DISTRIBUTED_RECOVERY"
  by (simp_all add: valid_policy_def RECOVERY_def ROUTE_RECOVERY_def DISTRIBUTED_RECOVERY_def)

lemma slowest_of_policies [simp]:
  "max_delay_seconds RECOVERY = 60" "max_delay_seconds ROUTE_RECOVERY = 60"
  "max_delay_seconds DISTRIBUTED_RECOVERY = 300"
  by (simp_all add: RECOVERY_def ROUTE_RECOVERY_def DISTRIBUTED_RECOVERY_def)

interpretation recovery: retry_clock "standing_attempt sha256 RECOVERY" 60 for sha256
  using retry_clock_standing_attempt [OF valid_policies(1)] by simp

interpretation route: retry_clock "standing_attempt sha256 ROUTE_RECOVERY" 60 for sha256
  using retry_clock_standing_attempt [OF valid_policies(2)] by simp

interpretation distributed: retry_clock "standing_attempt sha256 DISTRIBUTED_RECOVERY" 300 for sha256
  using retry_clock_standing_attempt [OF valid_policies(3)] by simp

section \<open>What the clock promises\<close>

lemma valid_policy_iff:
  "\<not> (max_failures p < 1 \<or> base_delay_seconds p < 1 \<or> max_delay_seconds p < base_delay_seconds p)
     \<longleftrightarrow> valid_policy p"
  by (auto simp: valid_policy_def)

lemma next_attempt_within:
  assumes "next_attempt sha256 p op n now after ongoing = Inr (Some t)"
  shows "at now + seconds (backoff_lower p n) \<le> at t"
    and "case after of None \<Rightarrow> at t \<le> at now + seconds (backoff_upper p n)
         | Some r \<Rightarrow> at r \<le> at t \<and> at t \<le> max (at r) (at now + seconds (backoff_upper p n))"
proof -
  let ?lo = "backoff_lower p n" and ?up = "backoff_upper p n"
  let ?d = "?lo + retry_entropy sha256 op n mod (?up - ?lo + 1)"
  have v: "valid_policy p" and t: "t = aware_at
      (case after of None \<Rightarrow> at now + seconds ?d | Some r \<Rightarrow> max (at now + seconds ?d) (at r))"
    using assms by (auto simp: next_attempt_def Let_def valid_policy_def split: if_splits)
  obtain d where d: "seconds ?lo \<le> d" "d \<le> seconds ?up" and t:
      "t = aware_at (case after of None \<Rightarrow> at now + d | Some r \<Rightarrow> max (at now + d) (at r))"
    using jitter_bounds [OF backoff_range(2) [OF v, of n], of "retry_entropy sha256 op n"] t
    by (intro that [of "seconds ?d"]) (simp_all only: seconds_mono)
  show "at now + seconds ?lo \<le> at t" using d t by (cases after) simp_all
  show "case after of None \<Rightarrow> at t \<le> at now + seconds ?up
         | Some r \<Rightarrow> at r \<le> at t \<and> at t \<le> max (at r) (at now + seconds ?up)"
    using d t by (cases after) auto
qed

text \<open>
  When the clock raises, when it gives up and what it answers otherwise: it raises exactly
  for a missing name, a count below one, an invalid policy or a naive time it needs; it gives
  up exactly for a bounded intent that used its failures; any other answer lies at least a
  second ahead, within the policy's longest delay or at the dependency's own time when that is
  later, and never before it.
\<close>

lemma next_attempt_decides:
  "case next_attempt sha256 p op n now after ongoing of
     Inl e \<Rightarrow> e = ValueError \<and> (op = [] \<or> n < 1 \<or> \<not> valid_policy p \<or>
       (ongoing \<or> n < max_failures p) \<and>
       \<not> (aware_flag now \<and> (after = None \<or> aware_flag (the after))))
   | Inr None \<Rightarrow> op \<noteq> [] \<and> 1 \<le> n \<and> valid_policy p \<and> \<not> ongoing \<and> max_failures p \<le> n
   | Inr (Some t) \<Rightarrow> op \<noteq> [] \<and> 1 \<le> n \<and> valid_policy p \<and> (ongoing \<or> n < max_failures p) \<and>
       aware_flag now \<and> (after = None \<or> aware_flag (the after)) \<and>
       aware_flag t \<and> at now + seconds 1 \<le> at t \<and>
       at t \<le> max (at now + seconds (max_delay_seconds p))
                   (if after = None then at now else at (the after)) \<and>
       at t \<ge> (if after = None then at now else at (the after))"
proof (cases "next_attempt sha256 p op n now after ongoing")
  case (Inl e)
  then show ?thesis
    by (auto simp: next_attempt_def Let_def valid_policy_def split: if_splits option.splits)
next
  case (Inr x)
  show ?thesis
  proof (cases x)
    case None
    with Inr show ?thesis
      by (auto simp: next_attempt_def Let_def valid_policy_def split: if_splits)
  next
    case (Some t)
    with Inr have r: "next_attempt sha256 p op n now after ongoing = Inr (Some t)" by simp
    have v: "valid_policy p" and ok: "op \<noteq> []" "1 \<le> n" "ongoing \<or> n < max_failures p"
        "aware_flag now" "after = None \<or> aware_flag (the after)" "aware_flag t"
      using r by (auto simp: next_attempt_def Let_def valid_policy_def split: if_splits option.splits)
    have s: "seconds 1 \<le> seconds (backoff_lower p n)" "seconds 0 \<le> seconds 1"
      "seconds (backoff_upper p n) \<le> seconds (max_delay_seconds p)"
      using backoff_range [OF v, of n] by simp_all
    show ?thesis
      using next_attempt_within [OF r] s Some Inr ok v
      by (cases after) (auto simp: seconds_def)
  qed
qed

text \<open>
  What an owner outside the core spends: a definite verdict is never scheduled again and
  spends nothing; a wait spends nothing and is looked at again within the same short window
  however many failures came before; an uncertain effect spends one failure and is always
  scheduled, so only its owner's bound ends it.
\<close>

lemma schedule_spends:
  assumes "valid_policy p" "op \<noteq> []" "0 \<le> fails" "aware_flag now"
  shows "\<exists>s. schedule sha256 p op fails verdict now None = Inr s \<and>
    failures s = fails + (if verdict = D_OBSERVE then 1 else 0) \<and>
    (next_at s = None \<longleftrightarrow> verdict = D_FAIL \<or> verdict = D_SECURITY) \<and>
    (\<forall>t. next_at s = Some t \<longrightarrow>
       at now + seconds (backoff_lower p (if verdict = D_WAIT then WAIT_STEP else fails + 1)) \<le> at t \<and>
       at t \<le> at now + seconds (backoff_upper p (if verdict = D_WAIT then WAIT_STEP else fails + 1)))"
proof -
  have answer: "\<exists>t. next_attempt sha256 p op n now None True = Inr (Some t)
      \<and> at now + seconds (backoff_lower p n) \<le> at t \<and> at t \<le> at now + seconds (backoff_upper p n)"
    if "1 \<le> n" for n
  proof -
    have "\<exists>t. next_attempt sha256 p op n now None True = Inr (Some t)"
      using assms that by (simp add: next_attempt_def Let_def valid_policy_def not_less)
    then obtain t where t: "next_attempt sha256 p op n now None True = Inr (Some t)" ..
    from next_attempt_within [OF t] t show ?thesis by auto
  qed
  obtain w where w: "next_attempt sha256 p op WAIT_STEP now None True = Inr (Some w)"
      "at now + seconds (backoff_lower p WAIT_STEP) \<le> at w"
      "at w \<le> at now + seconds (backoff_upper p WAIT_STEP)"
    using answer [of WAIT_STEP] by (auto simp: WAIT_STEP_def)
  obtain u where u: "next_attempt sha256 p op (fails + 1) now None True = Inr (Some u)"
      "at now + seconds (backoff_lower p (fails + 1)) \<le> at u"
      "at u \<le> at now + seconds (backoff_upper p (fails + 1))"
    using answer [of "fails + 1"] assms by auto
  show ?thesis by (cases verdict) (use w u in \<open>simp_all add: schedule_def\<close>)
qed

end
