(* ===== verification/Stall_Window.thy ===== *)
theory Stall_Window
  imports Recovery_Policy
begin

text \<open>
  Stall windows (\<^verbatim>\<open>control/src/vonk_control/stall_window.py\<close>): when work that reports no
  progress may be ended. Times are \<open>datetime\<close> values that may be naive, as the source's
  \<^verbatim>\<open>_aware\<close> accepts them; a \<^verbatim>\<open>timedelta\<close> is a number of microseconds.
\<close>

datatype verdict = V_PROGRESSING | V_WAITING | V_STALLED

text \<open>\<^verbatim>\<open>Wait\<close> and the \<^verbatim>\<open>Liveness\<close> protocol it implements.\<close>

record liveness =
  live :: bool
  ended_at :: "datetime option"

text \<open>
  The fields of \<^verbatim>\<open>OperationProgress\<close> (wire_model.py) that \<^verbatim>\<open>progress_advanced\<close> compares; the
  checkpoint is its key.
\<close>

record operation_progress =
  phase :: string
  completed_bytes :: int
  completed_items :: "int option"
  activity_sequence :: "int option"
  checkpoint_key :: "string option"

text \<open>\<^verbatim>\<open>_aware\<close>: a naive time is read as UTC.\<close>

definition aware :: "datetime \<Rightarrow> datetime" where
  "aware d = (if aware_flag d then d else d\<lparr>aware_flag := True\<rparr>)"

text \<open>\<^verbatim>\<open>x or 0\<close> on an optional count.\<close>

definition or_zero :: "int option \<Rightarrow> int" where
  "or_zero x = (case x of None \<Rightarrow> 0 | Some n \<Rightarrow> n)"

definition progress_advanced ::
  "operation_progress option \<Rightarrow> operation_progress \<Rightarrow> bool" where
  "progress_advanced previous current =
     (case previous of
        None \<Rightarrow> True
      | Some p \<Rightarrow>
          (if checkpoint_key p \<noteq> None \<and> checkpoint_key current \<noteq> None
              \<and> checkpoint_key p \<noteq> checkpoint_key current
           then False
           else completed_bytes current > completed_bytes p
             \<or> or_zero (completed_items current) > or_zero (completed_items p)
             \<or> or_zero (activity_sequence current) > or_zero (activity_sequence p)
             \<or> phase current \<noteq> phase p))"

text \<open>
  \<^verbatim>\<open>latest_progress\<close>: the newest of the known signals, never later than \<open>now\<close>. The list is
  the stored signal followed by the others.
\<close>

definition latest_progress :: "datetime option list \<Rightarrow> datetime \<Rightarrow> datetime option" where
  "latest_progress signals now =
     (let known = map (\<lambda>d. at (aware d)) (List.map_filter id signals)
      in if known = [] then None
         else Some (aware_at (min (Max (set known)) (at (aware now)))))"

definition stall_deadline :: "datetime \<Rightarrow> datetime option \<Rightarrow> int \<Rightarrow> instant" where
  "stall_deadline started_at progressed_at window =
     (let started = at (aware started_at);
          anchor = (case progressed_at of None \<Rightarrow> started
                    | Some p \<Rightarrow> max started (at (aware p)))
      in anchor + window)"

text \<open>\<^verbatim>\<open>Liveness | Iterable[Liveness] | None\<close> and \<^verbatim>\<open>_owners\<close>.\<close>

datatype waiting_on = No_owner | Owner liveness | Owners "liveness list"

fun owners :: "waiting_on \<Rightarrow> liveness list" where
  "owners No_owner = []"
| "owners (Owner w) = [w]"
| "owners (Owners ws) = ws"

definition progress_deadline ::
  "datetime \<Rightarrow> datetime option \<Rightarrow> int \<Rightarrow> datetime \<Rightarrow> waiting_on \<Rightarrow> instant" where
  "progress_deadline started_at progressed_at window now waiting =
     (if list_ex live (owners waiting) then stall_deadline now None window
      else stall_deadline started_at
             (latest_progress (None # progressed_at # map ended_at (owners waiting)) now)
             window)"

definition progress_verdict ::
  "datetime \<Rightarrow> datetime option \<Rightarrow> int \<Rightarrow> datetime \<Rightarrow> waiting_on \<Rightarrow> verdict" where
  "progress_verdict started_at progressed_at window now waiting =
     (if list_ex live (owners waiting) then V_WAITING
      else if at (aware now) \<ge> progress_deadline started_at progressed_at window now waiting
      then V_STALLED else V_PROGRESSING)"

section \<open>When work stalls\<close>

lemma at_aware [simp]: "at (aware d) = at d"
  by (simp add: aware_def)

text \<open>The instants that restart the window: the start, the progress, the ends of owners.\<close>

definition window_anchors :: "datetime \<Rightarrow> datetime option \<Rightarrow> waiting_on \<Rightarrow> instant list" where
  "window_anchors started_at progressed_at waiting =
     at started_at # map at (List.map_filter id (progressed_at # map ended_at (owners waiting)))"

lemma latest_progress_None:
  "latest_progress signals now = None \<longleftrightarrow> List.map_filter id signals = []"
  by (simp add: latest_progress_def)

lemma latest_progress_capped:
  "latest_progress signals now = Some p \<Longrightarrow> at p \<le> at now"
  by (auto simp: latest_progress_def Let_def split: if_splits)

lemma latest_progress_Some:
  assumes "latest_progress signals now = Some p"
  shows "at p = min (Max (at ` set (List.map_filter id signals))) (at now)"
  using assms by (auto simp: latest_progress_def Let_def split: if_splits)

lemma window_past_Max:
  fixes S :: "int set"
  assumes "finite S" "S \<noteq> {}"
  shows "max s (min (Max S) n) + w \<le> n \<longleftrightarrow> s + w \<le> n \<and> (\<forall>a \<in> S. min a n + w \<le> n)"
proof -
  have "min (Max S) n + w \<le> n \<longleftrightarrow> (\<forall>a \<in> S. min a n + w \<le> n)"
  proof
    assume m: "min (Max S) n + w \<le> n"
    show "\<forall>a \<in> S. min a n + w \<le> n"
    proof
      fix a assume "a \<in> S"
      with assms have "a \<le> Max S" by simp
      with m show "min a n + w \<le> n" by linarith
    qed
  next
    assume "\<forall>a \<in> S. min a n + w \<le> n"
    moreover have "Max S \<in> S" using assms by (rule Max_in)
    ultimately show "min (Max S) n + w \<le> n" by blast
  qed
  moreover have "max s m + w \<le> n \<longleftrightarrow> s + w \<le> n \<and> m + w \<le> n" for m by linarith
  ultimately show ?thesis by simp
qed

text \<open>
  Work that started is called stalled exactly when nobody it waits for is alive and a whole
  window has passed since its start, since its last progress and since the end of everybody it
  waited for, each of them read as now when it lies in the future. Neither a live owner nor a
  recent end of one lets its waiter be ended.
\<close>

lemma progress_verdict_stalled:
  assumes started: "at started_at \<le> at now"
  shows "progress_verdict started_at progressed_at window now waiting = V_STALLED \<longleftrightarrow>
     (\<forall>w \<in> set (owners waiting). \<not> live w) \<and>
     (\<forall>a \<in> set (window_anchors started_at progressed_at waiting). min a (at now) + window \<le> at now)"
    (is "_ = V_STALLED \<longleftrightarrow> ?idle \<and> ?past")
proof (cases ?idle)
  case False
  then show ?thesis by (auto simp: progress_verdict_def list_ex_iff)
next
  case True
  let ?signals = "List.map_filter id (progressed_at # map ended_at (owners waiting))"
  let ?deadline = "progress_deadline started_at progressed_at window now waiting"
  have filt: "List.map_filter id (None # progressed_at # map ended_at (owners waiting)) = ?signals"
    by (simp add: List.map_filter_simps)
  have "?deadline \<le> at now \<longleftrightarrow> ?past"
  proof (cases "?signals = []")
    case True
    then have "latest_progress (None # progressed_at # map ended_at (owners waiting)) now = None"
      by (simp only: latest_progress_None filt)
    with True \<open>?idle\<close> started show ?thesis
      by (auto simp: progress_deadline_def stall_deadline_def window_anchors_def list_ex_iff Let_def)
  next
    case False
    then obtain p where
      p: "latest_progress (None # progressed_at # map ended_at (owners waiting)) now = Some p"
      by (metis latest_progress_None filt not_None_eq)
    have at_p: "at p = min (Max (at ` set ?signals)) (at now)"
      using latest_progress_Some [OF p] by (simp only: filt)
    have "max (at started_at) (at p) + window \<le> at now \<longleftrightarrow>
        at started_at + window \<le> at now \<and> (\<forall>a \<in> at ` set ?signals. min a (at now) + window \<le> at now)"
      unfolding at_p using False by (intro window_past_Max) auto
    with started p \<open>?idle\<close> show ?thesis
      by (auto simp: progress_deadline_def stall_deadline_def window_anchors_def list_ex_iff Let_def)
  qed
  with True show ?thesis by (auto simp: progress_verdict_def list_ex_iff)
qed

end
