(* ===== verification/Failure_Classification.thy ===== *)
theory Failure_Classification
  imports Vocabulary
begin

text \<open>
  The one classifier of failures (\<^verbatim>\<open>control/src/vonk_control/failure_classification.py\<close>) with
  the security edges it reads (\<^verbatim>\<open>security_edges.py\<close>). A Python exception is what the
  classifier inspects of it: the answers of its \<^verbatim>\<open>isinstance\<close> tests and attribute reads. The
  exception classes of the HTTP client, the database driver and the object mapper are
  third-party, so each of them is a flag. An error with its \<^verbatim>\<open>__cause__\<close> chain is a list, the
  error first.
\<close>

section \<open>Security edges\<close>

datatype security_edge =
    Edge_AUTHENTICATION
  | Edge_AUTHORISATION
  | Edge_IDENTITY
  | Edge_REVOCATION
  | Edge_SIGNED_METADATA
  | Edge_INGRESS_DIGEST
  | Edge_FENCE

text \<open>\<^verbatim>\<open>SECURITY_REFUSAL_EDGES\<close>: every closed reason and the one edge it guards.\<close>

primrec security_refusal_edge :: "security_refusal_reason \<Rightarrow> security_edge" where
  "security_refusal_edge Sec_HTTP_401 = Edge_AUTHENTICATION"
| "security_refusal_edge Sec_HTTP_403 = Edge_AUTHORISATION"
| "security_refusal_edge Sec_AGENT_CERTIFICATE_ROTATION_CONFLICT = Edge_IDENTITY"
| "security_refusal_edge Sec_AGENT_ENROLLMENT_SUBMIT_REJECTED = Edge_AUTHENTICATION"
| "security_refusal_edge Sec_AGENT_EXPIRED_RENEWAL_REFUSED = Edge_IDENTITY"
| "security_refusal_edge Sec_AGENT_EXPIRED_RENEWAL_GRACE_EXHAUSTED = Edge_IDENTITY"
| "security_refusal_edge Sec_AGENT_IDENTITY_MISMATCH = Edge_IDENTITY"
| "security_refusal_edge Sec_AGENT_TOMBSTONE_FENCED = Edge_FENCE"
| "security_refusal_edge Sec_CATALOG_AUTHENTICATION_REQUIRED = Edge_AUTHENTICATION"
| "security_refusal_edge Sec_CONTROLLER_AUTHENTICATION_REQUIRED = Edge_AUTHENTICATION"
| "security_refusal_edge Sec_CONTROLLER_FLEET_ENROLLMENT_DENIED = Edge_AUTHORISATION"
| "security_refusal_edge Sec_CONTROLLER_REQUEST_REJECTED = Edge_AUTHORISATION"
| "security_refusal_edge Sec_DIGEST_MISMATCH = Edge_INGRESS_DIGEST"
| "security_refusal_edge Sec_DISTRIBUTION_REVOKED = Edge_REVOCATION"
| "security_refusal_edge Sec_FORBIDDEN = Edge_AUTHORISATION"
| "security_refusal_edge Sec_GRANT_INVALID = Edge_SIGNED_METADATA"
| "security_refusal_edge Sec_GRANT_NODE_MISMATCH = Edge_AUTHORISATION"
| "security_refusal_edge Sec_GRANT_UNAUTHORIZED = Edge_AUTHORISATION"
| "security_refusal_edge Sec_HELPER_AUTHORIZATION_INVALID = Edge_AUTHORISATION"
| "security_refusal_edge Sec_HELPER_GRANT_INVALID = Edge_SIGNED_METADATA"
| "security_refusal_edge Sec_HELPER_GRANT_NODE_MISMATCH = Edge_AUTHORISATION"
| "security_refusal_edge Sec_HELPER_GRANT_UNAUTHORIZED = Edge_AUTHORISATION"
| "security_refusal_edge Sec_HELPER_OPERATION_INVALID_ARTIFACT = Edge_INGRESS_DIGEST"
| "security_refusal_edge Sec_HELPER_PEER_IDENTITY_INVALID = Edge_IDENTITY"
| "security_refusal_edge Sec_HELPER_REQUEST_INSTALLATION_IDENTITY_INVALID = Edge_SIGNED_METADATA"
| "security_refusal_edge Sec_HELPER_REQUEST_PLAN_BINDING_INVALID = Edge_SIGNED_METADATA"
| "security_refusal_edge Sec_HELPER_REQUEST_REPLAYED = Edge_FENCE"
| "security_refusal_edge Sec_HELPER_RUNTIME_IMAGE_IDENTITY_INVALID = Edge_INGRESS_DIGEST"
| "security_refusal_edge Sec_HOST_HELPER_AUTHORITY_DENIED = Edge_AUTHORISATION"
| "security_refusal_edge Sec_LOCAL_IDENTITY_EXPIRED = Edge_IDENTITY"
| "security_refusal_edge Sec_LOCAL_IDENTITY_FAILED = Edge_IDENTITY"
| "security_refusal_edge Sec_MODEL_CACHE_CREDENTIALS_DENIED = Edge_AUTHENTICATION"
| "security_refusal_edge Sec_MODEL_CACHE_CREDENTIALS_INVALID = Edge_AUTHENTICATION"
| "security_refusal_edge Sec_MODEL_CACHE_SOURCE_ACCESS_DENIED = Edge_AUTHORISATION"
| "security_refusal_edge Sec_OPERATION_INVALID_ARTIFACT = Edge_INGRESS_DIGEST"
| "security_refusal_edge Sec_PEER_IDENTITY_INVALID = Edge_IDENTITY"
| "security_refusal_edge Sec_PERMISSION_DENIED = Edge_AUTHORISATION"
| "security_refusal_edge Sec_RECIPE_UPDATE_AUTHORITY_DENIED = Edge_AUTHORISATION"
| "security_refusal_edge Sec_REQUEST_REPLAYED = Edge_FENCE"
| "security_refusal_edge Sec_RUN_SWITCH_ARTIFACT_DIGEST_VERIFICATION_FAILED = Edge_INGRESS_DIGEST"
| "security_refusal_edge Sec_RUN_SWITCH_CLEANUP_NAS_EVICTION_FORBIDDEN = Edge_AUTHORISATION"
| "security_refusal_edge Sec_RUN_SWITCH_CLEANUP_RECLAIMED_DIGEST_NOT_PLANNED = Edge_AUTHORISATION"
| "security_refusal_edge Sec_RUN_SWITCH_RUNTIME_IMAGE_PREPARATION_DIGEST_MISMATCH = Edge_INGRESS_DIGEST"
| "security_refusal_edge Sec_RUNTIME_IMAGE_AUTHORIZATION_INVALID = Edge_SIGNED_METADATA"
| "security_refusal_edge Sec_RUNTIME_IMAGE_AUTHORIZATION_REVOKED = Edge_REVOCATION"
| "security_refusal_edge Sec_RUNTIME_IMAGE_IDENTITY_INVALID = Edge_INGRESS_DIGEST"
| "security_refusal_edge Sec_STALE_FENCE = Edge_FENCE"
| "security_refusal_edge Sec_TUF_METADATA_INVALID = Edge_SIGNED_METADATA"
| "security_refusal_edge Sec_TUF_SIGNATURE_INVALID = Edge_SIGNED_METADATA"
| "security_refusal_edge Sec_UNAUTHORIZED = Edge_AUTHENTICATION"
| "security_refusal_edge Sec_UNSAFE_PATH = Edge_AUTHORISATION"

definition security_refusal_reasons :: "security_refusal_reason list" where
  "security_refusal_reasons =
     [Sec_HTTP_401, Sec_HTTP_403, Sec_AGENT_CERTIFICATE_ROTATION_CONFLICT,
      Sec_AGENT_ENROLLMENT_SUBMIT_REJECTED, Sec_AGENT_EXPIRED_RENEWAL_REFUSED,
      Sec_AGENT_EXPIRED_RENEWAL_GRACE_EXHAUSTED, Sec_AGENT_IDENTITY_MISMATCH,
      Sec_AGENT_TOMBSTONE_FENCED, Sec_CATALOG_AUTHENTICATION_REQUIRED,
      Sec_CONTROLLER_AUTHENTICATION_REQUIRED, Sec_CONTROLLER_FLEET_ENROLLMENT_DENIED,
      Sec_CONTROLLER_REQUEST_REJECTED, Sec_DIGEST_MISMATCH, Sec_DISTRIBUTION_REVOKED,
      Sec_FORBIDDEN, Sec_GRANT_INVALID, Sec_GRANT_NODE_MISMATCH, Sec_GRANT_UNAUTHORIZED,
      Sec_HELPER_AUTHORIZATION_INVALID, Sec_HELPER_GRANT_INVALID,
      Sec_HELPER_GRANT_NODE_MISMATCH, Sec_HELPER_GRANT_UNAUTHORIZED,
      Sec_HELPER_OPERATION_INVALID_ARTIFACT, Sec_HELPER_PEER_IDENTITY_INVALID,
      Sec_HELPER_REQUEST_INSTALLATION_IDENTITY_INVALID,
      Sec_HELPER_REQUEST_PLAN_BINDING_INVALID, Sec_HELPER_REQUEST_REPLAYED,
      Sec_HELPER_RUNTIME_IMAGE_IDENTITY_INVALID, Sec_HOST_HELPER_AUTHORITY_DENIED,
      Sec_LOCAL_IDENTITY_EXPIRED, Sec_LOCAL_IDENTITY_FAILED,
      Sec_MODEL_CACHE_CREDENTIALS_DENIED, Sec_MODEL_CACHE_CREDENTIALS_INVALID,
      Sec_MODEL_CACHE_SOURCE_ACCESS_DENIED, Sec_OPERATION_INVALID_ARTIFACT,
      Sec_PEER_IDENTITY_INVALID, Sec_PERMISSION_DENIED, Sec_RECIPE_UPDATE_AUTHORITY_DENIED,
      Sec_REQUEST_REPLAYED, Sec_RUN_SWITCH_ARTIFACT_DIGEST_VERIFICATION_FAILED,
      Sec_RUN_SWITCH_CLEANUP_NAS_EVICTION_FORBIDDEN,
      Sec_RUN_SWITCH_CLEANUP_RECLAIMED_DIGEST_NOT_PLANNED,
      Sec_RUN_SWITCH_RUNTIME_IMAGE_PREPARATION_DIGEST_MISMATCH,
      Sec_RUNTIME_IMAGE_AUTHORIZATION_INVALID, Sec_RUNTIME_IMAGE_AUTHORIZATION_REVOKED,
      Sec_RUNTIME_IMAGE_IDENTITY_INVALID, Sec_STALE_FENCE, Sec_TUF_METADATA_INVALID,
      Sec_TUF_SIGNATURE_INVALID, Sec_UNAUTHORIZED, Sec_UNSAFE_PATH]"

text \<open>\<^verbatim>\<open>_SECURITY_CODES\<close>: the words of the keys of \<^verbatim>\<open>SECURITY_REFUSAL_EDGES\<close>.\<close>

definition security_codes :: "string list" where
  "security_codes = map security_refusal_reason_value security_refusal_reasons"

definition SECURITY_REFUSAL_SUFFIXES :: "string list" where
  "SECURITY_REFUSAL_SUFFIXES =
     [''.authentication_required'', ''.authorization_invalid'', ''.authorization_revoked'',
      ''.authority_denied'', ''.enrollment_denied'', ''.identity_expired'', ''.node_revoked'',
      ''.permission_denied'', ''.signature_invalid'', ''.tombstone_fenced'']"

section \<open>Codes\<close>

text \<open>
  \<^verbatim>\<open>code.strip().casefold()\<close> on an ASCII code: surrounding white space goes, upper case
  letters become lower case.
\<close>

definition is_space :: "char \<Rightarrow> bool" where
  "is_space c \<longleftrightarrow> of_char c \<in> {9, 10, 11, 12, 13, 28, 29, 30, 31, 32 :: nat}"

definition strip :: "string \<Rightarrow> string" where
  "strip s = rev (dropWhile is_space (rev (dropWhile is_space s)))"

definition lower_char :: "char \<Rightarrow> char" where
  "lower_char c = (if 65 \<le> (of_char c :: nat) \<and> (of_char c :: nat) \<le> 90
                   then char_of (of_char c + 32 :: nat) else c)"

definition normalized :: "string option \<Rightarrow> string" where
  "normalized code = (case code of None \<Rightarrow> [] | Some s \<Rightarrow> map lower_char (strip s))"

definition is_security_failure :: "string option \<Rightarrow> bool" where
  "is_security_failure code =
     (let v = normalized code
      in v \<noteq> [] \<and> (v \<in> set security_codes \<or> ends_with v SECURITY_REFUSAL_SUFFIXES))"

definition is_redownload :: "string option \<Rightarrow> bool" where
  "is_redownload code =
     (let v = normalized code
      in ends_with v [''.digest_mismatch'', ''.archive_mismatch'']
         \<or> v \<in> {''digest_mismatch'', ''archive_mismatch''})"

section \<open>Errors\<close>

text \<open>One entry of a validation error's \<^verbatim>\<open>errors()\<close>: its type, its location's parts as text, its
  message when it has one.\<close>

record issue =
  issue_type :: string
  issue_loc :: "string list"
  issue_msg :: "string option"

record exn =
  exn_class :: string  \<comment> \<open>\<open>type(error).__name__\<close>\<close>
  exn_text :: string  \<comment> \<open>\<open>str(error)\<close>\<close>
  exn_issues :: "issue list"  \<comment> \<open>the issues of a validation error, empty for any other\<close>
  exn_disposition :: "disposition option"  \<comment> \<open>a declared \<open>disposition\<close> attribute\<close>
  exn_security :: "security_refusal_reason option option"  \<comment> \<open>a security refusal, its reason\<close>
  exn_unknown :: bool  \<comment> \<open>an unknown outcome\<close>
  exn_typed_wait :: "wait_reason option"  \<comment> \<open>a \<open>typed_reason\<close> attribute that is a wait reason\<close>
  exn_code :: "string option"  \<comment> \<open>a string \<open>code\<close> attribute\<close>
  exn_sqlalchemy :: bool
  exn_db_unreachable :: bool  \<comment> \<open>an operational error or a pool timeout\<close>
  exn_db_invalidated :: bool  \<comment> \<open>a driver error that invalidated its connection\<close>
  exn_db_contention :: bool  \<comment> \<open>a driver error for a held lock or a deadlock\<close>
  exn_http_status :: "int option"
  exn_transport :: bool
  exn_unsupported_protocol :: bool
  exn_stale_data :: bool
  exn_connection :: bool  \<comment> \<open>a connection, timeout or blocking error\<close>
  exn_os :: "int option option"  \<comment> \<open>an operating-system error, its errno\<close>

text \<open>An exception of none of the inspected classes.\<close>

definition plain_exn :: exn where
  "plain_exn =
     \<lparr>exn_class = ''Exception'', exn_text = [], exn_issues = [], exn_disposition = None, exn_security = None, exn_unknown = False, exn_typed_wait = None,
      exn_code = None,
      exn_sqlalchemy = False, exn_db_unreachable = False, exn_db_invalidated = False,
      exn_db_contention = False, exn_http_status = None, exn_transport = False,
      exn_unsupported_protocol = False, exn_stale_data = False, exn_connection = False,
      exn_os = None\<rparr>"

definition is_transient_database_error :: "exn \<Rightarrow> bool" where
  "is_transient_database_error e \<longleftrightarrow> exn_db_unreachable e \<or> exn_db_invalidated e"

definition own_code :: "exn \<Rightarrow> string option" where
  "own_code e =
     (case exn_security e of
        Some (Some r) \<Rightarrow> Some (security_refusal_reason_value r)
      | _ \<Rightarrow>
          (if exn_sqlalchemy e
           then (if is_transient_database_error e then Some ''controller.unavailable'' else None)
           else (case exn_code e of
                   Some c \<Rightarrow> (if c = [] then None else Some c)
                 | None \<Rightarrow> None)))"

text \<open>
  \<^verbatim>\<open>error_code\<close>: the loop collects the own codes of at most sixteen errors of the chain.
\<close>

definition error_code :: "exn list \<Rightarrow> string option" where
  "error_code chain =
     (let codes = map own_code (take 16 chain)
      in case find is_security_failure codes of Some c \<Rightarrow> c | None \<Rightarrow> hd codes)"

text \<open>The errno values of \<^verbatim>\<open>_TRANSIENT_ERRNOS\<close> on Linux.\<close>

definition transient_errnos :: "int list" where
  "transient_errnos = [11, 16, 122, 113, 4, 5, 100, 101, 12, 28, 116, 110]"

definition own_disposition :: "exn \<Rightarrow> disposition option" where
  "own_disposition e =
     (if exn_disposition e \<noteq> None then exn_disposition e
      else if is_security_failure (own_code e) \<or> exn_security e \<noteq> None then Some D_SECURITY
      else if exn_unknown e
      then Some (case exn_typed_wait e of
                   None \<Rightarrow> D_OBSERVE | Some w \<Rightarrow> wait_reason_disposition w)
      else case exn_http_status e of
        Some status \<Rightarrow> Some (http_status_disposition status)
      | None \<Rightarrow>
      (if exn_transport e then (if exn_unsupported_protocol e then None else Some D_WAIT)
       else if exn_stale_data e then Some D_WAIT
       else if exn_sqlalchemy e \<and> is_transient_database_error e then Some D_WAIT
       else if exn_connection e then Some D_WAIT
       else case exn_os e of
         Some (Some n) \<Rightarrow> (if n \<in> set transient_errnos then Some D_WAIT else None)
       | Some None \<Rightarrow> Some D_OBSERVE
       | None \<Rightarrow> None))"

text \<open>The first verdict of at most \<open>n\<close> errors of a chain; \<^verbatim>\<open>FAIL\<close> when none has one.\<close>

fun chain_disposition :: "nat \<Rightarrow> exn list \<Rightarrow> disposition" where
  "chain_disposition 0 chain = D_FAIL"
| "chain_disposition (Suc n) [] = D_FAIL"
| "chain_disposition (Suc n) (e # causes) =
     (case own_disposition e of
        Some verdict \<Rightarrow> verdict
      | None \<Rightarrow> chain_disposition n causes)"

datatype failure_cause =
    Cause_disposition disposition
  | Cause_kind agent_failure_kind
  | Cause_error "exn list"

definition disposition_of :: "failure_cause \<Rightarrow> disposition" where
  "disposition_of cause =
     (case cause of
        Cause_disposition d \<Rightarrow> d
      | Cause_kind k \<Rightarrow> failure_kind_disposition k
      | Cause_error chain \<Rightarrow> chain_disposition 16 chain)"

text \<open>The reason of the first error of at most \<open>n\<close> that names one.\<close>

fun chain_wait_reason :: "nat \<Rightarrow> exn list \<Rightarrow> wait_reason" where
  "chain_wait_reason 0 chain = W_OBSERVATION_UNAVAILABLE"
| "chain_wait_reason (Suc n) [] = W_OBSERVATION_UNAVAILABLE"
| "chain_wait_reason (Suc n) (e # causes) =
     (if exn_stale_data e \<or> exn_db_contention e then W_SCOPE_CHANGED
      else case exn_typed_wait e of
        Some w \<Rightarrow> w
      | None \<Rightarrow> chain_wait_reason n causes)"

definition wait_reason_of :: "exn list \<Rightarrow> wait_reason option" where
  "wait_reason_of chain =
     (if disposition_of (Cause_error chain) = D_WAIT
         \<or> disposition_of (Cause_error chain) = D_OBSERVE
      then Some (chain_wait_reason 16 chain) else None)"

definition is_definite :: "failure_cause \<Rightarrow> bool" where
  "is_definite cause \<longleftrightarrow> disposition_of cause = D_FAIL \<or> disposition_of cause = D_SECURITY"

text \<open>\<^verbatim>\<open>error_detail\<close>: a bounded text that names one failing field of a validation error.\<close>

definition issue_detail :: "issue list \<Rightarrow> string" where
  "issue_detail issues =
     (let first = (case find (\<lambda>i. issue_type i = ''value_error'') issues of
                     Some i \<Rightarrow> i | None \<Rightarrow> hd issues);
          location = str_or_else (Some (join ''.'' (issue_loc first))) ''<root>'';
          more = int (length issues) - 1
      in location @ '': '' @ opt_or (issue_msg first) ''invalid''
         @ (if more > 0 then '' (+'' @ show_int more @ '' more)'' else []))"

definition error_detail :: "nat \<Rightarrow> exn \<Rightarrow> string" where
  "error_detail limit e =
     take limit (exn_class e @ '': '' @
       (if exn_issues e \<noteq> [] then issue_detail (exn_issues e) else exn_text e))"

section \<open>What the classifier guarantees\<close>

lemma security_refusal_reasons_all [simp]: "r \<in> set security_refusal_reasons"
  by (cases r) (simp_all add: security_refusal_reasons_def)

lemma security_code_of_reason:
  "is_security_failure (Some (security_refusal_reason_value r))"
proof -
  have "list_all (\<lambda>r. normalized (Some (security_refusal_reason_value r))
          = security_refusal_reason_value r \<and> security_refusal_reason_value r \<noteq> [])
        security_refusal_reasons"
    by code_simp
  then have "normalized (Some (security_refusal_reason_value r)) = security_refusal_reason_value r"
    "security_refusal_reason_value r \<noteq> []"
    by (auto simp: list_all_iff)
  then show ?thesis by (simp add: is_security_failure_def security_codes_def)
qed

text \<open>The verdict of a chain is that of its first error with a verdict of its own.\<close>

lemma chain_disposition_skip:
  "\<forall>e \<in> set wrappers. own_disposition e = None \<Longrightarrow> length wrappers < n \<Longrightarrow>
     own_disposition e = Some verdict \<Longrightarrow>
     chain_disposition n (wrappers @ e # causes) = verdict"
proof (induction wrappers arbitrary: n)
  case Nil
  then show ?case by (cases n) simp_all
next
  case (Cons w ws)
  then show ?case by (cases n) simp_all
qed

lemma chain_disposition_none:
  "\<forall>e \<in> set (take n chain). own_disposition e = None \<Longrightarrow> chain_disposition n chain = D_FAIL"
  by (induction n chain rule: chain_disposition.induct) simp_all

lemma wait_reason_disposition_not_security:
  "wait_reason_disposition w \<noteq> D_SECURITY" "wait_reason_disposition w \<noteq> D_FAIL"
  using wait_reason_disposition_never_ends [of w] by auto

lemma own_disposition_security:
  "exn_disposition e = None \<Longrightarrow> own_disposition e = Some D_SECURITY \<longleftrightarrow>
     is_security_failure (own_code e) \<or> exn_security e \<noteq> None \<or>
     (\<not> exn_unknown e \<and> (exn_http_status e = Some 401 \<or> exn_http_status e = Some 403))"
  by (auto simp: own_disposition_def http_status_disposition_cases
        wait_reason_disposition_not_security split: option.splits)

lemma silent_wrapper:
  assumes "own_disposition e = None"
  shows "\<not> is_security_failure (own_code e)"
  using assms by (auto simp: own_disposition_def split: if_splits option.splits)

lemma find_security_code:
  assumes "\<forall>w \<in> set wrappers. own_disposition w = None" "is_security_failure (own_code e)"
  shows "find is_security_failure (map own_code (wrappers @ e # causes)) = Some (own_code e)"
  using assms by (induction wrappers) (auto dest: silent_wrapper)

text \<open>
  (C29) A security refusal survives wrapping: however many silent errors (up to fifteen) are
  raised around it, the chain is classified as a security refusal under the refusal's own code,
  it is definite and it never becomes a wait.
\<close>

theorem security_survives_wrapping:
  assumes "\<forall>w \<in> set wrappers. own_disposition w = None" "length wrappers < 16"
    and "exn_security e = Some (Some r)" "exn_disposition e = None"
  shows "disposition_of (Cause_error (wrappers @ e # causes)) = D_SECURITY \<and>
    error_code (wrappers @ e # causes) = Some (security_refusal_reason_value r) \<and>
    is_definite (Cause_error (wrappers @ e # causes)) \<and>
    wait_reason_of (wrappers @ e # causes) = None"
proof -
  have own: "own_disposition e = Some D_SECURITY" using assms(3,4) by (simp add: own_disposition_def)
  have code: "own_code e = Some (security_refusal_reason_value r)"
    using assms(3) by (simp add: own_code_def)
  have d: "disposition_of (Cause_error (wrappers @ e # causes)) = D_SECURITY"
    using chain_disposition_skip [OF assms(1,2) own] by (simp add: disposition_of_def)
  have "take 16 (wrappers @ e # causes) = wrappers @ e # take (15 - length wrappers) causes"
    using assms(2) by (simp add: take_Cons' diff_diff_eq)
  then have "error_code (wrappers @ e # causes) = Some (security_refusal_reason_value r)"
    using find_security_code [OF assms(1), of e "take (15 - length wrappers) causes"]
      security_code_of_reason [of r] code by (simp add: error_code_def)
  with d show ?thesis by (simp add: is_definite_def wait_reason_of_def)
qed

theorem security_survives_wrapping_witness:
  "error_code [plain_exn, plain_exn\<lparr>exn_security := Some (Some Sec_AGENT_IDENTITY_MISMATCH)\<rparr>, plain_exn]
     = Some (security_refusal_reason_value Sec_AGENT_IDENTITY_MISMATCH)"
  using security_survives_wrapping [of "[plain_exn]"
      "plain_exn\<lparr>exn_security := Some (Some Sec_AGENT_IDENTITY_MISMATCH)\<rparr>" Sec_AGENT_IDENTITY_MISMATCH "[plain_exn]"]
  by (simp add: plain_exn_def own_disposition_def own_code_def is_security_failure_def normalized_def strip_def)

end
