(* ===== verification/Lifecycle_Types.thy ===== *)
theory Lifecycle_Types
  imports Recovery_Policy Failure_Classification
begin

text \<open>
  The value types of the shared lifecycle core
  (\<^verbatim>\<open>control/src/vonk_control/lifecycle/types.py\<close> and \<^verbatim>\<open>adapter.py\<close>): the kind-independent row of a
  lifecycle subject, the events that happen to it, the commands a decision names, and what
  the pure transition reads of a kind's adapter. Times of a row are timezone-aware, as the
  callers pass them.
\<close>

section \<open>Rows\<close>

record lifecycle =
  lc_id :: string
  lc_kind :: string
  lc_state :: lifecycle_state
  lc_attempt :: int
  lc_fence :: "string option"
  lc_lease_deadline :: "instant option"
  lc_next_action_at :: "instant option"
  lc_recovery_deadline :: "instant option"
  lc_retry_count :: int
  lc_observe_count :: int
  lc_intent_ordinal :: "int option"
  lc_cancel_requested_at :: "instant option"
  lc_cancel_request_key :: "string option"
  lc_effect :: lifecycle_effect
  lc_reason :: "string option"
  lc_owner_id :: "string option"

text \<open>\<^verbatim>\<open>Lifecycle(id, kind)\<close> with every other field at its default.\<close>

definition new_lifecycle :: "string \<Rightarrow> string \<Rightarrow> lifecycle" where
  "new_lifecycle ident kind =
     \<lparr>lc_id = ident, lc_kind = kind, lc_state = S_QUEUED, lc_attempt = 0, lc_fence = None,
      lc_lease_deadline = None, lc_next_action_at = None, lc_recovery_deadline = None,
      lc_retry_count = 0, lc_observe_count = 0, lc_intent_ordinal = None,
      lc_cancel_requested_at = None, lc_cancel_request_key = None, lc_effect = E_NONE,
      lc_reason = None, lc_owner_id = None\<rparr>"

definition terminal :: "lifecycle \<Rightarrow> bool" where
  "terminal row \<longleftrightarrow> terminal_state (lc_state row)"

definition cancel_requested :: "lifecycle \<Rightarrow> bool" where
  "cancel_requested row \<longleftrightarrow> lc_cancel_requested_at row \<noteq> None"

section \<open>Events\<close>

record report =
  rp_outcome :: outcome_kind
  rp_fence :: "string option"
  rp_retryable :: bool
  rp_effect :: "lifecycle_effect option"
  rp_reason :: "string option"
  rp_retry_after :: "instant option"
  rp_consumes_retry :: bool

text \<open>\<^verbatim>\<open>Reported(outcome)\<close> with every other field at its default.\<close>

definition plain_report :: "outcome_kind \<Rightarrow> report" where
  "plain_report outcome =
     \<lparr>rp_outcome = outcome, rp_fence = None, rp_retryable = False, rp_effect = None,
      rp_reason = None, rp_retry_after = None, rp_consumes_retry = True\<rparr>"

text \<open>
  \<^verbatim>\<open>Reported.failed\<close>: the retry fields follow from the disposition of the cause. The detail of
  an exception is that of the raised error itself, the head of its chain.
\<close>

definition failed_report ::
  "failure_cause \<Rightarrow> string option \<Rightarrow> lifecycle_effect option \<Rightarrow> string option
     \<Rightarrow> instant option \<Rightarrow> report" where
  "failed_report cause fence effect reason retry_after =
     (let verdict = disposition_of cause;
          why = (case (reason, cause) of
                   (None, Cause_error (e # _)) \<Rightarrow> Some (error_detail 400 e)
                 | _ \<Rightarrow> reason)
      in \<lparr>rp_outcome = O_FAILED, rp_fence = fence,
          rp_retryable = (verdict = D_WAIT \<or> verdict = D_OBSERVE), rp_effect = effect,
          rp_reason = why, rp_retry_after = retry_after,
          rp_consumes_retry = (verdict \<noteq> D_WAIT)\<rparr>)"

datatype event =
    Submitted
  | Claimed (claimed_attempt: int) (claimed_fence: string) (claimed_lease: instant)
  | Heartbeat (heartbeat_fence: "string option") (heartbeat_lease: instant)
  | Reported report
  | LeaseLapsed "string option"
  | CancelRequested (request_key: "string option") (cancel_reason: "string option")
  | Observed (observed_effect: lifecycle_effect) (observed_reason: "string option")
  | OperatorAction string "string option"
  | Tick

section \<open>Decisions\<close>

datatype command =
    Execute
  | Observe
  | Stop
  | RecordResidue string

record decision =
  d_row :: lifecycle
  d_commands :: "command list"

text \<open>\<^verbatim>\<open>Decision(row)\<close> and \<^verbatim>\<open>Decision(row, commands)\<close>.\<close>

abbreviation decide :: "lifecycle \<Rightarrow> command list \<Rightarrow> decision" where
  "decide row commands \<equiv> \<lparr>d_row = row, d_commands = commands\<rparr>"

section \<open>What the transition reads of an adapter\<close>

text \<open>
  The read-only part of \<^verbatim>\<open>KindAdapter\<close>. \<^verbatim>\<open>recovery_deadline\<close> is looked up with
  \<^verbatim>\<open>getattr(adapter, ..., None)\<close>; an adapter without it answers \<open>None\<close> for every row.
\<close>

record adapter =
  ad_irreversible :: "lifecycle \<Rightarrow> bool"
  ad_retry_not_before :: "lifecycle \<Rightarrow> instant \<Rightarrow> instant option"
  ad_recovery_deadline :: "lifecycle \<Rightarrow> instant option"
  ad_actions :: "lifecycle \<Rightarrow> string list"

text \<open>A report of a cause follows its disposition and nothing else.\<close>

lemma failed_report_retryable:
  "rp_retryable (failed_report cause fence effect reason after) \<longleftrightarrow> \<not> is_definite cause"
  by (cases "disposition_of cause") (simp_all add: failed_report_def is_definite_def Let_def)

lemma failed_report_simps [simp]:
  "rp_outcome (failed_report cause fence effect reason after) = O_FAILED"
  "rp_fence (failed_report cause fence effect reason after) = fence"
  "rp_effect (failed_report cause fence effect reason after) = effect"
  "rp_retry_after (failed_report cause fence effect reason after) = after"
  "rp_consumes_retry (failed_report cause fence effect reason after)
     \<longleftrightarrow> disposition_of cause \<noteq> D_WAIT"
  by (simp_all add: failed_report_def Let_def)

end
