(* ===== verification/Lifecycle_Core.thy ===== *)
theory Lifecycle_Core
  imports Lifecycle_Types
begin

text \<open>
  The one transition function of the lifecycle core
  (\<^verbatim>\<open>control/src/vonk_control/lifecycle/core.py\<close>), builder by builder and handler by handler.
  \<^verbatim>\<open>dataclasses.replace\<close> is a record update. The only call of the core that can raise is the
  retry clock, which refuses a row without an id; so every handler that schedules returns a
  \<open>result\<close>.
\<close>

definition OBSERVE_BUDGET :: int where
  "OBSERVE_BUDGET = 8"

definition LOST_OBSERVATION_BOUND :: int where
  "LOST_OBSERVATION_BOUND = 6"

definition STOP_BUDGET :: int where
  "STOP_BUDGET = 6"

lemmas budgets = OBSERVE_BUDGET_def LOST_OBSERVATION_BOUND_def STOP_BUDGET_def

abbreviation action :: "operator_action_name \<Rightarrow> string" where
  "action \<equiv> operator_action_name_value"

definition RESUME_ACTIONS :: "string list" where
  "RESUME_ACTIONS = [action A_RESUME, action A_RETRY]"

section \<open>Predicates\<close>

fun stale :: "lifecycle \<Rightarrow> event \<Rightarrow> bool" where
  "stale row (Reported r) \<longleftrightarrow>
     rp_fence r \<noteq> None \<and> lc_fence row \<noteq> None \<and> rp_fence r \<noteq> lc_fence row"
| "stale row (Heartbeat fence lease) \<longleftrightarrow>
     fence \<noteq> None \<and> lc_fence row \<noteq> None \<and> fence \<noteq> lc_fence row"
| "stale row _ \<longleftrightarrow> False"

definition never_executed :: "lifecycle \<Rightarrow> bool" where
  "never_executed row \<longleftrightarrow> lc_attempt row = 0 \<or> lc_effect row = E_NONE"

definition blind_retry_is_safe ::
  "lifecycle \<Rightarrow> adapter \<Rightarrow> lifecycle_effect option \<Rightarrow> bool" where
  "blind_retry_is_safe row ad effect \<longleftrightarrow>
     lc_attempt row = 0 \<or> opt_or effect (lc_effect row) = E_NONE \<or> \<not> ad_irreversible ad row"

section \<open>Builders\<close>

definition max_opt :: "instant option \<Rightarrow> instant option \<Rightarrow> instant option" where
  "max_opt not_before retry_after =
     (case retry_after of
        None \<Rightarrow> not_before
      | Some r \<Rightarrow> (case not_before of None \<Rightarrow> Some r | Some n \<Rightarrow> Some (max n r)))"

text \<open>\<^verbatim>\<open>row.recovery_deadline or deadline_reader(row)\<close>; without an adapter, the row's own.\<close>

definition deadline_of :: "lifecycle \<Rightarrow> adapter option \<Rightarrow> instant option" where
  "deadline_of row ad =
     (case lc_recovery_deadline row of
        Some d \<Rightarrow> Some d
      | None \<Rightarrow> (case ad of None \<Rightarrow> None | Some a \<Rightarrow> ad_recovery_deadline a row))"

definition due ::
  "(string \<Rightarrow> string) \<Rightarrow> lifecycle \<Rightarrow> int \<Rightarrow> instant \<Rightarrow> adapter option \<Rightarrow> instant option
     \<Rightarrow> instant result" where
  "due sha256 row count now ad retry_after =
     (let not_before = max_opt (case ad of None \<Rightarrow> None | Some a \<Rightarrow> ad_retry_not_before a row now)
                         retry_after
      in res_map
           (\<lambda>scheduled. case deadline_of row ad of
                          None \<Rightarrow> scheduled | Some d \<Rightarrow> min scheduled d)
           (standing_attempt sha256 RECOVERY (lc_id row) (max count 1) now not_before))"

definition retry ::
  "(string \<Rightarrow> string) \<Rightarrow> lifecycle \<Rightarrow> instant \<Rightarrow> adapter \<Rightarrow> lifecycle_effect \<Rightarrow> string option
     \<Rightarrow> instant option \<Rightarrow> bool \<Rightarrow> decision result" where
  "retry sha256 row now ad effect reason retry_after consumes_retry =
     (let count = lc_retry_count row + of_flag consumes_retry
      in res_map
           (\<lambda>at. decide (row\<lparr>lc_state := S_BACKOFF, lc_retry_count := count,
                  lc_observe_count := 0, lc_next_action_at := Some at,
                  lc_lease_deadline := None, lc_effect := effect,
                  lc_reason := str_or reason (lc_reason row)\<rparr>) [])
           (due sha256 row (if consumes_retry then count else WAIT_STEP) now (Some ad)
              retry_after))"

definition observe ::
  "(string \<Rightarrow> string) \<Rightarrow> lifecycle \<Rightarrow> instant \<Rightarrow> string option \<Rightarrow> decision result" where
  "observe sha256 row now reason =
     (let count = lc_observe_count row + of_flag (lc_observe_count row < OBSERVE_BUDGET)
      in res_map
           (\<lambda>at. decide (row\<lparr>lc_state := S_OBSERVING, lc_observe_count := count,
                  lc_next_action_at := Some at, lc_lease_deadline := None,
                  lc_effect := (if lc_effect row = E_NONE then E_UNKNOWN else lc_effect row),
                  lc_reason := str_or reason (lc_reason row)\<rparr>) [Observe])
           (due sha256 row count now None None))"

definition uncertain ::
  "(string \<Rightarrow> string) \<Rightarrow> lifecycle \<Rightarrow> adapter \<Rightarrow> instant \<Rightarrow> lifecycle_effect option
     \<Rightarrow> string option \<Rightarrow> instant option \<Rightarrow> bool \<Rightarrow> decision result" where
  "uncertain sha256 row ad now effect reason retry_after consumes_retry =
     (if (case lc_recovery_deadline row of None \<Rightarrow> False | Some d \<Rightarrow> d \<le> now)
      then observe sha256 row now reason
      else if blind_retry_is_safe row ad effect
      then retry sha256 row now ad (opt_or effect (lc_effect row)) reason retry_after
             consumes_retry
      else observe sha256 row now reason)"

definition lost ::
  "(string \<Rightarrow> string) \<Rightarrow> lifecycle \<Rightarrow> instant \<Rightarrow> string option \<Rightarrow> command list \<Rightarrow> bool
     \<Rightarrow> decision result" where
  "lost sha256 row now reason commands was_observed =
     (let looked = max (lc_observe_count row - OBSERVE_BUDGET) 0 + of_flag was_observed
      in if looked \<ge> LOST_OBSERVATION_BOUND
         then (let why = wait_reason_value W_RUNTIME_EFFECT_UNCONFIRMED
               in Inr (decide (row\<lparr>lc_state := S_FAILED,
                        lc_observe_count := OBSERVE_BUDGET + looked, lc_effect := E_UNKNOWN,
                        lc_next_action_at := None, lc_lease_deadline := None,
                        lc_reason := Some why\<rparr>) [RecordResidue why]))
         else res_map
                (\<lambda>at. decide (row\<lparr>lc_state := S_OBSERVING,
                       lc_observe_count := OBSERVE_BUDGET + looked,
                       lc_next_action_at := Some at, lc_lease_deadline := None,
                       lc_effect := E_UNKNOWN, lc_reason := str_or reason (lc_reason row)\<rparr>)
                     commands)
                (standing_attempt sha256 RECOVERY (lc_id row) OBSERVE_BUDGET now None))"

definition unknown_after_observation ::
  "(string \<Rightarrow> string) \<Rightarrow> lifecycle \<Rightarrow> adapter \<Rightarrow> instant \<Rightarrow> string option \<Rightarrow> command list
     \<Rightarrow> decision result" where
  "unknown_after_observation sha256 row ad now reason commands =
     (if \<not> ad_irreversible ad row \<or> blind_retry_is_safe row ad None
      then retry sha256 row now ad (lc_effect row) reason None True
      else if lc_observe_count row \<ge> OBSERVE_BUDGET
      then lost sha256 row now reason commands False
      else res_map
             (\<lambda>at. decide (row\<lparr>lc_state := S_OBSERVING, lc_next_action_at := Some at,
                    lc_reason := str_or reason (lc_reason row)\<rparr>) [])
             (due sha256 row (lc_observe_count row) now None None))"

section \<open>Cancel\<close>

definition with_cancel_flag :: "lifecycle \<Rightarrow> instant \<Rightarrow> string option \<Rightarrow> lifecycle" where
  "with_cancel_flag row now key =
     (if cancel_requested row then row
      else row\<lparr>lc_cancel_requested_at := Some now, lc_cancel_request_key := key\<rparr>)"

definition advance_cancel ::
  "(string \<Rightarrow> string) \<Rightarrow> lifecycle \<Rightarrow> instant \<Rightarrow> lifecycle_effect option \<Rightarrow> string option
     \<Rightarrow> bool \<Rightarrow> decision result" where
  "advance_cancel sha256 row now seen reason issue_stop =
     (if seen = Some E_STOPPED \<or> seen = Some E_NONE \<or> (seen = None \<and> never_executed row)
      then Inr (decide (row\<lparr>lc_state := S_CANCELLED, lc_effect := opt_or seen E_NONE,
                  lc_next_action_at := None, lc_lease_deadline := None,
                  lc_reason := Some (str_or_else (str_or reason (lc_reason row))
                                 (failure_code_value F_OPERATION_CANCELLED))\<rparr>) [])
      else if lc_observe_count row \<ge> STOP_BUDGET
      then (let why = wait_reason_value W_STOP_UNCONFIRMED
            in Inr (decide (row\<lparr>lc_state := S_CANCELLED, lc_effect := E_UNKNOWN,
                     lc_next_action_at := None, lc_lease_deadline := None,
                     lc_reason := Some why\<rparr>) [RecordResidue why]))
      else (let count = (if issue_stop then lc_observe_count row + 1 else lc_observe_count row)
            in res_map
                 (\<lambda>at. decide (row\<lparr>lc_state := S_OBSERVING, lc_observe_count := count,
                        lc_next_action_at := Some at, lc_lease_deadline := None,
                        lc_effect := opt_or seen E_UNKNOWN,
                        lc_reason := str_or reason (lc_reason row)\<rparr>)
                      (if issue_stop then [Stop] else []))
                 (due sha256 row count now None None)))"

definition cancel ::
  "(string \<Rightarrow> string) \<Rightarrow> lifecycle \<Rightarrow> string option \<Rightarrow> string option \<Rightarrow> instant
     \<Rightarrow> decision result" where
  "cancel sha256 row key reason now =
     (if cancel_requested row \<and> lc_state row = S_OBSERVING then Inr (decide row [])
      else advance_cancel sha256 (with_cancel_flag row now key) now None reason True)"

section \<open>Event handlers\<close>

definition submitted :: "lifecycle \<Rightarrow> decision" where
  "submitted row =
     (if lc_state row = S_QUEUED \<and> lc_attempt row = 0
      then decide (row\<lparr>lc_effect := E_NONE\<rparr>) [] else decide row [])"

definition claimed :: "lifecycle \<Rightarrow> int \<Rightarrow> string \<Rightarrow> instant \<Rightarrow> instant \<Rightarrow> decision" where
  "claimed row attempt fence lease now =
     (let claimable = (lc_state row = S_QUEUED \<or>
            (lc_state row = S_BACKOFF \<and>
             (case lc_next_action_at row of None \<Rightarrow> True | Some t \<Rightarrow> t \<le> now)))
      in if \<not> claimable \<or> cancel_requested row \<or> attempt \<le> lc_attempt row
         then decide row []
         else decide (row\<lparr>lc_state := S_RUNNING, lc_attempt := attempt,
                lc_fence := Some fence, lc_lease_deadline := Some lease,
                lc_next_action_at := Some lease, lc_effect := E_ISSUED,
                lc_observe_count := 0\<rparr>) [])"

definition heartbeat :: "lifecycle \<Rightarrow> instant \<Rightarrow> decision" where
  "heartbeat row lease =
     (if lc_state row \<noteq> S_RUNNING \<or>
         (case lc_lease_deadline row of None \<Rightarrow> False | Some l \<Rightarrow> lease \<le> l)
      then decide row []
      else decide (row\<lparr>lc_lease_deadline := Some lease, lc_next_action_at := Some lease\<rparr>) [])"

definition end_row ::
  "lifecycle \<Rightarrow> lifecycle_state \<Rightarrow> lifecycle_effect \<Rightarrow> report \<Rightarrow> decision" where
  "end_row row state effect r =
     decide (row\<lparr>lc_state := state, lc_effect := effect, lc_next_action_at := None,
       lc_lease_deadline := None, lc_reason := str_or (rp_reason r) (lc_reason row)\<rparr>) []"

definition reported ::
  "(string \<Rightarrow> string) \<Rightarrow> lifecycle \<Rightarrow> report \<Rightarrow> adapter \<Rightarrow> instant \<Rightarrow> decision result" where
  "reported sha256 row r ad now =
     (if rp_outcome r = O_DONE
      then Inr (end_row row S_SUCCEEDED (opt_or (rp_effect r) E_ESTABLISHED) r)
      else if rp_outcome r = O_CANCELLED
      then Inr (end_row row S_CANCELLED (opt_or (rp_effect r) E_STOPPED) r)
      else if rp_outcome r = O_FAILED \<and> \<not> rp_retryable r
      then Inr (end_row row S_FAILED (opt_or (rp_effect r) (lc_effect row)) r)
      else if cancel_requested row
      then (let known = (if rp_effect r = Some E_STOPPED \<or> rp_effect r = Some E_NONE
                         then rp_effect r else None)
            in advance_cancel sha256 row now known (rp_reason r) (lc_state row \<noteq> S_OBSERVING))
      else uncertain sha256 row ad now (rp_effect r) (rp_reason r) (rp_retry_after r)
             (rp_consumes_retry r))"

definition lapsed ::
  "(string \<Rightarrow> string) \<Rightarrow> lifecycle \<Rightarrow> adapter \<Rightarrow> instant \<Rightarrow> string option \<Rightarrow> decision result" where
  "lapsed sha256 row ad now reason =
     (if lc_state row \<noteq> S_RUNNING then Inr (decide row [])
      else if cancel_requested row then advance_cancel sha256 row now None reason True
      else uncertain sha256 row ad now None
             (Some (str_or_else reason (wait_reason_value W_LEASE_LAPSED))) None True)"

definition observed ::
  "(string \<Rightarrow> string) \<Rightarrow> lifecycle \<Rightarrow> lifecycle_effect \<Rightarrow> string option \<Rightarrow> adapter \<Rightarrow> instant
     \<Rightarrow> decision result" where
  "observed sha256 row effect reason ad now =
     (if cancel_requested row
      then advance_cancel sha256 row now (Some effect) reason False
      else if lc_state row \<noteq> S_OBSERVING \<and> lc_state row \<noteq> S_NEEDS_OPERATOR
      then Inr (decide row [])
      else if (case deadline_of row (Some ad) of None \<Rightarrow> False | Some d \<Rightarrow> d \<le> now)
              \<and> effect \<noteq> E_ESTABLISHED
      then (if effect = E_UNKNOWN \<and> \<not> blind_retry_is_safe row ad None
            then lost sha256 row now reason [] True
            else (let why = str_or_else (str_or reason (lc_reason row))
                              (wait_reason_value W_RUNTIME_EFFECT_UNCONFIRMED)
                  in Inr (decide (row\<lparr>lc_state := S_FAILED, lc_effect := effect,
                           lc_next_action_at := None, lc_lease_deadline := None,
                           lc_reason := Some why\<rparr>)
                         (if effect = E_UNKNOWN then [RecordResidue why] else []))))
      else if effect = E_ESTABLISHED
      then Inr (decide (row\<lparr>lc_state := S_SUCCEEDED, lc_effect := E_ESTABLISHED,
                  lc_next_action_at := None, lc_reason := str_or reason (lc_reason row)\<rparr>) [])
      else if effect = E_STOPPED \<and> \<not> blind_retry_is_safe row ad None
      then Inr (decide (row\<lparr>lc_state := S_FAILED, lc_effect := E_STOPPED,
                  lc_next_action_at := None, lc_lease_deadline := None,
                  lc_reason := str_or reason (lc_reason row)\<rparr>) [])
      else if effect = E_NONE \<or> effect = E_STOPPED
      then retry sha256 row now ad E_NONE reason None True
      else unknown_after_observation sha256 row ad now reason [])"

definition operator ::
  "(string \<Rightarrow> string) \<Rightarrow> lifecycle \<Rightarrow> string \<Rightarrow> string option \<Rightarrow> adapter \<Rightarrow> instant
     \<Rightarrow> decision result" where
  "operator sha256 row name reason ad now =
     (if name \<notin> set (ad_actions ad row) then Inr (decide row [])
      else if name = action A_STOP
      then (if cancel_requested row then Inr (decide row [])
            else advance_cancel sha256 (with_cancel_flag row now None) now None
                   (Some (str_or_else reason (action A_STOP))) True)
      else if lc_state row \<noteq> S_NEEDS_OPERATOR \<and> lc_state row \<noteq> S_OBSERVING
      then Inr (decide row [])
      else if name \<in> set RESUME_ACTIONS
      then Inr (decide (row\<lparr>lc_state := S_QUEUED, lc_retry_count := 0, lc_observe_count := 0,
                  lc_next_action_at := None,
                  lc_reason := Some (str_or_else reason (action A_RESUME))\<rparr>) [])
      else if name = action A_RETIRE
      then Inr (decide (row\<lparr>lc_state := S_FAILED, lc_effect := E_UNKNOWN,
                  lc_next_action_at := None,
                  lc_reason := Some (str_or_else reason (action A_RETIRE))\<rparr>) [])
      else Inr (decide row []))"

section \<open>Tick\<close>

definition reevaluate_parked ::
  "(string \<Rightarrow> string) \<Rightarrow> lifecycle \<Rightarrow> adapter \<Rightarrow> instant \<Rightarrow> decision result" where
  "reevaluate_parked sha256 row ad now =
     (if lc_effect row = E_ESTABLISHED
      then observed sha256 (row\<lparr>lc_state := S_OBSERVING\<rparr>) E_ESTABLISHED None ad now
      else if lc_effect row = E_STOPPED \<and> \<not> ad_irreversible ad row
      then retry sha256 row now ad E_NONE (lc_reason row) None True
      else if blind_retry_is_safe row ad None
      then retry sha256 row now ad (lc_effect row) (lc_reason row) None True
      else if lc_observe_count row \<ge> OBSERVE_BUDGET
      then lost sha256 row now (lc_reason row) [Observe] False
      else observe sha256 row now (lc_reason row))"

definition tick ::
  "(string \<Rightarrow> string) \<Rightarrow> lifecycle \<Rightarrow> adapter \<Rightarrow> instant \<Rightarrow> decision result" where
  "tick sha256 row ad now =
     (if cancel_requested row
      then (if (case lc_next_action_at row of None \<Rightarrow> False | Some t \<Rightarrow> now < t)
            then Inr (decide row [])
            else advance_cancel sha256 row now None None True)
      else if (case lc_next_action_at row of None \<Rightarrow> False | Some t \<Rightarrow> now < t)
      then Inr (decide row [])
      else if (case lc_recovery_deadline row of None \<Rightarrow> False | Some d \<Rightarrow> d \<le> now)
              \<and> lc_state row \<noteq> S_RUNNING
      then observe sha256 row now (lc_reason row)
      else if lc_state row = S_QUEUED \<or> lc_state row = S_BACKOFF
      then Inr (decide (row\<lparr>lc_state := S_QUEUED, lc_next_action_at := None\<rparr>) [Execute])
      else if lc_state row = S_RUNNING
      then (case lc_lease_deadline row of
              Some l \<Rightarrow> (if now < l then Inr (decide (row\<lparr>lc_next_action_at := Some l\<rparr>) [])
                         else lapsed sha256 row ad now None)
            | None \<Rightarrow> lapsed sha256 row ad now None)
      else if lc_state row = S_OBSERVING
      then (if lc_observe_count row \<ge> OBSERVE_BUDGET
            then unknown_after_observation sha256 row ad now None [Observe]
            else (let count = lc_observe_count row + 1
                  in res_map
                       (\<lambda>at. decide (row\<lparr>lc_observe_count := count,
                              lc_next_action_at := Some at\<rparr>) [Observe])
                       (due sha256 row count now None None)))
      else if lc_state row = S_NEEDS_OPERATOR
      then reevaluate_parked sha256 row ad now
      else Inr (decide row []))"

section \<open>The transition\<close>

text \<open>The answer past the request's own recovery deadline.\<close>

definition past_deadline ::
  "(string \<Rightarrow> string) \<Rightarrow> lifecycle \<Rightarrow> event \<Rightarrow> adapter \<Rightarrow> instant \<Rightarrow> decision result" where
  "past_deadline sha256 row ev ad now =
     (case ev of
        Observed effect reason \<Rightarrow>
          (if effect = E_UNKNOWN \<and> \<not> blind_retry_is_safe row ad None
           then lost sha256 row now reason [] True
           else (let why = str_or reason (lc_reason row)
                 in Inr (decide (row\<lparr>lc_state := (if effect = E_ESTABLISHED then S_SUCCEEDED
                                                   else S_FAILED),
                          lc_effect := effect, lc_next_action_at := None,
                          lc_lease_deadline := None, lc_reason := why\<rparr>)
                        (if effect = E_UNKNOWN
                         then [RecordResidue (str_or_else why
                                 (wait_reason_value W_RUNTIME_EFFECT_UNCONFIRMED))]
                         else []))))
      | _ \<Rightarrow>
          Inr (decide (row\<lparr>lc_state := S_OBSERVING, lc_next_action_at := Some now,
                 lc_lease_deadline := None,
                 lc_observe_count := lc_observe_count row
                   + of_flag (lc_observe_count row < OBSERVE_BUDGET),
                 lc_effect := E_UNKNOWN\<rparr>) [Observe]))"

definition expired :: "lifecycle \<Rightarrow> event \<Rightarrow> adapter \<Rightarrow> instant \<Rightarrow> bool" where
  "expired row ev ad now \<longleftrightarrow>
     (case ad_recovery_deadline ad row of None \<Rightarrow> False | Some d \<Rightarrow> d \<le> now)
     \<and> \<not> cancel_requested row \<and> (case ev of CancelRequested _ _ \<Rightarrow> False | _ \<Rightarrow> True)"

definition dispatch ::
  "(string \<Rightarrow> string) \<Rightarrow> lifecycle \<Rightarrow> event \<Rightarrow> adapter \<Rightarrow> instant \<Rightarrow> decision result" where
  "dispatch sha256 row ev ad now =
     (case ev of
        CancelRequested key reason \<Rightarrow> cancel sha256 row key reason now
      | Submitted \<Rightarrow> Inr (submitted row)
      | Claimed attempt fence lease \<Rightarrow> Inr (claimed row attempt fence lease now)
      | Heartbeat fence lease \<Rightarrow> Inr (heartbeat row lease)
      | Reported r \<Rightarrow> reported sha256 row r ad now
      | LeaseLapsed reason \<Rightarrow> lapsed sha256 row ad now reason
      | Observed effect reason \<Rightarrow> observed sha256 row effect reason ad now
      | OperatorAction name reason \<Rightarrow> operator sha256 row name reason ad now
      | Tick \<Rightarrow> tick sha256 row ad now)"

definition transition ::
  "(string \<Rightarrow> string) \<Rightarrow> lifecycle \<Rightarrow> event \<Rightarrow> adapter \<Rightarrow> instant \<Rightarrow> decision result" where
  "transition sha256 row ev ad now =
     (if terminal row then Inr (decide row [])
      else if stale row ev then Inr (decide row [])
      else if expired row ev ad now then past_deadline sha256 row ev ad now
      else dispatch sha256 row ev ad now)"

end
