(* ===== verification/Lifecycle_Moves.thy ===== *)
theory Lifecycle_Moves
  imports Lifecycle_Core
begin

text \<open>
  What one step of the lifecycle core may do to a row, as a relation with one rule per kind
  of outcome: the abstract specification of \<^verbatim>\<open>transition\<close>. The rules carry the guards that the
  seven rules of \<^verbatim>\<open>core.py\<close> rest on and leave open what they do not depend on (the exact due
  time, the text of a reason). \<open>transition_moves\<close> is the refinement.
\<close>

section \<open>The clock of the core\<close>

lemma due_defined:
  assumes "lc_id row \<noteq> []"
  obtains t where "due sha256 row count now ad after = Inr t"
  using recovery.answers [OF assms, of "max count 1"]
  by (auto simp: due_def Let_def split: option.splits) (meson res_map_Inr max.cobounded2)+

lemma due_Inl: "due sha256 row count now ad after = Inl e \<Longrightarrow> lc_id row = [] \<and> e = ValueError"
proof -
  assume e: "due sha256 row count now ad after = Inl e"
  have "lc_id row = []"
  proof (rule ccontr)
    assume "lc_id row \<noteq> []"
    then obtain t where "due sha256 row count now ad after = Inr t" by (rule due_defined)
    with e show False by simp
  qed
  with e show ?thesis by (auto simp: due_def Let_def recovery.refuses)
qed

text \<open>A due time is in the future or is the deadline itself.\<close>

lemma due_bounds:
  assumes "due sha256 row count now ad after = Inr t"
  shows "now + seconds 1 \<le> t \<or> deadline_of row ad = Some t"
  using assms by (auto simp: due_def Let_def min_def split: option.splits dest: recovery.never_early)

lemma due_without_floor:
  assumes "due sha256 row count now None None = Inr t"
  shows "t \<le> now + seconds 60"
proof -
  obtain x where "standing_attempt sha256 RECOVERY (lc_id row) (max count 1) now None = Inr x"
    "t \<le> x"
    using assms by (auto simp: due_def Let_def max_opt_def split: option.splits)
  with recovery.prompt show ?thesis by fastforce
qed

section \<open>Moves\<close>

definition timely :: "lifecycle \<Rightarrow> adapter \<Rightarrow> instant \<Rightarrow> instant \<Rightarrow> bool" where
  "timely row ad now t \<longleftrightarrow> now + seconds 1 \<le> t \<or> deadline_of row (Some ad) = Some t"

text \<open>The ends a definite report names.\<close>

definition report_end :: "lifecycle \<Rightarrow> report \<Rightarrow> (lifecycle_state \<times> lifecycle_effect) option" where
  "report_end row r =
     (case rp_outcome r of
        O_DONE \<Rightarrow> Some (S_SUCCEEDED, opt_or (rp_effect r) E_ESTABLISHED)
      | O_CANCELLED \<Rightarrow> Some (S_CANCELLED, opt_or (rp_effect r) E_STOPPED)
      | O_FAILED \<Rightarrow> (if rp_retryable r then None
                      else Some (S_FAILED, opt_or (rp_effect r) (lc_effect row)))
      | O_UNKNOWN \<Rightarrow> None)"

text \<open>
  The row a cancel drives: the row itself once it is flagged, or the row flagged by the event
  that asks for the cancel.
\<close>

definition cancelling :: "adapter \<Rightarrow> instant \<Rightarrow> lifecycle \<Rightarrow> event \<Rightarrow> lifecycle \<Rightarrow> bool" where
  "cancelling ad now row ev flagged \<longleftrightarrow>
     (cancel_requested row \<and> flagged = row) \<or>
     (\<exists>key reason. ev = CancelRequested key reason \<and> flagged = with_cancel_flag row now key) \<or>
     (\<exists>reason. ev = OperatorAction (action A_STOP) reason \<and> action A_STOP \<in> set (ad_actions ad row)
        \<and> flagged = with_cancel_flag row now None)"

text \<open>The event proves that the effect is gone.\<close>

definition proves :: "lifecycle \<Rightarrow> event \<Rightarrow> lifecycle_effect \<Rightarrow> bool" where
  "proves row ev effect \<longleftrightarrow>
     (effect = E_STOPPED \<or> effect = E_NONE) \<and>
     ((\<exists>reason. ev = Observed effect reason) \<or>
      (\<exists>r. ev = Reported r \<and> rp_effect r = Some effect) \<or>
      (never_executed row \<and> effect = E_NONE))"

inductive moves ::
  "adapter \<Rightarrow> instant \<Rightarrow> lifecycle \<Rightarrow> event \<Rightarrow> lifecycle \<Rightarrow> command list \<Rightarrow> bool"
  for ad now row ev where
  ignores: "moves ad now row ev row []"
| submits:
    "ev = Submitted \<Longrightarrow> lc_attempt row = 0 \<Longrightarrow>
     moves ad now row ev (row\<lparr>lc_effect := E_NONE\<rparr>) []"
| claims:
    "ev = Claimed a f l \<Longrightarrow> lc_state row = S_QUEUED \<or> lc_state row = S_BACKOFF \<Longrightarrow>
     \<not> cancel_requested row \<Longrightarrow> lc_attempt row < a \<Longrightarrow>
     moves ad now row ev
       (row\<lparr>lc_state := S_RUNNING, lc_attempt := a, lc_fence := Some f,
            lc_lease_deadline := Some l, lc_next_action_at := Some l, lc_effect := E_ISSUED,
            lc_observe_count := 0\<rparr>) []"
| renews:
    "ev = Heartbeat f l \<Longrightarrow> lc_state row = S_RUNNING \<Longrightarrow>
     (case lc_lease_deadline row of None \<Rightarrow> True | Some l' \<Rightarrow> l' < l) \<Longrightarrow>
     moves ad now row ev (row\<lparr>lc_lease_deadline := Some l, lc_next_action_at := Some l\<rparr>) []"
| reports:
    "ev = Reported r \<Longrightarrow> report_end row r = Some (s, e) \<Longrightarrow>
     moves ad now row ev
       (row\<lparr>lc_state := s, lc_effect := e, lc_next_action_at := None,
            lc_lease_deadline := None, lc_reason := why\<rparr>) []"
| retries:
    "\<not> cancel_requested row \<Longrightarrow> blind_retry_is_safe row ad (Some e) \<Longrightarrow> timely row ad now t \<Longrightarrow>
     spends \<or> (\<exists>r. ev = Reported r \<and> \<not> rp_consumes_retry r) \<Longrightarrow>
     moves ad now row ev
       (row\<lparr>lc_state := S_BACKOFF, lc_retry_count := lc_retry_count row + of_flag spends,
            lc_observe_count := 0, lc_next_action_at := Some t, lc_lease_deadline := None,
            lc_effect := e, lc_reason := why\<rparr>) []"
| looks:
    "\<not> cancel_requested row \<Longrightarrow> e = lc_effect row \<or> e = E_UNKNOWN \<Longrightarrow>
     lc_observe_count row \<le> n \<Longrightarrow> n \<le> max (lc_observe_count row) OBSERVE_BUDGET + 1 \<Longrightarrow>
     n < OBSERVE_BUDGET + LOST_OBSERVATION_BOUND \<or> n = lc_observe_count row \<Longrightarrow>
     cs = [Observe] \<or> cs = [] \<Longrightarrow>
     moves ad now row ev
       (row\<lparr>lc_state := S_OBSERVING, lc_observe_count := n, lc_next_action_at := Some t,
            lc_lease_deadline := l, lc_effect := e, lc_reason := why\<rparr>) cs"
| loses:
    "\<not> cancel_requested row \<Longrightarrow> OBSERVE_BUDGET + LOST_OBSERVATION_BOUND \<le> n \<Longrightarrow>
     n \<le> max (lc_observe_count row) OBSERVE_BUDGET + 1 \<Longrightarrow> \<not> blind_retry_is_safe row ad None \<Longrightarrow>
     moves ad now row ev
       (row\<lparr>lc_state := S_FAILED, lc_observe_count := n, lc_effect := E_UNKNOWN,
            lc_next_action_at := None, lc_lease_deadline := None, lc_reason := Some why\<rparr>)
       [RecordResidue why]"
| finds:
    "ev = Observed e reason \<Longrightarrow> \<not> cancel_requested row \<Longrightarrow> e \<noteq> E_ESTABLISHED \<Longrightarrow>
     e = E_UNKNOWN \<longrightarrow> blind_retry_is_safe row ad None \<Longrightarrow>
     cs = (if e = E_UNKNOWN then [RecordResidue why'] else []) \<Longrightarrow>
     moves ad now row ev
       (row\<lparr>lc_state := S_FAILED, lc_effect := e, lc_next_action_at := None,
            lc_lease_deadline := None, lc_reason := why\<rparr>) cs"
| succeeds:
    "(\<exists>reason. ev = Observed E_ESTABLISHED reason) \<or>
       (ev = Tick \<and> lc_state row = S_NEEDS_OPERATOR \<and> lc_effect row = E_ESTABLISHED) \<Longrightarrow>
     \<not> cancel_requested row \<Longrightarrow>
     moves ad now row ev
       (row\<lparr>lc_state := S_SUCCEEDED, lc_effect := E_ESTABLISHED, lc_next_action_at := None,
            lc_lease_deadline := l, lc_reason := why\<rparr>) []"
| cancels:
    "cancelling ad now row ev flagged \<Longrightarrow> proves row ev e \<Longrightarrow>
     moves ad now row ev
       (flagged\<lparr>lc_state := S_CANCELLED, lc_effect := e, lc_next_action_at := None,
            lc_lease_deadline := None, lc_reason := Some why\<rparr>) []"
| gives_up:
    "cancelling ad now row ev flagged \<Longrightarrow> STOP_BUDGET \<le> lc_observe_count row \<Longrightarrow>
     moves ad now row ev
       (flagged\<lparr>lc_state := S_CANCELLED, lc_effect := E_UNKNOWN, lc_next_action_at := None,
            lc_lease_deadline := None, lc_reason := Some why\<rparr>) [RecordResidue why]"
| stops:
    "cancelling ad now row ev flagged \<Longrightarrow> lc_observe_count row < STOP_BUDGET \<Longrightarrow>
     moves ad now row ev
       (flagged\<lparr>lc_state := S_OBSERVING,
            lc_observe_count := lc_observe_count row + of_flag issue,
            lc_next_action_at := Some t, lc_lease_deadline := None, lc_effect := e,
            lc_reason := why\<rparr>) (if issue then [Stop] else [])"
| executes:
    "ev = Tick \<Longrightarrow> \<not> cancel_requested row \<Longrightarrow>
     lc_state row = S_QUEUED \<or> lc_state row = S_BACKOFF \<Longrightarrow>
     (case lc_next_action_at row of None \<Rightarrow> True | Some t \<Rightarrow> t \<le> now) \<Longrightarrow>
     moves ad now row ev (row\<lparr>lc_state := S_QUEUED, lc_next_action_at := None\<rparr>) [Execute]"
| waits:
    "ev = Tick \<Longrightarrow> lc_state row = S_RUNNING \<Longrightarrow> lc_lease_deadline row = Some l \<Longrightarrow> now < l \<Longrightarrow>
     moves ad now row ev (row\<lparr>lc_next_action_at := Some l\<rparr>) []"
| resumes:
    "ev = OperatorAction name reason \<Longrightarrow> name \<in> set RESUME_ACTIONS \<Longrightarrow>
     name \<in> set (ad_actions ad row) \<Longrightarrow>
     lc_state row = S_NEEDS_OPERATOR \<or> lc_state row = S_OBSERVING \<Longrightarrow>
     moves ad now row ev
       (row\<lparr>lc_state := S_QUEUED, lc_retry_count := 0, lc_observe_count := 0,
            lc_next_action_at := None, lc_reason := Some why\<rparr>) []"
| retires:
    "ev = OperatorAction (action A_RETIRE) reason \<Longrightarrow>
     action A_RETIRE \<in> set (ad_actions ad row) \<Longrightarrow>
     lc_state row = S_NEEDS_OPERATOR \<or> lc_state row = S_OBSERVING \<Longrightarrow>
     moves ad now row ev
       (row\<lparr>lc_state := S_FAILED, lc_effect := E_UNKNOWN, lc_next_action_at := None,
            lc_reason := Some why\<rparr>) []"

section \<open>Every handler is one of the moves\<close>

text \<open>The two rules with open counts, stated on the resulting row itself.\<close>

lemma looks_row:
  assumes "\<not> cancel_requested row" "lc_next_action_at r = Some t"
    and "r = row\<lparr>lc_state := S_OBSERVING, lc_observe_count := lc_observe_count r,
           lc_next_action_at := Some t, lc_lease_deadline := lc_lease_deadline r,
           lc_effect := lc_effect r, lc_reason := lc_reason r\<rparr>"
    and "lc_effect r = lc_effect row \<or> lc_effect r = E_UNKNOWN"
    and "lc_observe_count row \<le> lc_observe_count r"
    and "lc_observe_count r \<le> max (lc_observe_count row) OBSERVE_BUDGET + 1"
    and "lc_observe_count r < OBSERVE_BUDGET + LOST_OBSERVATION_BOUND
           \<or> lc_observe_count r = lc_observe_count row"
    and "cs = [Observe] \<or> cs = []"
  shows "moves ad now row ev r cs"
  using moves.looks [OF assms(1,4-8), where t = t and l = "lc_lease_deadline r"
      and why = "lc_reason r"] assms(3) by simp

lemma loses_row:
  assumes "\<not> cancel_requested row" "lc_reason r = Some why"
    and "r = row\<lparr>lc_state := S_FAILED, lc_observe_count := lc_observe_count r,
           lc_effect := E_UNKNOWN, lc_next_action_at := None, lc_lease_deadline := None,
           lc_reason := Some why\<rparr>"
    and "OBSERVE_BUDGET + LOST_OBSERVATION_BOUND \<le> lc_observe_count r"
    and "lc_observe_count r \<le> max (lc_observe_count row) OBSERVE_BUDGET + 1"
    and "\<not> blind_retry_is_safe row ad None"
  shows "moves ad now row ev r [RecordResidue why]"
  using moves.loses [OF assms(1,4-6), where why = why] assms(3) by simp

lemma retry_moves:
  assumes "retry sha256 row now ad e reason after spends = Inr d"
    and "\<not> cancel_requested row" "blind_retry_is_safe row ad (Some e)"
    and "spends \<or> (\<exists>r. ev = Reported r \<and> \<not> rp_consumes_retry r)"
  shows "moves ad now row ev (d_row d) (d_commands d)"
proof -
  obtain t where t: "due sha256 row (if spends then lc_retry_count row + of_flag spends
      else WAIT_STEP) now (Some ad) after = Inr t"
    and d: "d_commands d = []" "d_row d = row\<lparr>lc_state := S_BACKOFF,
      lc_retry_count := lc_retry_count row + of_flag spends, lc_observe_count := 0,
      lc_next_action_at := Some t, lc_lease_deadline := None, lc_effect := e,
      lc_reason := str_or reason (lc_reason row)\<rparr>"
    using assms(1) by (auto simp: retry_def Let_def)
  from due_bounds [OF t] have "timely row ad now t" by (simp add: timely_def)
  from moves.retries [OF assms(2,3) this assms(4)] show ?thesis unfolding d .
qed

lemma observe_moves:
  assumes "observe sha256 row now reason = Inr d" "\<not> cancel_requested row"
  shows "moves ad now row ev (d_row d) (d_commands d)"
  using assms by (auto simp: observe_def Let_def budgets of_flag_def intro!: looks_row)

lemma uncertain_moves:
  assumes "uncertain sha256 row ad now e reason after spends = Inr d"
    and "\<not> cancel_requested row"
    and "spends \<or> (\<exists>r. ev = Reported r \<and> \<not> rp_consumes_retry r)"
  shows "moves ad now row ev (d_row d) (d_commands d)"
proof -
  have "blind_retry_is_safe row ad (Some (opt_or e (lc_effect row)))"
    if "blind_retry_is_safe row ad e"
    using that by (cases e) (simp_all add: blind_retry_is_safe_def)
  with assms show ?thesis
    by (auto simp: uncertain_def split: if_splits intro: retry_moves observe_moves)
qed

lemma lost_moves:
  assumes r: "lost sha256 row now reason cs seen = Inr d" and c: "\<not> cancel_requested row"
    and u: "\<not> blind_retry_is_safe row ad None" and cs: "cs = [Observe] \<or> cs = []"
  shows "moves ad now row ev (d_row d) (d_commands d)"
proof (cases "LOST_OBSERVATION_BOUND
    \<le> max (lc_observe_count row - OBSERVE_BUDGET) 0 + of_flag seen")
  case True
  with r have "d_commands d = [RecordResidue (wait_reason_value W_RUNTIME_EFFECT_UNCONFIRMED)]"
    by (auto simp: lost_def Let_def)
  with r True c u show ?thesis
    by (auto simp: lost_def Let_def budgets max_def of_flag_def simp del: wait_reason_value.simps
        split: if_splits intro: loses_row)
next
  case False
  with r have "d_commands d = cs" by (auto simp: lost_def Let_def)
  with r False c cs show ?thesis
    by (auto simp: lost_def Let_def budgets max_def of_flag_def split: if_splits intro: looks_row)
qed

lemma unknown_after_observation_moves:
  assumes r: "unknown_after_observation sha256 row ad now reason cs = Inr d"
    and c: "\<not> cancel_requested row" and cs: "cs = [Observe] \<or> cs = []"
  shows "moves ad now row ev (d_row d) (d_commands d)"
proof (cases "\<not> ad_irreversible ad row \<or> blind_retry_is_safe row ad None")
  case True
  then have "blind_retry_is_safe row ad (Some (lc_effect row))"
    by (auto simp: blind_retry_is_safe_def)
  with True r c show ?thesis by (auto simp: unknown_after_observation_def intro: retry_moves)
next
  case irreversible: False
  show ?thesis
  proof (cases "OBSERVE_BUDGET \<le> lc_observe_count row")
    case True
    with irreversible r c cs show ?thesis
      by (auto simp: unknown_after_observation_def intro: lost_moves)
  next
    case False
    with irreversible r c show ?thesis
      by (auto simp: unknown_after_observation_def budgets intro: looks_row)
  qed
qed

lemma advance_cancel_moves:
  assumes "advance_cancel sha256 flagged now seen reason issue = Inr d"
    and "cancelling ad now row ev flagged"
    and "\<forall>e. seen = Some e \<longrightarrow> (\<exists>reason. ev = Observed e reason) \<or>
           (\<exists>r. ev = Reported r \<and> rp_effect r = Some e)"
  shows "moves ad now row ev (d_row d) (d_commands d)"
proof -
  have same: "lc_observe_count flagged = lc_observe_count row"
    "never_executed flagged = never_executed row"
    using assms(2) by (auto simp: cancelling_def with_cancel_flag_def never_executed_def
        split: if_splits)
  show ?thesis
    using assms(1,3) moves.stops [OF assms(2), where issue = True]
      moves.stops [OF assms(2), where issue = False] moves.cancels [OF assms(2)]
      moves.gives_up [OF assms(2)]
    by (auto simp: advance_cancel_def Let_def same proves_def split: if_splits)
qed

lemma cancelling_requested: "cancel_requested row \<Longrightarrow> cancelling ad now row ev row"
  by (simp add: cancelling_def)

lemma cancel_moves:
  "cancel sha256 row key reason now = Inr d \<Longrightarrow>
     moves ad now row (CancelRequested key reason) (d_row d) (d_commands d)"
  by (auto simp: cancel_def cancelling_def split: if_splits
      intro: moves.ignores elim!: advance_cancel_moves)

lemma submitted_moves: "moves ad now row Submitted (d_row (submitted row)) (d_commands (submitted row))"
  by (auto simp: submitted_def intro: moves.ignores moves.submits)

lemma claimed_moves:
  "moves ad now row (Claimed a f l) (d_row (claimed row a f l now)) (d_commands (claimed row a f l now))"
  by (auto simp: claimed_def Let_def intro: moves.ignores intro!: moves.claims)

lemma heartbeat_moves:
  "moves ad now row (Heartbeat f l) (d_row (heartbeat row l)) (d_commands (heartbeat row l))"
  by (auto simp: heartbeat_def intro: moves.ignores intro!: moves.renews split: option.splits)

lemma reported_moves:
  assumes r: "reported sha256 row r ad now = Inr d"
  shows "moves ad now row (Reported r) (d_row d) (d_commands d)"
proof (cases "report_end row r")
  case None
  with r show ?thesis
    by (auto simp: reported_def report_end_def Let_def
        split: outcome_kind.splits if_splits
        intro: cancelling_requested elim!: uncertain_moves advance_cancel_moves)
next
  case (Some a)
  then show ?thesis
    using r moves.reports [of "Reported r" r row "fst a" "snd a"]
    by (auto simp: reported_def report_end_def end_row_def
        split: outcome_kind.splits if_splits)
qed

lemma lapsed_moves:
  "lapsed sha256 row ad now reason = Inr d \<Longrightarrow> moves ad now row ev (d_row d) (d_commands d)"
  by (auto simp: lapsed_def split: if_splits
      intro: moves.ignores cancelling_requested elim!: uncertain_moves advance_cancel_moves)

lemma succeeds_row:
  assumes "\<not> cancel_requested row"
    and "(\<exists>reason. ev = Observed E_ESTABLISHED reason) \<or>
       (ev = Tick \<and> lc_state row = S_NEEDS_OPERATOR \<and> lc_effect row = E_ESTABLISHED)"
    and "r = row\<lparr>lc_state := S_SUCCEEDED, lc_effect := E_ESTABLISHED, lc_next_action_at := None,
           lc_lease_deadline := lc_lease_deadline r, lc_reason := lc_reason r\<rparr>"
  shows "moves ad now row ev r []"
  using moves.succeeds [OF assms(2,1), where l = "lc_lease_deadline r" and why = "lc_reason r"]
    assms(3) by simp

lemma finds_row:
  assumes "\<not> cancel_requested row" "e \<noteq> E_ESTABLISHED"
    and "e = E_UNKNOWN \<longrightarrow> blind_retry_is_safe row ad None"
    and "r = row\<lparr>lc_state := S_FAILED, lc_effect := e, lc_next_action_at := None,
           lc_lease_deadline := None, lc_reason := lc_reason r\<rparr>"
    and "cs = (if e = E_UNKNOWN then [RecordResidue why] else [])"
  shows "moves ad now row (Observed e reason) r cs"
  using moves.finds [OF refl assms(1-3,5), where why = "lc_reason r"] assms(4) by simp

lemma observed_moves:
  assumes r: "observed sha256 row e reason ad now = Inr d"
  shows "moves ad now row (Observed e reason) (d_row d) (d_commands d)"
proof -
  let ?late = "case deadline_of row (Some ad) of None \<Rightarrow> False | Some t \<Rightarrow> t \<le> now"
  consider (cancel) "cancel_requested row"
    | (skip) "\<not> cancel_requested row" "lc_state row \<noteq> S_OBSERVING" "lc_state row \<noteq> S_NEEDS_OPERATOR"
    | (late) "\<not> cancel_requested row" "lc_state row = S_OBSERVING \<or> lc_state row = S_NEEDS_OPERATOR"
        "?late" "e \<noteq> E_ESTABLISHED"
    | (established) "\<not> cancel_requested row"
        "lc_state row = S_OBSERVING \<or> lc_state row = S_NEEDS_OPERATOR" "e = E_ESTABLISHED"
    | (inside) "\<not> cancel_requested row" "lc_state row = S_OBSERVING \<or> lc_state row = S_NEEDS_OPERATOR"
        "\<not> ?late" "e \<noteq> E_ESTABLISHED"
    by blast
  then show ?thesis
  proof cases
    case cancel
    with r show ?thesis
      by (auto simp: observed_def intro: cancelling_requested elim!: advance_cancel_moves)
  next
    case skip
    with r show ?thesis by (auto simp: observed_def intro: moves.ignores)
  next
    case late
    then show ?thesis
      using r by (auto simp: observed_def Let_def split: if_splits
          intro: lost_moves finds_row)
  next
    case established
    with r show ?thesis by (auto simp: observed_def intro!: succeeds_row)
  next
    case inside
    then have "observed sha256 row e reason ad now =
        (if e = E_STOPPED \<and> \<not> blind_retry_is_safe row ad None
         then Inr (decide (row\<lparr>lc_state := S_FAILED, lc_effect := E_STOPPED,
                lc_next_action_at := None, lc_lease_deadline := None,
                lc_reason := str_or reason (lc_reason row)\<rparr>) [])
         else if e = E_NONE \<or> e = E_STOPPED
         then retry sha256 row now ad E_NONE reason None True
         else unknown_after_observation sha256 row ad now reason [])"
      by (auto simp: observed_def)
    with r inside(1) show ?thesis
      by (auto simp: blind_retry_is_safe_def split: if_splits
          elim!: retry_moves unknown_after_observation_moves intro!: finds_row)
  qed
qed

lemma operator_moves:
  "operator sha256 row name reason ad now = Inr d \<Longrightarrow>
     moves ad now row (OperatorAction name reason) (d_row d) (d_commands d)"
  by (auto simp: operator_def cancelling_def simp del: operator_action_name_value.simps
      split: if_splits
      intro: moves.ignores moves.resumes moves.retires elim!: advance_cancel_moves)

lemma reevaluate_parked_moves:
  assumes r: "reevaluate_parked sha256 row ad now = Inr d" and c: "\<not> cancel_requested row"
    and p: "lc_state row = S_NEEDS_OPERATOR"
  shows "moves ad now row Tick (d_row d) (d_commands d)"
proof (cases "lc_effect row = E_ESTABLISHED")
  case True
  with r c p show ?thesis
    by (auto simp: reevaluate_parked_def observed_def cancel_requested_def
        intro!: succeeds_row)
next
  case False
  have "blind_retry_is_safe row ad (Some E_NONE)"
    "blind_retry_is_safe row ad None \<Longrightarrow> blind_retry_is_safe row ad (Some (lc_effect row))"
    by (simp_all add: blind_retry_is_safe_def)
  with False r c show ?thesis
    by (auto simp: reevaluate_parked_def split: if_splits
        intro: retry_moves lost_moves observe_moves)
qed

lemma tick_moves:
  assumes r: "tick sha256 row ad now = Inr d"
  shows "moves ad now row Tick (d_row d) (d_commands d)"
proof (cases "cancel_requested row")
  case True
  with r show ?thesis
    by (auto simp: tick_def split: if_splits
        intro: moves.ignores cancelling_requested elim!: advance_cancel_moves)
next
  case live: False
  consider "lc_state row = S_OBSERVING" | "lc_state row = S_QUEUED \<or> lc_state row = S_BACKOFF"
    | "lc_state row \<notin> {S_OBSERVING, S_QUEUED, S_BACKOFF}" by blast
  then show ?thesis
  proof cases
    case 1
    with r live show ?thesis
      by (auto simp: tick_def Let_def budgets split: if_splits
          intro: moves.ignores looks_row elim: observe_moves unknown_after_observation_moves)
  next
    case 2
    with live have "moves ad now row Tick (row\<lparr>lc_state := S_QUEUED, lc_next_action_at := None\<rparr>)
        [Execute]" if "\<not> (case lc_next_action_at row of None \<Rightarrow> False | Some t \<Rightarrow> now < t)"
      using that by (auto intro!: moves.executes split: option.splits)
    with 2 r live show ?thesis
      by (auto simp: tick_def split: if_splits intro: moves.ignores elim: observe_moves)
  next
    case 3
    with r live show ?thesis
      by (auto simp: tick_def split: if_splits option.splits
          intro: moves.ignores moves.waits lapsed_moves reevaluate_parked_moves
          elim: observe_moves)
  qed
qed

lemma past_deadline_moves:
  assumes r: "past_deadline sha256 row ev ad now = Inr d" and c: "\<not> cancel_requested row"
  shows "moves ad now row ev (d_row d) (d_commands d)"
proof (cases "\<exists>e reason. ev = Observed e reason")
  case True
  then obtain e reason where ev: "ev = Observed e reason" by blast
  consider "e = E_ESTABLISHED" | "e = E_UNKNOWN" "\<not> blind_retry_is_safe row ad None"
    | "e \<noteq> E_ESTABLISHED" "e = E_UNKNOWN \<longrightarrow> blind_retry_is_safe row ad None" by blast
  then show ?thesis
  proof cases
    case 1
    with r c ev show ?thesis by (auto simp: past_deadline_def intro!: succeeds_row)
  next
    case 2
    with r c ev show ?thesis by (auto simp: past_deadline_def elim: lost_moves)
  next
    case 3
    with r c ev show ?thesis
      by (auto simp: past_deadline_def Let_def split: if_splits intro: finds_row)
  qed
next
  case False
  then have "past_deadline sha256 row ev ad now =
      Inr (decide (row\<lparr>lc_state := S_OBSERVING, lc_next_action_at := Some now,
        lc_lease_deadline := None,
        lc_observe_count := lc_observe_count row + of_flag (lc_observe_count row < OBSERVE_BUDGET),
        lc_effect := E_UNKNOWN\<rparr>) [Observe])"
    by (auto simp: past_deadline_def split: event.splits)
  with r c show ?thesis
    by (auto simp: budgets of_flag_def split: if_splits intro: looks_row)
qed

lemma dispatch_moves:
  "dispatch sha256 row ev ad now = Inr d \<Longrightarrow> moves ad now row ev (d_row d) (d_commands d)"
  by (cases ev)
    (auto simp: dispatch_def intro: cancel_moves submitted_moves claimed_moves heartbeat_moves
      reported_moves lapsed_moves observed_moves operator_moves tick_moves)

text \<open>The refinement: what the transition decides is a move, and a row that ended stays as it is.\<close>

lemma transition_moves:
  "transition sha256 row ev ad now = Inr d \<Longrightarrow> moves ad now row ev (d_row d) (d_commands d)"
  by (auto simp: transition_def expired_def split: if_splits
      intro: moves.ignores past_deadline_moves dispatch_moves)

lemma transition_ended: "terminal row \<Longrightarrow> transition sha256 row ev ad now = Inr (decide row [])"
  by (simp add: transition_def)

section \<open>Totality\<close>

lemma standing_attempt_Inl:
  "standing_attempt sha256 RECOVERY op n now floor = Inl e \<Longrightarrow> 1 \<le> n \<Longrightarrow>
     op = [] \<and> e = ValueError"
  using recovery.answers [of op n sha256 now floor] recovery.refuses [where n = n]
  by (cases "op = []") auto

lemma lost_Inl: "lost sha256 row now reason cs seen = Inl e \<Longrightarrow> lc_id row = [] \<and> e = ValueError"
  by (auto simp: lost_def Let_def budgets split: if_splits dest: standing_attempt_Inl)

lemma flagged_id [simp]: "lc_id (with_cancel_flag row now key) = lc_id row"
  by (simp add: with_cancel_flag_def)

lemma retry_Inl: "retry sha256 row now ad ef reason after c = Inl e \<Longrightarrow> lc_id row = [] \<and> e = ValueError"
  by (auto simp: retry_def Let_def dest: due_Inl)

lemma observe_Inl: "observe sha256 row now reason = Inl e \<Longrightarrow> lc_id row = [] \<and> e = ValueError"
  by (auto simp: observe_def Let_def dest: due_Inl)

lemma uncertain_Inl:
  "uncertain sha256 row ad now ef reason after c = Inl e \<Longrightarrow> lc_id row = [] \<and> e = ValueError"
  unfolding uncertain_def by (metis observe_Inl retry_Inl)

lemma unknown_after_observation_Inl:
  "unknown_after_observation sha256 row ad now reason cs = Inl e \<Longrightarrow>
     lc_id row = [] \<and> e = ValueError"
  by (auto simp: unknown_after_observation_def split: if_splits
      dest: retry_Inl lost_Inl due_Inl)

lemma advance_cancel_Inl:
  "advance_cancel sha256 row now seen reason issue = Inl e \<Longrightarrow> lc_id row = [] \<and> e = ValueError"
  by (auto simp: advance_cancel_def Let_def split: if_splits dest: due_Inl)

lemmas builder_Inl = retry_Inl observe_Inl uncertain_Inl lost_Inl unknown_after_observation_Inl
  advance_cancel_Inl due_Inl

lemma observed_Inl:
  "observed sha256 row ef reason ad now = Inl e \<Longrightarrow> lc_id row = [] \<and> e = ValueError"
  by (auto simp: observed_def Let_def split: if_splits dest: builder_Inl)

lemma lapsed_Inl: "lapsed sha256 row ad now reason = Inl e \<Longrightarrow> lc_id row = [] \<and> e = ValueError"
  by (auto simp: lapsed_def split: if_splits dest: builder_Inl)

lemma reevaluate_parked_Inl:
  "reevaluate_parked sha256 row ad now = Inl e \<Longrightarrow> lc_id row = [] \<and> e = ValueError"
  by (auto simp: reevaluate_parked_def split: if_splits dest: builder_Inl observed_Inl)

lemma tick_Inl: "tick sha256 row ad now = Inl e \<Longrightarrow> lc_id row = [] \<and> e = ValueError"
  by (auto simp: tick_def Let_def split: if_splits option.splits
      dest: builder_Inl lapsed_Inl reevaluate_parked_Inl)

lemma transition_Inl:
  "transition sha256 row ev ad now = Inl e \<Longrightarrow> lc_id row = [] \<and> e = ValueError"
proof -
  assume t: "transition sha256 row ev ad now = Inl e"
  have "past_deadline sha256 row ev ad now = Inl e \<Longrightarrow> lc_id row = [] \<and> e = ValueError"
    by (auto simp: past_deadline_def Let_def split: event.splits if_splits dest: lost_Inl)
  moreover have "dispatch sha256 row ev ad now = Inl e \<Longrightarrow> lc_id row = [] \<and> e = ValueError"
    by (cases ev)
      (auto simp: dispatch_def cancel_def reported_def operator_def Let_def split: if_splits
        dest: builder_Inl observed_Inl lapsed_Inl tick_Inl)
  ultimately show ?thesis using t by (auto simp: transition_def split: if_splits)
qed

lemma transition_total:
  assumes "lc_id row \<noteq> []"
  obtains d where "transition sha256 row ev ad now = Inr d"
  using assms transition_Inl by (cases "transition sha256 row ev ad now") blast+

end
