(* ===== verification/Machine.thy ===== *)
theory Machine
  imports Prelude
begin

text \<open>
  Runs of a machine whose step may raise: the interface between the lifecycle transition and
  what is said about sequences of events. A step takes a state and a label and gives the next
  state and the commands it names.
\<close>

type_synonym ('s, 'l, 'c) step = "'s \<Rightarrow> 'l \<Rightarrow> ('s \<times> 'c list) result"

fun run :: "('s, 'l, 'c) step \<Rightarrow> 's \<Rightarrow> 'l list \<Rightarrow> ('s \<times> 'c list) result" where
  "run step s [] = Inr (s, [])"
| "run step s (l # ls) =
     res_bind (step s l) (\<lambda>(s', cs). res_map (\<lambda>(s'', cs'). (s'', cs @ cs')) (run step s' ls))"

text \<open>How many labels of a run satisfy a condition on the state they meet.\<close>

fun count_steps :: "('s, 'l, 'c) step \<Rightarrow> ('s \<Rightarrow> 'l \<Rightarrow> bool) \<Rightarrow> 's \<Rightarrow> 'l list \<Rightarrow> nat" where
  "count_steps step p s [] = 0"
| "count_steps step p s (l # ls) =
     (if p s l then 1 else 0) +
     (case step s l of Inl e \<Rightarrow> 0 | Inr (s', cs) \<Rightarrow> count_steps step p s' ls)"

lemma run_Cons_Inr:
  "run step s (l # ls) = Inr (s'', ds) \<longleftrightarrow>
     (\<exists>s' cs cs'. step s l = Inr (s', cs) \<and> run step s' ls = Inr (s'', cs') \<and> ds = cs @ cs')"
  by (auto split: prod.splits)

lemma run_append:
  "run step s (ls @ ks) =
     res_bind (run step s ls) (\<lambda>(s', cs). res_map (\<lambda>(s'', cs'). (s'', cs @ cs')) (run step s' ks))"
proof (induction ls arbitrary: s)
  case Nil
  show ?case by (cases "run step s ks") auto
next
  case (Cons l ls)
  show ?case
  proof (cases "step s l")
    case (Inr a)
    obtain s' cs where a: "a = (s', cs)" by (cases a)
    show ?thesis
    proof (cases "run step s' ls")
      case (Inr b)
      then show ?thesis
        using \<open>step s l = Inr a\<close> a Cons.IH [of s']
        by (cases b; cases "run step (fst b) ks") auto
    qed (use Inr a Cons.IH [of s'] in auto)
  qed simp
qed

text \<open>A relation that every allowed step keeps, holds across runs of allowed labels.\<close>

lemma run_invariant:
  assumes "\<And>s l s' cs. P s \<Longrightarrow> ok l \<Longrightarrow> step s l = Inr (s', cs) \<Longrightarrow> P s'"
    and "run step s ls = Inr (s', cs)" "list_all ok ls" "P s"
  shows "P s'"
  using assms(2-4)
proof (induction ls arbitrary: s cs)
  case (Cons l ls)
  then show ?case using assms(1) by (auto simp: run_Cons_Inr simp del: run.simps(2))
qed simp

lemma run_relation:
  assumes "\<And>s. R s s" "\<And>a b c. R a b \<Longrightarrow> R b c \<Longrightarrow> R a c"
    and "\<And>s l s' cs. step s l = Inr (s', cs) \<Longrightarrow> R s s'"
    and "run step s ls = Inr (s', cs)"
  shows "R s s'"
  using assms(4)
proof (induction ls arbitrary: s cs)
  case (Cons l ls)
  then obtain t cs1 cs2 where "step s l = Inr (t, cs1)" "run step t ls = Inr (s', cs2)"
    by (auto simp: run_Cons_Inr simp del: run.simps)
  then show ?case using Cons.IH assms(2,3) by blast
qed (simp add: assms(1))

text \<open>
  A machine with final states: the contract a row's owner relies on. Its client lemmas say
  that an ended row stays as it is under every sequence of events, and that a measure which
  counted steps decrease bounds how many of them a row can take before it ends.
\<close>

locale row_machine =
  fixes step :: "('s, 'l, 'c) step" and ended :: "'s \<Rightarrow> bool"
  assumes absorbing: "ended s \<Longrightarrow> step s l = Inr (s, [])"
begin

lemma ended_run: "ended s \<Longrightarrow> run step s ls = Inr (s, [])"
  by (induction ls) (simp_all add: absorbing)

lemma ended_prefix:
  assumes "run step s ls = Inr (s', cs)" "ended s'"
  shows "run step s (ls @ ks) = Inr (s', cs)"
  using assms by (simp add: run_append ended_run)

lemma measured_run:
  fixes m :: "'s \<Rightarrow> nat"
  assumes keep: "\<And>s l s' cs. good s \<Longrightarrow> ok l \<Longrightarrow> step s l = Inr (s', cs) \<Longrightarrow>
        ended s' \<or> good s' \<and> m s' + (if p s l then 1 else 0) \<le> m s"
    and "run step s ls = Inr (s', cs)" "list_all ok ls" "good s \<or> ended s"
  shows "ended s' \<or> good s' \<and> m s' + count_steps step p s ls \<le> m s"
  using assms(2-4)
proof (induction ls arbitrary: s cs)
  case (Cons l ls)
  show ?case
  proof (cases "ended s")
    case True
    with Cons.prems(1) show ?thesis by (auto simp: ended_run simp del: run.simps)
  next
    case False
    obtain t cs1 cs2 where st: "step s l = Inr (t, cs1)" and rt: "run step t ls = Inr (s', cs2)"
      using Cons.prems(1) by (auto simp: run_Cons_Inr simp del: run.simps)
    have k: "ended t \<or> good t \<and> m t + (if p s l then 1 else 0) \<le> m s"
      using keep [OF _ _ st] False Cons.prems(2,3) by simp
    then have "ended s' \<or> good s' \<and> m s' + count_steps step p t ls \<le> m t"
      using Cons.IH [OF rt] Cons.prems(2) by auto
    moreover have "ended t \<Longrightarrow> ended s'" using ended_run [of t ls] rt by simp
    ultimately show ?thesis using k st by auto
  qed
qed auto

lemma must_end:
  fixes m :: "'s \<Rightarrow> nat"
  assumes "\<And>s l s' cs. good s \<Longrightarrow> ok l \<Longrightarrow> step s l = Inr (s', cs) \<Longrightarrow>
        ended s' \<or> good s' \<and> m s' + (if p s l then 1 else 0) \<le> m s"
    and "run step s ls = Inr (s', cs)" "list_all ok ls" "good s"
    and "m s < count_steps step p s ls"
  shows "ended s'"
  using measured_run [of good ok m p s ls s' cs] assms by fastforce

end

end
