(* ===== verification/Lifecycle_Runs.thy ===== *)
theory Lifecycle_Runs
  imports Lifecycle_Moves Machine
begin

text \<open>
  Sequences of events on one row: the lifecycle core as a machine with final states, and the
  facts about its moves that the properties of runs rest on. A label of a run is an event,
  the adapter's view at that moment (the store it reads may have changed since the last
  event) and the time.
\<close>

type_synonym label = "event \<times> adapter \<times> instant"

fun lifecycle_step :: "(string \<Rightarrow> string) \<Rightarrow> (lifecycle, label, command) step" where
  "lifecycle_step sha256 row (ev, ad, now) =
     res_map (\<lambda>d. (d_row d, d_commands d)) (transition sha256 row ev ad now)"

interpretation core: row_machine "lifecycle_step sha256" terminal for sha256
proof
  fix row l
  assume "terminal row"
  then show "lifecycle_step sha256 row l = Inr (row, [])"
    by (cases l) (simp add: transition_ended)
qed

lemma step_moves:
  "lifecycle_step sha256 row (ev, ad, now) = Inr (row', cs) \<Longrightarrow> moves ad now row ev row' cs"
  by (auto dest: transition_moves)

section \<open>What every move keeps\<close>

text \<open>The fields no event changes, and the ones that only grow.\<close>

definition continues :: "lifecycle \<Rightarrow> lifecycle \<Rightarrow> bool" where
  "continues row row' \<longleftrightarrow>
     lc_id row' = lc_id row \<and> lc_kind row' = lc_kind row \<and>
     lc_owner_id row' = lc_owner_id row \<and> lc_intent_ordinal row' = lc_intent_ordinal row \<and>
     lc_recovery_deadline row' = lc_recovery_deadline row \<and>
     lc_attempt row \<le> lc_attempt row' \<and>
     (lc_attempt row' = lc_attempt row \<longrightarrow> lc_fence row' = lc_fence row) \<and>
     (cancel_requested row \<longrightarrow>
        lc_cancel_requested_at row' = lc_cancel_requested_at row \<and>
        lc_cancel_request_key row' = lc_cancel_request_key row)"

lemma continues_refl: "continues row row"
  by (simp add: continues_def)

lemma continues_trans: "continues a b \<Longrightarrow> continues b c \<Longrightarrow> continues a c"
  by (auto simp: continues_def cancel_requested_def)

lemma cancelling_fields:
  assumes "cancelling ad now row ev flagged"
  shows "continues row flagged" "cancel_requested flagged"
    "lc_observe_count flagged = lc_observe_count row" "lc_state flagged = lc_state row"
    "lc_attempt flagged = lc_attempt row" "lc_retry_count flagged = lc_retry_count row"
  using assms
  by (auto simp: cancelling_def with_cancel_flag_def continues_def cancel_requested_def
      split: if_splits)

lemma moves_continues: "moves ad now row ev row' cs \<Longrightarrow> continues row row'"
proof (induction rule: moves.induct)
  case (cancels flagged e why)
  from cancelling_fields(1) [OF this(1)] show ?case by (simp add: continues_def)
next
  case (gives_up flagged why)
  from cancelling_fields(1) [OF this(1)] show ?case by (simp add: continues_def)
next
  case (stops flagged issue t e why)
  from cancelling_fields(1) [OF this(1)] show ?case by (simp add: continues_def)
qed (simp_all add: continues_def cancel_requested_def)

lemma step_continues:
  "lifecycle_step sha256 row l = Inr (row', cs) \<Longrightarrow> continues row row'"
  by (cases l) (auto dest: step_moves moves_continues simp del: lifecycle_step.simps)

lemma run_continues: "run (lifecycle_step sha256) row ls = Inr (row', cs) \<Longrightarrow> continues row row'"
  by (rule run_relation [of continues, OF continues_refl continues_trans step_continues])

text \<open>No event parks a row for an operator or marks it superseded.\<close>

lemma moves_state:
  "moves ad now row ev row' cs \<Longrightarrow>
     lc_state row' = lc_state row \<or> lc_state row' \<notin> {S_NEEDS_OPERATOR, S_SUPERSEDED}"
  by (induction rule: moves.induct)
    (auto simp: report_end_def split: outcome_kind.splits if_splits)

section \<open>Cancels\<close>

text \<open>Labels without an operator action.\<close>

fun unattended :: "label \<Rightarrow> bool" where
  "unattended (OperatorAction name reason, ad, now) \<longleftrightarrow> False"
| "unattended _ \<longleftrightarrow> True"

text \<open>A tick that comes at or after the row's clock.\<close>

fun due_tick :: "lifecycle \<Rightarrow> label \<Rightarrow> bool" where
  "due_tick row (Tick, ad, now) \<longleftrightarrow>
     (case lc_next_action_at row of None \<Rightarrow> True | Some t \<Rightarrow> t \<le> now)"
| "due_tick row _ \<longleftrightarrow> False"

lemma unattended_iff: "unattended (ev, ad, now) \<longleftrightarrow> (\<forall>name reason. ev \<noteq> OperatorAction name reason)"
  by (cases ev) simp_all

lemma due_tick_iff:
  "due_tick row (ev, ad, now) \<longleftrightarrow>
     ev = Tick \<and> (case lc_next_action_at row of None \<Rightarrow> True | Some t \<Rightarrow> t \<le> now)"
  by (cases ev) simp_all

lemma report_end_terminal: "report_end row r = Some (s, e) \<Longrightarrow> terminal_state s"
  by (auto simp: report_end_def split: outcome_kind.splits if_splits)

lemma moves_cancelling_count:
  assumes "moves ad now row ev row' cs" "cancel_requested row"
    and "\<And>name reason. ev \<noteq> OperatorAction name reason"
  shows "terminal row' \<or> lc_observe_count row' = lc_observe_count row + int (count_list cs Stop)"
    and "terminal row' \<longrightarrow> count_list cs Stop = 0"
    and "lc_observe_count row < STOP_BUDGET \<or> count_list cs Stop = 0"
  using assms
  by (induction rule: moves.induct)
    (auto simp: terminal_def dest: report_end_terminal)

lemma tick_advances_cancel:
  assumes "cancel_requested row" "\<not> terminal row" "due_tick row (Tick, ad, now)"
  shows "transition sha256 row Tick ad now = advance_cancel sha256 row now None None True"
  using assms
  by (auto simp: transition_def expired_def dispatch_def tick_def due_tick_iff
      split: option.splits)

lemma advance_cancel_progress:
  assumes "advance_cancel sha256 row now None reason True = Inr d"
  shows "terminal (d_row d) \<or>
    lc_observe_count row < STOP_BUDGET \<and> lc_observe_count (d_row d) = lc_observe_count row + 1"
  using assms by (auto simp: advance_cancel_def Let_def terminal_def split: if_splits)

text \<open>The stops a cancelled row has left.\<close>

definition stops_left :: "lifecycle \<Rightarrow> nat" where
  "stops_left row = nat (STOP_BUDGET - lc_observe_count row)"

lemma cancel_step:
  assumes "cancel_requested row" "unattended l" "lifecycle_step sha256 row l = Inr (row', cs)"
  shows "terminal row' \<or> cancel_requested row' \<and>
    stops_left row' + (if due_tick row l then 1 else 0) \<le> stops_left row"
proof (cases "terminal row")
  case True
  with assms(3) show ?thesis by (simp add: core.absorbing)
next
  case False
  obtain ev ad now where l: "l = (ev, ad, now)" by (cases l)
  have mv: "moves ad now row ev row' cs" using assms(3) unfolding l by (rule step_moves)
  from moves_continues [OF mv] assms(1) have c: "cancel_requested row'"
    by (simp add: continues_def cancel_requested_def)
  show ?thesis
  proof (cases "due_tick row l")
    case True
    with l have ev: "ev = Tick" by (simp add: due_tick_iff)
    have "advance_cancel sha256 row now None None True = Inr (decide row' cs)"
      using assms(3) tick_advances_cancel [OF assms(1) False, of ad now sha256] True l ev by auto
    from advance_cancel_progress [OF this] show ?thesis using c True by (auto simp: stops_left_def)
  next
    case no: False
    have "terminal row' \<or> lc_observe_count row \<le> lc_observe_count row'"
      using moves_cancelling_count(1) [OF mv assms(1)] assms(2) l by (auto simp: unattended_iff)
    then show ?thesis using c no by (auto simp: stops_left_def)
  qed
qed

lemma cancel_ends:
  assumes "run (lifecycle_step sha256) row ls = Inr (row', cs)" "cancel_requested row"
    and "list_all unattended ls" "stops_left row < count_steps (lifecycle_step sha256) due_tick row ls"
  shows "terminal row'"
  by (rule core.must_end [where good = cancel_requested and ok = unattended and m = stops_left
        and p = due_tick, OF cancel_step assms(1,3,2,4)])

lemma run_stops_bounded:
  assumes "run (lifecycle_step sha256) row ls = Inr (row', cs)" "cancel_requested row"
    and "list_all unattended ls"
  shows "count_list cs Stop \<le> stops_left row"
  using assms
proof (induction ls arbitrary: row cs)
  case (Cons l ls)
  obtain t cs1 cs2 where st: "lifecycle_step sha256 row l = Inr (t, cs1)"
    and rt: "run (lifecycle_step sha256) t ls = Inr (row', cs2)" and cs: "cs = cs1 @ cs2"
    using Cons.prems(1) by (auto simp: run_Cons_Inr simp del: run.simps lifecycle_step.simps)
  obtain ev ad now where l: "l = (ev, ad, now)" by (cases l)
  have mv: "moves ad now row ev t cs1" using st unfolding l by (rule step_moves)
  have att: "\<And>name reason. ev \<noteq> OperatorAction name reason"
    using Cons.prems(3) l by (auto simp: unattended_iff)
  note counts = moves_cancelling_count [OF mv Cons.prems(2) att]
  show ?case
  proof (cases "terminal t")
    case True
    then have "cs2 = []" using rt by (simp add: core.ended_run)
    with True counts(2) cs show ?thesis by simp
  next
    case False
    have "cancel_requested t"
      using moves_continues [OF mv] Cons.prems(2) by (simp add: continues_def cancel_requested_def)
    with Cons.IH [OF rt] Cons.prems(3) have "count_list cs2 Stop \<le> stops_left t" by simp
    moreover have "lc_observe_count t = lc_observe_count row + int (count_list cs1 Stop)"
      using False counts(1) by simp
    moreover have "count_list cs1 Stop \<le> 1"
      using mv by (induction rule: moves.induct) auto
    ultimately show ?thesis using cs counts(3) by (auto simp: stops_left_def)
  qed
qed simp

section \<open>Lost rows\<close>

text \<open>
  An irreversible row that is observed past its own recovery deadline with an effect that may
  have happened.
\<close>

definition overdue :: "instant \<Rightarrow> lifecycle \<Rightarrow> bool" where
  "overdue d row \<longleftrightarrow> lc_recovery_deadline row = Some d \<and> lc_state row = S_OBSERVING \<and>
     lc_attempt row \<noteq> 0 \<and> lc_effect row \<noteq> E_NONE \<and> \<not> cancel_requested row"

text \<open>A label past the deadline that neither cancels nor acts for an operator.\<close>

definition late :: "instant \<Rightarrow> label \<Rightarrow> bool" where
  "late d l \<longleftrightarrow>
     (case l of (ev, ad, now) \<Rightarrow>
        d \<le> now \<and> unattended l \<and> (case ev of CancelRequested _ _ \<Rightarrow> False | _ \<Rightarrow> True))"

definition unknown_look :: "lifecycle \<Rightarrow> label \<Rightarrow> bool" where
  "unknown_look row l \<longleftrightarrow>
     (case l of (Observed E_UNKNOWN _, ad, now) \<Rightarrow> ad_irreversible ad row | _ \<Rightarrow> False)"

definition looks_left :: "lifecycle \<Rightarrow> nat" where
  "looks_left row =
     nat (OBSERVE_BUDGET + LOST_OBSERVATION_BOUND - 1 - max (lc_observe_count row) OBSERVE_BUDGET)"

lemma observe_overdue:
  "observe sha256 row now reason = Inr d \<Longrightarrow> overdue t row \<Longrightarrow>
     overdue t (d_row d) \<and> lc_observe_count row \<le> lc_observe_count (d_row d)
     \<and> max (lc_observe_count (d_row d)) OBSERVE_BUDGET = max (lc_observe_count row) OBSERVE_BUDGET"
  by (auto simp: observe_def Let_def overdue_def of_flag_def cancel_requested_def)

lemma lost_overdue:
  "lost sha256 row now reason cs True = Inr d \<Longrightarrow> overdue t row \<Longrightarrow>
     terminal (d_row d) \<or> overdue t (d_row d) \<and>
       max (lc_observe_count (d_row d)) OBSERVE_BUDGET
         = max (lc_observe_count row) OBSERVE_BUDGET + 1 \<and>
       max (lc_observe_count row) OBSERVE_BUDGET < OBSERVE_BUDGET + LOST_OBSERVATION_BOUND - 1"
  by (auto simp: lost_def Let_def overdue_def terminal_def cancel_requested_def budgets
      split: if_splits)

lemma past_deadline_overdue:
  assumes "past_deadline sha256 row ev ad now = Inr d" "overdue t row"
  shows "terminal (d_row d) \<or> overdue t (d_row d) \<and>
    looks_left (d_row d) + (if unknown_look row (ev, ad, now) then 1 else 0) \<le> looks_left row"
proof (cases "\<exists>e reason. ev = Observed e reason")
  case True
  then obtain e reason where ev: "ev = Observed e reason" by blast
  have unsafe: "blind_retry_is_safe row ad None \<longleftrightarrow> \<not> ad_irreversible ad row"
    using assms(2) by (simp add: overdue_def blind_retry_is_safe_def)
  show ?thesis
  proof (cases "e = E_UNKNOWN \<and> ad_irreversible ad row")
    case True
    then have "lost sha256 row now reason [] True = Inr d"
      using assms(1) ev unsafe by (simp add: past_deadline_def)
    from lost_overdue [OF this assms(2)] show ?thesis by (auto simp: looks_left_def)
  next
    case False
    with assms(1) ev unsafe show ?thesis by (auto simp: past_deadline_def Let_def terminal_def)
  qed
next
  case False
  then have "d = decide (row\<lparr>lc_state := S_OBSERVING, lc_next_action_at := Some now,
        lc_lease_deadline := None,
        lc_observe_count := lc_observe_count row + of_flag (lc_observe_count row < OBSERVE_BUDGET),
        lc_effect := E_UNKNOWN\<rparr>) [Observe]"
    using assms(1) by (auto simp: past_deadline_def split: event.splits)
  with False assms(2) show ?thesis
    by (auto simp: overdue_def looks_left_def unknown_look_def cancel_requested_def of_flag_def
        split: event.splits)
qed

lemma overdue_step:
  assumes "overdue t row" "late t l" "lifecycle_step sha256 row l = Inr (row', cs)"
  shows "terminal row' \<or> overdue t row' \<and>
    looks_left row' + (if unknown_look row l then 1 else 0) \<le> looks_left row"
proof -
  obtain ev ad now where l: "l = (ev, ad, now)" by (cases l)
  have tr: "transition sha256 row ev ad now = Inr (decide row' cs)" using assms(3) l by auto
  have row: "lc_state row = S_OBSERVING" "\<not> cancel_requested row" "\<not> terminal row"
    using assms(1) by (auto simp: overdue_def terminal_def)
  have now: "lc_recovery_deadline row = Some t" "t \<le> now"
    using assms(1,2) l by (auto simp: overdue_def late_def)
  have same: ?thesis if "row' = row" "\<not> unknown_look row l" using that assms(1) by simp
  have looked: ?thesis if "observe sha256 row now reason = Inr (decide row' cs)"
      "\<not> unknown_look row l" for reason
    using observe_overdue [OF that(1) assms(1)] that(2) by (simp add: looks_left_def)
  consider "stale row ev" | "\<not> stale row ev" "expired row ev ad now"
    | "\<not> stale row ev" "\<not> expired row ev ad now" by blast
  then show ?thesis
  proof cases
    case 1
    then show ?thesis using tr row same by (cases ev) (auto simp: transition_def unknown_look_def l)
  next
    case 2
    then have "past_deadline sha256 row ev ad now = Inr (decide row' cs)"
      using tr row by (simp add: transition_def)
    from past_deadline_overdue [OF this assms(1)] show ?thesis by (simp add: l)
  next
    case 3
    then have dis: "dispatch sha256 row ev ad now = Inr (decide row' cs)"
      using tr row by (simp add: transition_def)
    show ?thesis
    proof (cases "\<exists>e reason. ev = Observed e reason")
      case True
      then obtain e reason where ev: "ev = Observed e reason" by blast
      have "terminal row' \<or> (e = E_UNKNOWN \<and> ad_irreversible ad row \<and>
          lost sha256 row now reason [] True = Inr (decide row' cs))"
        using dis row now ev assms(1)
        by (auto simp: dispatch_def observed_def deadline_of_def Let_def terminal_def overdue_def
            blind_retry_is_safe_def split: if_splits)
      then consider "terminal row'" | "lost sha256 row now reason [] True = Inr (decide row' cs)"
        by blast
      then show ?thesis
      proof cases
        case 2
        from lost_overdue [OF this assms(1)] show ?thesis by (auto simp: looks_left_def)
      qed simp
    next
      case False
      then have nolook: "\<not> unknown_look row l" by (auto simp: unknown_look_def l split: event.splits)
      have "row' = row \<or> terminal row' \<or>
          (\<exists>reason. observe sha256 row now reason = Inr (decide row' cs))"
        using dis row now False assms(2) l
        by (cases ev)
          (auto simp: dispatch_def submitted_def claimed_def heartbeat_def reported_def end_row_def
            lapsed_def tick_def uncertain_def late_def terminal_def Let_def split: if_splits)
      then show ?thesis using same looked nolook by blast
    qed
  qed
qed

lemma lost_ends:
  assumes "run (lifecycle_step sha256) row ls = Inr (row', cs)" "overdue t row"
    and "list_all (late t) ls"
    and "looks_left row < count_steps (lifecycle_step sha256) unknown_look row ls"
  shows "terminal row'"
  by (rule core.must_end [where good = "overdue t" and ok = "late t" and m = looks_left
        and p = unknown_look, OF overdue_step assms(1,3,2,4)])

section \<open>Execution and evidence\<close>

text \<open>Work that waits to be issued has not happened, as far as the row knows.\<close>

definition replay_safe :: "lifecycle \<Rightarrow> bool" where
  "replay_safe row \<longleftrightarrow>
     (lc_state row = S_QUEUED \<or> lc_state row = S_BACKOFF \<longrightarrow> never_executed row)"

text \<open>The adapter of the label calls every row irreversible.\<close>

definition irreversible_kind :: "adapter \<Rightarrow> bool" where
  "irreversible_kind ad \<longleftrightarrow> ad_irreversible ad = (\<lambda>_. True)"

lemma moves_replay_safe:
  assumes "moves ad now row ev row' cs" "replay_safe row" "irreversible_kind ad"
    and "\<And>name reason. ev \<noteq> OperatorAction name reason"
  shows "replay_safe row'" and "Execute \<in> set cs \<Longrightarrow> never_executed row"
proof -
  show "replay_safe row'"
    using assms
    by (induction rule: moves.induct)
      (auto simp: replay_safe_def never_executed_def blind_retry_is_safe_def irreversible_kind_def
        dest: report_end_terminal)
  show "Execute \<in> set cs \<Longrightarrow> never_executed row"
    using assms(1,2)
    by (induction rule: moves.induct) (auto simp: replay_safe_def split: if_splits)
qed

lemma run_replay_safe:
  assumes "run (lifecycle_step sha256) row ls = Inr (row', cs)" "replay_safe row"
    and "list_all (\<lambda>(ev, ad, now). unattended (ev, ad, now) \<and> irreversible_kind ad) ls"
  shows "replay_safe row'"
proof (rule run_invariant [where P = replay_safe, OF _ assms(1,3,2)])
  fix s l s' cs
  assume s: "replay_safe s" and ok: "(\<lambda>(ev, ad, now). unattended (ev, ad, now) \<and> irreversible_kind ad) l"
    and st: "lifecycle_step sha256 s l = Inr (s', cs)"
  obtain ev ad now where l: "l = (ev, ad, now)" by (cases l)
  have mv: "moves ad now s ev s' cs" using st unfolding l by (rule step_moves)
  show "replay_safe s'"
    by (rule moves_replay_safe(1) [OF mv s]) (use ok l in \<open>auto simp: unattended_iff\<close>)
qed

lemma moves_success:
  assumes "moves ad now row ev row' cs" "lc_state row' = S_SUCCEEDED" "lc_state row \<noteq> S_SUCCEEDED"
  shows "(\<exists>r. ev = Reported r \<and> rp_outcome r = O_DONE) \<or>
    (\<exists>reason. ev = Observed E_ESTABLISHED reason) \<or>
    (ev = Tick \<and> lc_state row = S_NEEDS_OPERATOR \<and> lc_effect row = E_ESTABLISHED)"
  using assms
  by (induction rule: moves.induct)
    (auto simp: report_end_def split: outcome_kind.splits if_splits)

lemma moves_residue:
  assumes "moves ad now row ev row' cs" "RecordResidue why \<in> set cs"
  shows "terminal row' \<and> lc_effect row' = E_UNKNOWN"
  using assms
  by (induction rule: moves.induct) (auto simp: terminal_def split: if_splits)

lemma moves_unknown_end:
  assumes "moves ad now row ev row' cs" "\<not> terminal row" "terminal row'" "lc_effect row' = E_UNKNOWN"
  shows "(\<exists>why. RecordResidue why \<in> set cs) \<or> (\<exists>r. ev = Reported r) \<or>
    (\<exists>reason. ev = OperatorAction (action A_RETIRE) reason)"
  using assms
  by (induction rule: moves.induct)
    (auto simp: terminal_def proves_def cancelling_def with_cancel_flag_def
      simp del: operator_action_name_value.simps split: if_splits)

end
