(* ===== verification/Lifecycle_Properties.thy ===== *)
theory Lifecycle_Properties
  imports Lifecycle_Runs
begin

text \<open>
  The properties of the lifecycle core, each followed by its witness where it has a hypothesis.
  The rules named in the texts are the seven rules at the head of \<^verbatim>\<open>core.py\<close>.
\<close>

section \<open>Example rows and adapters\<close>

text \<open>An adapter without fences, deadlines or operator actions.\<close>

definition bare_adapter :: "bool \<Rightarrow> adapter" where
  "bare_adapter irreversible =
     \<lparr>ad_irreversible = (\<lambda>_. irreversible), ad_retry_not_before = (\<lambda>_ _. None),
      ad_recovery_deadline = (\<lambda>_. None), ad_actions = (\<lambda>_. [])\<rparr>"

definition running_row :: lifecycle where
  "running_row = (new_lifecycle ''order-1'' ''agent'')
     \<lparr>lc_state := S_RUNNING, lc_attempt := 1, lc_fence := Some ''f1'',
      lc_lease_deadline := Some (seconds 30), lc_next_action_at := Some (seconds 30),
      lc_effect := E_ISSUED\<rparr>"

definition observing_row :: lifecycle where
  "observing_row = running_row\<lparr>lc_state := S_OBSERVING, lc_lease_deadline := None,
     lc_next_action_at := None, lc_effect := E_UNKNOWN, lc_recovery_deadline := Some 0,
     lc_observe_count := 8\<rparr>"

text \<open>A digest that gives the text back: the witnesses compute with it.\<close>

definition plain_digest :: "string \<Rightarrow> string" where
  "plain_digest s = s"

lemma not_isl_run: "\<not> isl r \<Longrightarrow> \<exists>row cs. r = Inr (row, cs)"
  by (cases r) auto

section \<open>Totality and refinement\<close>

text \<open>
  (C8) The transition is total: for every row, event, adapter and time it decides, or the row
  has no id and the retry clock refuses it with a \<^verbatim>\<open>ValueError\<close>.
\<close>

theorem transition_decides:
  "(\<exists>d. transition sha256 row ev ad now = Inr d) \<or>
   (lc_id row = [] \<and> transition sha256 row ev ad now = Inl ValueError)"
  by (cases "transition sha256 row ev ad now") (auto dest: transition_Inl)

text \<open>
  (C1) Whatever the transition decides is one of the moves of the lifecycle's specification,
  under that move's guards, and nothing else.
\<close>

theorem transition_refines_moves:
  assumes "transition sha256 row ev ad now = Inr d"
  shows "moves ad now row ev (d_row d) (d_commands d)"
  using assms by (rule transition_moves)

theorem transition_refines_moves_witness:
  "\<exists>d. transition plain_digest running_row Tick (bare_adapter True) (seconds 60) = Inr d \<and>
     moves (bare_adapter True) (seconds 60) running_row Tick (d_row d) (d_commands d)"
proof -
  have "\<not> isl (transition plain_digest running_row Tick (bare_adapter True) (seconds 60))"
    by code_simp
  then obtain d where
    "transition plain_digest running_row Tick (bare_adapter True) (seconds 60) = Inr d"
    by (cases "transition plain_digest running_row Tick (bare_adapter True) (seconds 60)") auto
  with transition_refines_moves [OF this] show ?thesis by blast
qed

text \<open>
  (C7) A row that ended is final: no sequence of events, under any adapters and times, changes
  it or names a command.
\<close>

theorem ended_row_is_final:
  assumes "terminal row"
  shows "run (lifecycle_step sha256) row ls = Inr (row, [])"
  using assms by (rule core.ended_run)

theorem ended_row_is_final_witness:
  "run (lifecycle_step plain_digest) (running_row\<lparr>lc_state := S_CANCELLED\<rparr>)
     [(Tick, bare_adapter False, 0), (Claimed 2 ''f2'' 9, bare_adapter False, 1)]
   = Inr (running_row\<lparr>lc_state := S_CANCELLED\<rparr>, [])"
  by (rule ended_row_is_final) (simp add: terminal_def)

section \<open>What a row keeps\<close>

text \<open>
  (C6) Along every sequence of events a row keeps its identity, kind, owner, ordinal and
  recovery deadline; its attempt never falls and its fence changes only with a newer attempt;
  a cancel request, once made, keeps its time and its key.
\<close>

theorem row_continues:
  assumes "run (lifecycle_step sha256) row ls = Inr (row', cs)"
  shows "lc_id row' = lc_id row \<and> lc_kind row' = lc_kind row \<and>
    lc_owner_id row' = lc_owner_id row \<and> lc_intent_ordinal row' = lc_intent_ordinal row \<and>
    lc_recovery_deadline row' = lc_recovery_deadline row \<and>
    lc_attempt row \<le> lc_attempt row' \<and>
    (lc_attempt row' = lc_attempt row \<longrightarrow> lc_fence row' = lc_fence row) \<and>
    (cancel_requested row \<longrightarrow>
       lc_cancel_requested_at row' = lc_cancel_requested_at row \<and>
       lc_cancel_request_key row' = lc_cancel_request_key row)"
  using run_continues [OF assms] by (simp add: continues_def)

theorem row_continues_witness:
  "\<exists>row' cs. run (lifecycle_step plain_digest) running_row
       [(CancelRequested (Some ''k'') None, bare_adapter True, 5),
        (CancelRequested (Some ''k2'') None, bare_adapter True, 6)] = Inr (row', cs) \<and>
     lc_id row' = lc_id running_row \<and> lc_attempt running_row \<le> lc_attempt row'"
proof -
  let ?ls = "[(CancelRequested (Some ''k'') None, bare_adapter True, 5),
        (CancelRequested (Some ''k2'') None, bare_adapter True, 6)]"
  have "\<not> isl (run (lifecycle_step plain_digest) running_row ?ls)" by code_simp
  from not_isl_run [OF this] obtain row' cs where
    "run (lifecycle_step plain_digest) running_row ?ls = Inr (row', cs)" by blast
  with row_continues [OF this] show ?thesis by blast
qed

text \<open>
  No event parks a row for an operator or marks it superseded: a row in either state after
  a sequence of events was in that state from the start.
\<close>

lemma never_parked:
  assumes "run (lifecycle_step sha256) row ls = Inr (row', cs)"
    and "lc_state row' = S_NEEDS_OPERATOR \<or> lc_state row' = S_SUPERSEDED"
  shows "lc_state row' = lc_state row"
proof -
  let ?R = "\<lambda>a b. lc_state b = S_NEEDS_OPERATOR \<or> lc_state b = S_SUPERSEDED
      \<longrightarrow> lc_state b = lc_state a"
  have "?R row row'"
  proof (rule run_relation [where R = ?R, OF _ _ _ assms(1)])
    fix s l s' cs
    assume st: "lifecycle_step sha256 s l = Inr (s', cs)"
    obtain ev ad now where l: "l = (ev, ad, now)" by (cases l)
    from step_moves [OF st [unfolded l]] show "?R s s'" by (auto dest: moves_state)
  qed auto
  with assms(2) show ?thesis by blast
qed

section \<open>Rule 4: a cancel always completes\<close>

text \<open>
  (C4) Once a cancel is requested, the row ends after at most the stops it has left plus one due
  tick, whatever other events arrive in between, as long as no operator acts on it. With a fresh
  observation count that is \<^verbatim>\<open>STOP_BUDGET + 1\<close> due ticks.
\<close>

theorem cancel_completes:
  assumes "run (lifecycle_step sha256) row ls = Inr (row', cs)" "cancel_requested row"
    and "list_all unattended ls"
    and "nat (STOP_BUDGET - lc_observe_count row)
           < count_steps (lifecycle_step sha256) due_tick row ls"
  shows "terminal row'"
  using assms(1-3) assms(4) [folded stops_left_def] by (rule cancel_ends)

definition cancelled_row :: lifecycle where
  "cancelled_row = running_row\<lparr>lc_cancel_requested_at := Some 0, lc_cancel_request_key := Some ''k'',
     lc_observe_count := 4\<rparr>"

definition cancel_labels :: "label list" where
  "cancel_labels =
     [(Tick, bare_adapter True, seconds 60), (Observed E_UNKNOWN None, bare_adapter True, seconds 61),
      (Tick, bare_adapter True, seconds 180), (Heartbeat (Some ''f1'') 7, bare_adapter True, 0),
      (Tick, bare_adapter True, seconds 300)]"

lemma cancel_labels_run:
  obtains row' cs where
    "run (lifecycle_step plain_digest) cancelled_row cancel_labels = Inr (row', cs)"
proof -
  have "\<not> isl (run (lifecycle_step plain_digest) cancelled_row cancel_labels)" by code_simp
  from not_isl_run [OF this] that show ?thesis by blast
qed

theorem cancel_completes_witness:
  "\<exists>row' cs. run (lifecycle_step plain_digest) cancelled_row cancel_labels = Inr (row', cs) \<and>
     terminal row'"
proof -
  obtain row' cs where r:
    "run (lifecycle_step plain_digest) cancelled_row cancel_labels = Inr (row', cs)"
    by (rule cancel_labels_run)
  have "cancel_requested cancelled_row" "list_all unattended cancel_labels"
    "nat (STOP_BUDGET - lc_observe_count cancelled_row)
       < count_steps (lifecycle_step plain_digest) due_tick cancelled_row cancel_labels"
    by code_simp+
  from cancel_completes [OF r this] r show ?thesis by blast
qed

text \<open>
  A cancelled row is stopped at most \<^verbatim>\<open>STOP_BUDGET\<close> times in all, its observation count
  included: no executor, however chatty, can make the core issue more stops.
\<close>

lemma cancel_stops_bounded:
  assumes "run (lifecycle_step sha256) row ls = Inr (row', cs)" "cancel_requested row"
    and "list_all unattended ls"
  shows "count_list cs Stop \<le> nat (STOP_BUDGET - lc_observe_count row)"
  using run_stops_bounded [OF assms] by (simp add: stops_left_def)

text \<open>
  (C13) The observation count is shared by observations and stops and a cancel does not reset it:
  a row that has been observed \<^verbatim>\<open>STOP_BUDGET\<close> times is cancelled at once with a residue, its
  effect unknown, without a single stop having been issued for it.
\<close>

theorem cancel_of_observed_row_issues_no_stop:
  assumes "lc_state row = S_OBSERVING" "\<not> cancel_requested row" "lc_attempt row \<noteq> 0"
    and "lc_effect row \<noteq> E_NONE" "STOP_BUDGET \<le> lc_observe_count row"
  shows "\<exists>row'. transition sha256 row (CancelRequested key reason) ad now
      = Inr (decide row' [RecordResidue (wait_reason_value W_STOP_UNCONFIRMED)])
    \<and> lc_state row' = S_CANCELLED \<and> lc_effect row' = E_UNKNOWN"
  using assms
  by (simp add: transition_def terminal_def expired_def dispatch_def cancel_def advance_cancel_def
      with_cancel_flag_def never_executed_def cancel_requested_def Let_def)

theorem cancel_of_observed_row_issues_no_stop_witness:
  "\<exists>row'. transition plain_digest observing_row (CancelRequested (Some ''k'') None)
       (bare_adapter True) 5
     = Inr (decide row' [RecordResidue (wait_reason_value W_STOP_UNCONFIRMED)])
     \<and> lc_state row' = S_CANCELLED \<and> lc_effect row' = E_UNKNOWN"
  by (rule cancel_of_observed_row_issues_no_stop) code_simp+

section \<open>Rules 1 to 3: replay, observation and loss\<close>

text \<open>
  (C2) An irreversible effect is never blindly repeated: from a row whose waiting work has not
  happened, every \<^verbatim>\<open>Execute\<close> the core ever names, after any sequence of events without an operator's
  action, is for a row that never executed or whose effect is known to be absent.
\<close>

theorem no_blind_replay:
  assumes "run (lifecycle_step sha256) row ls = Inr (row', cs)" "replay_safe row"
    and "list_all (\<lambda>(ev, ad, now). unattended (ev, ad, now) \<and> irreversible_kind ad) ls"
    and "transition sha256 row' Tick ad now = Inr d" "Execute \<in> set (d_commands d)"
    and "irreversible_kind ad"
  shows "lc_attempt row' = 0 \<or> lc_effect row' = E_NONE"
  using moves_replay_safe(2) [OF transition_moves [OF assms(4)] run_replay_safe [OF assms(1-3)]
      assms(6) _ assms(5)] by (simp add: never_executed_def)

theorem no_blind_replay_witness:
  "\<exists>row' cs d. run (lifecycle_step plain_digest) running_row
      [(Reported ((plain_report O_FAILED)\<lparr>rp_retryable := True, rp_effect := Some E_NONE\<rparr>),
        bare_adapter True, 0)] = Inr (row', cs) \<and>
     transition plain_digest row' Tick (bare_adapter True) (seconds 600) = Inr d \<and>
     Execute \<in> set (d_commands d) \<and> (lc_attempt row' = 0 \<or> lc_effect row' = E_NONE)"
proof -
  let ?ls = "[(Reported ((plain_report O_FAILED)\<lparr>rp_retryable := True, rp_effect := Some E_NONE\<rparr>),
        bare_adapter True, 0)]"
  let ?t = "\<lambda>row. transition plain_digest row Tick (bare_adapter True) (seconds 600)"
  have ok: "case run (lifecycle_step plain_digest) running_row ?ls of
      Inl e \<Rightarrow> False
    | Inr (row, cs) \<Rightarrow> (case ?t row of Inl e \<Rightarrow> False | Inr d \<Rightarrow> Execute \<in> set (d_commands d))"
    by code_simp
  then obtain row' cs where r: "run (lifecycle_step plain_digest) running_row ?ls = Inr (row', cs)"
    by (cases "run (lifecycle_step plain_digest) running_row ?ls") auto
  with ok obtain d where d: "?t row' = Inr d" "Execute \<in> set (d_commands d)"
    by (cases "?t row'") auto
  have "replay_safe running_row" by code_simp
  moreover have "irreversible_kind (bare_adapter True)"
    by (simp add: irreversible_kind_def bare_adapter_def)
  ultimately have "lc_attempt row' = 0 \<or> lc_effect row' = E_NONE"
    using no_blind_replay [OF r _ _ d] by simp
  with r d show ?thesis by blast
qed

text \<open>
  (C5) Past its own recovery deadline an irreversible row with an unknown effect ends after at
  most \<^verbatim>\<open>LOST_OBSERVATION_BOUND\<close> further unknown observations, whatever reports, ticks or claims
  come in between.
\<close>

theorem lost_row_ends:
  assumes "run (lifecycle_step sha256) row ls = Inr (row', cs)"
    and "lc_recovery_deadline row = Some t" "lc_state row = S_OBSERVING" "lc_attempt row \<noteq> 0"
    and "lc_effect row \<noteq> E_NONE" "\<not> cancel_requested row" "list_all (late t) ls"
    and "nat LOST_OBSERVATION_BOUND \<le> count_steps (lifecycle_step sha256) unknown_look row ls"
  shows "terminal row'"
proof (rule lost_ends [OF assms(1)])
  show "overdue t row" using assms(2-6) by (simp add: overdue_def)
  show "looks_left row < count_steps (lifecycle_step sha256) unknown_look row ls"
    using assms(8) by (auto simp: looks_left_def budgets)
qed (rule assms(7))

definition lost_labels :: "label list" where
  "lost_labels = replicate 6 (Observed E_UNKNOWN None, bare_adapter True, seconds 60)"

theorem lost_row_ends_witness:
  "\<exists>row' cs. run (lifecycle_step plain_digest) observing_row lost_labels = Inr (row', cs) \<and>
     terminal row'"
proof -
  have "\<not> isl (run (lifecycle_step plain_digest) observing_row lost_labels)" by code_simp
  from not_isl_run [OF this] obtain row' cs where
    r: "run (lifecycle_step plain_digest) observing_row lost_labels = Inr (row', cs)" by blast
  have "lc_recovery_deadline observing_row = Some 0" "lc_state observing_row = S_OBSERVING"
    "lc_attempt observing_row \<noteq> 0" "lc_effect observing_row \<noteq> E_NONE"
    "\<not> cancel_requested observing_row" "list_all (late 0) lost_labels"
    "nat LOST_OBSERVATION_BOUND
       \<le> count_steps (lifecycle_step plain_digest) unknown_look observing_row lost_labels"
    by code_simp+
  from lost_row_ends [OF r this] r show ?thesis by blast
qed

text \<open>
  A lost row is observed at a bounded rate: past the observation budget a due tick names
  exactly one observation, keeps the attempt, the fence and the count, and sets the next look
  between 45 and 60 seconds ahead.
\<close>

lemma lost_row_is_observed_slowly:
  assumes "lc_state row = S_OBSERVING" "\<not> cancel_requested row" "lc_attempt row \<noteq> 0"
    and "lc_effect row \<noteq> E_NONE" "ad_irreversible ad row" "lc_recovery_deadline row = None"
    and "ad_recovery_deadline ad row = None" "due_tick row (Tick, ad, now)"
    and "OBSERVE_BUDGET \<le> lc_observe_count row"
    and "lc_observe_count row < OBSERVE_BUDGET + LOST_OBSERVATION_BOUND" "lc_id row \<noteq> []"
  shows "\<exists>row' t. transition sha256 row Tick ad now = Inr (decide row' [Observe]) \<and>
    lc_state row' = S_OBSERVING \<and> lc_attempt row' = lc_attempt row \<and>
    lc_fence row' = lc_fence row \<and> lc_observe_count row' = lc_observe_count row \<and>
    lc_next_action_at row' = Some t \<and> now + seconds 45 \<le> t \<and> t \<le> now + seconds 60"
proof -
  obtain t where t: "standing_attempt sha256 RECOVERY (lc_id row) OBSERVE_BUDGET now None = Inr t"
    using recovery.answers [OF assms(11), of OBSERVE_BUDGET sha256 now None]
    by (auto simp: budgets)
  have "backoff_lower RECOVERY OBSERVE_BUDGET = 45" "backoff_upper RECOVERY OBSERVE_BUDGET = 60"
    by code_simp+
  with standing_attempt_range [OF valid_policies(1) t]
  have "now + seconds 45 \<le> t" "t \<le> now + seconds 60" by simp_all
  moreover have "transition sha256 row Tick ad now = lost sha256 row now None [Observe] False"
    using assms by (auto simp: transition_def terminal_def expired_def dispatch_def tick_def
        due_tick_iff unknown_after_observation_def blind_retry_is_safe_def split: option.splits)
  ultimately show ?thesis using assms(9,10) t by (auto simp: lost_def Let_def)
qed

section \<open>Evidence\<close>

text \<open>
  A row succeeds only on evidence: an executor's report that it is done, an observation of
  the established effect, or a parked row whose recorded effect is established.
\<close>

lemma success_needs_evidence:
  assumes "transition sha256 row ev ad now = Inr d"
    and "lc_state (d_row d) = S_SUCCEEDED" "lc_state row \<noteq> S_SUCCEEDED"
  shows "(\<exists>r. ev = Reported r \<and> rp_outcome r = O_DONE) \<or>
    (\<exists>reason. ev = Observed E_ESTABLISHED reason) \<or>
    (ev = Tick \<and> lc_state row = S_NEEDS_OPERATOR \<and> lc_effect row = E_ESTABLISHED)"
  by (rule moves_success [OF transition_moves [OF assms(1)] assms(2,3)])



section \<open>Rule 7: fence closed\<close>

text \<open>A report or heartbeat that carries a fence other than \<open>f\<close>.\<close>

fun foreign :: "string \<Rightarrow> label \<Rightarrow> bool" where
  "foreign f (Reported r, ad, now) \<longleftrightarrow> (case rp_fence r of None \<Rightarrow> False | Some g \<Rightarrow> g \<noteq> f)"
| "foreign f (Heartbeat g lease, ad, now) \<longleftrightarrow> (case g of None \<Rightarrow> False | Some h \<Rightarrow> h \<noteq> f)"
| "foreign f _ \<longleftrightarrow> False"

text \<open>
  Executors of earlier attempts cannot touch a row: after a claim under fence \<open>f\<close>, any
  number of reports and heartbeats under other fences leaves the row as the claim made it.
\<close>

lemma other_fences_are_dropped:
  assumes "lc_fence row = Some f" "list_all (foreign f) ls"
  shows "run (lifecycle_step sha256) row ls = Inr (row, [])"
  using assms(2)
proof (induction ls)
  case (Cons l ls)
  obtain ev ad now where l: "l = (ev, ad, now)" by (cases l)
  have "stale row ev"
    using Cons.prems assms(1) l by (cases ev) (auto split: option.splits)
  then have "lifecycle_step sha256 row l = Inr (row, [])" by (simp add: l transition_def)
  with Cons show ?case by simp
qed simp

section \<open>Failures and waits\<close>

text \<open>
  A definite failure, one whose cause is a failure or a security refusal, ends its row on
  the first report: failed, no retry spent, no command, whatever the kind.
\<close>

lemma definite_failure_ends:
  assumes "is_definite cause" "\<not> terminal row" "\<not> expired row ev ad now"
    and "ev = Reported (failed_report cause fence effect reason after)" "\<not> stale row ev"
  shows "\<exists>row'. transition sha256 row ev ad now = Inr (decide row' []) \<and>
    lc_state row' = S_FAILED \<and> lc_retry_count row' = lc_retry_count row \<and>
    lc_next_action_at row' = None \<and> lc_effect row' = opt_or effect (lc_effect row)"
  using assms failed_report_retryable [of cause fence effect reason after]
  by (auto simp: transition_def dispatch_def reported_def end_row_def)

text \<open>
  A wait is not a failure: it is rescheduled without spending a retry, between three and
  five seconds ahead however often it repeats, when neither a fence of the kind nor a deadline
  says otherwise.
\<close>

lemma wait_spends_no_retry:
  assumes "disposition_of cause = D_WAIT" "\<not> terminal row" "\<not> stale row ev"
    and "ev = Reported (failed_report cause fence effect reason None)"
    and "\<not> cancel_requested row" "blind_retry_is_safe row ad effect"
    and "lc_recovery_deadline row = None" "ad_recovery_deadline ad row = None"
    and "ad_retry_not_before ad row now = None" "lc_id row \<noteq> []"
  shows "\<exists>row' t. transition sha256 row ev ad now = Inr (decide row' []) \<and>
    lc_state row' = S_BACKOFF \<and> lc_retry_count row' = lc_retry_count row \<and>
    lc_next_action_at row' = Some t \<and> now + seconds 3 \<le> t \<and> t \<le> now + seconds 5"
proof -
  let ?r = "failed_report cause fence effect reason None"
  have "rp_retryable ?r" "\<not> rp_consumes_retry ?r"
    using assms(1) by (simp_all add: failed_report_retryable is_definite_def)
  then have tr: "transition sha256 row ev ad now =
      retry sha256 row now ad (opt_or effect (lc_effect row)) (rp_reason ?r) None False"
    using assms by (auto simp: transition_def expired_def dispatch_def reported_def uncertain_def)
  obtain t where t: "standing_attempt sha256 RECOVERY (lc_id row) WAIT_STEP now None = Inr t"
    using recovery.answers [OF assms(10), of WAIT_STEP sha256 now None]
    by (auto simp: WAIT_STEP_def)
  have "backoff_lower RECOVERY WAIT_STEP = 3" "backoff_upper RECOVERY WAIT_STEP = 5" by code_simp+
  with standing_attempt_range [OF valid_policies(1) t]
  have "now + seconds 3 \<le> t" "t \<le> now + seconds 5" by simp_all
  moreover have "due sha256 row WAIT_STEP now (Some ad) None = Inr t"
    using t assms(7-9) by (simp add: due_def max_opt_def deadline_of_def WAIT_STEP_def)
  ultimately show ?thesis using tr by (simp add: retry_def Let_def)
qed

section \<open>Ticks and deadlines\<close>

text \<open>
  A tick before the row's clock changes nothing and names no command, unless the request's
  own deadline has passed: repeating a pass of the reconcile loop is harmless.
\<close>

lemma early_tick_is_idle:
  assumes "lc_next_action_at row = Some t" "now < t" "\<not> expired row Tick ad now"
  shows "transition sha256 row Tick ad now = Inr (decide row [])"
  using assms by (simp add: transition_def dispatch_def tick_def)

text \<open>
  Past the deadline the adapter gives a request, every event but an observation and a cancel
  is answered by an observation at once, with the effect unknown: also a definite report that
  the work is done, and also a tick that is not yet due.
\<close>

lemma expired_request_is_observed:
  assumes "\<not> terminal row" "\<not> stale row ev" "\<not> cancel_requested row"
    and "ad_recovery_deadline ad row = Some d" "d \<le> now"
    and "\<forall>e reason. ev \<noteq> Observed e reason" "\<forall>key reason. ev \<noteq> CancelRequested key reason"
  shows "\<exists>row'. transition sha256 row ev ad now = Inr (decide row' [Observe]) \<and>
    lc_state row' = S_OBSERVING \<and> lc_effect row' = E_UNKNOWN \<and>
    lc_next_action_at row' = Some now"
  using assms
  by (cases ev) (simp_all add: transition_def expired_def past_deadline_def)

end
