(* ===== verification/Composite.thy ===== *)
theory Composite
  imports Lifecycle_Types
begin

text \<open>
  The state of a composite subject (\<^verbatim>\<open>lifecycle/composite.py\<close>): a parent has no effect of its own
  and follows its children. Python's sets of states are the sets of the states of a list.
\<close>

definition ACTIVITY :: "lifecycle_state list" where
  "ACTIVITY = [S_RUNNING, S_QUEUED, S_OBSERVING, S_BACKOFF]"

definition aggregate :: "lifecycle list \<Rightarrow> lifecycle_state option" where
  "aggregate children =
     (if children = [] then None
      else (let states = map lc_state children
            in if list_all terminal_state states
               then (if S_FAILED \<in> set states then Some S_FAILED
                     else if S_CANCELLED \<in> set states then Some S_CANCELLED
                     else Some S_SUCCEEDED)
               else (let live = filter (\<lambda>s. \<not> terminal_state s) states
                     in case find (\<lambda>s. s \<in> set live) ACTIVITY of
                          Some s \<Rightarrow> Some s
                        | None \<Rightarrow> Some S_NEEDS_OPERATOR)))"

lemma find_activity_terminal:
  "find P ACTIVITY = Some s \<Longrightarrow> \<not> terminal_state s"
  by (auto simp: ACTIVITY_def split: if_splits)

text \<open>How active a state is; the order of \<^verbatim>\<open>_ACTIVITY\<close>, an operator's wait last.\<close>

fun activity_rank :: "lifecycle_state \<Rightarrow> nat" where
  "activity_rank S_RUNNING = 0"
| "activity_rank S_QUEUED = 1"
| "activity_rank S_OBSERVING = 2"
| "activity_rank S_BACKOFF = 3"
| "activity_rank S_NEEDS_OPERATOR = 4"
| "activity_rank _ = 5"

lemma find_activity_least:
  assumes "\<exists>s \<in> S. \<not> terminal_state s" "\<forall>s \<in> S. \<not> terminal_state s"
  shows "case find (\<lambda>s. s \<in> S) ACTIVITY of
      Some s \<Rightarrow> s \<in> S \<and> (\<forall>t \<in> S. activity_rank s \<le> activity_rank t)
    | None \<Rightarrow> S_NEEDS_OPERATOR \<in> S \<and> (\<forall>t \<in> S. activity_rank S_NEEDS_OPERATOR \<le> activity_rank t)"
proof -
  have ranks: "S_RUNNING \<in> S \<and> activity_rank t = 0 \<or> S_QUEUED \<in> S \<and> activity_rank t = 1 \<or>
      S_OBSERVING \<in> S \<and> activity_rank t = 2 \<or> S_BACKOFF \<in> S \<and> activity_rank t = 3 \<or>
      t = S_NEEDS_OPERATOR" if "t \<in> S" for t
    using assms(2) that by (cases t) auto
  have "activity_rank t \<le> 4" if "t \<in> S" for t
    using assms(2) that by (cases t) auto
  with assms(1) ranks show ?thesis by (fastforce simp: ACTIVITY_def)
qed

text \<open>
  (C14) A parent has ended exactly when every child has, and then with the worst outcome; while
  any child is live, the parent is in the state of its most active live child, and it waits for
  an operator only when every live child does.
\<close>

theorem aggregate_follows_children:
  assumes "children \<noteq> []"
  shows "\<exists>s. aggregate children = Some s \<and>
    (terminal_state s \<longleftrightarrow> (\<forall>c \<in> set children. terminal c)) \<and>
    (terminal_state s \<longrightarrow>
      (s = S_FAILED \<longleftrightarrow> (\<exists>c \<in> set children. lc_state c = S_FAILED)) \<and>
      (s = S_CANCELLED \<longleftrightarrow> (\<exists>c \<in> set children. lc_state c = S_CANCELLED)
         \<and> \<not> (\<exists>c \<in> set children. lc_state c = S_FAILED))) \<and>
    (\<not> terminal_state s \<longrightarrow>
      (\<exists>c \<in> set children. lc_state c = s) \<and>
      (\<forall>c \<in> set children. terminal c \<or> activity_rank s \<le> activity_rank (lc_state c)))"
proof (cases "\<forall>c \<in> set children. terminal c")
  case True
  then have "list_all terminal_state (map lc_state children)"
    by (simp add: list_all_iff terminal_def)
  moreover have "s \<in> lc_state ` set children \<longleftrightarrow> (\<exists>c \<in> set children. lc_state c = s)" for s
    by auto
  ultimately show ?thesis using True assms by (auto simp: aggregate_def Let_def)
next
  case False
  let ?live = "filter (\<lambda>s. \<not> terminal_state s) (map lc_state children)"
  have live: "\<exists>s \<in> set ?live. \<not> terminal_state s" "\<forall>s \<in> set ?live. \<not> terminal_state s"
    using False by (auto simp: terminal_def)
  have agg: "aggregate children =
      (case find (\<lambda>s. s \<in> set ?live) ACTIVITY of Some s \<Rightarrow> Some s | None \<Rightarrow> Some S_NEEDS_OPERATOR)"
    using False assms by (auto simp: aggregate_def Let_def list_all_iff terminal_def)
  obtain s where s: "aggregate children = Some s" "s \<in> set ?live"
    "\<forall>t \<in> set ?live. activity_rank s \<le> activity_rank t"
    using agg find_activity_least [OF live] by (auto simp del: set_filter split: option.splits)
  then show ?thesis using False by (auto simp: terminal_def)
qed

theorem aggregate_follows_children_witness:
  "\<exists>s. aggregate [(new_lifecycle ''a'' ''k'')\<lparr>lc_state := S_BACKOFF\<rparr>,
        (new_lifecycle ''b'' ''k'')\<lparr>lc_state := S_FAILED\<rparr>] = Some s \<and> s = S_BACKOFF \<and>
     (terminal_state s \<longleftrightarrow> False)"
  using aggregate_follows_children [of "[(new_lifecycle ''a'' ''k'')\<lparr>lc_state := S_BACKOFF\<rparr>,
        (new_lifecycle ''b'' ''k'')\<lparr>lc_state := S_FAILED\<rparr>]"]
  by (auto simp: terminal_def)

end
