(* ===== verification/Reconciler.thy ===== *)
theory Reconciler
  imports Lifecycle_Runs
begin

text \<open>
  The generic loop on top of the transition (\<^verbatim>\<open>lifecycle/reconciler.py\<close>): \<^verbatim>\<open>settle\<close> feeds an
  event to a row, saves what is decided, runs the commands through the kind's adapter and
  feeds the answers back, at most \<^verbatim>\<open>MAX_STEPS_PER_ROW\<close> times; \<^verbatim>\<open>reconcile\<close> ticks the due rows.

  Everything outside the row (tables, executors, the network) is a world of any type that the
  adapter's and the store's operations transform. A raise of \<^verbatim>\<open>observe\<close> or \<^verbatim>\<open>stop\<close> is the answer
  \<open>None\<close>; a raise of \<^verbatim>\<open>execute\<close> or of the residue writer is swallowed by the loop, so those
  operations only change the world.
\<close>

section \<open>Definitions\<close>

definition MAX_STEPS_PER_ROW :: nat where
  "MAX_STEPS_PER_ROW = 4"

record 'w kind_adapter =
  ka_view :: "'w \<Rightarrow> adapter"
  ka_observe :: "lifecycle \<Rightarrow> 'w \<Rightarrow> 'w \<times> (lifecycle_effect \<times> string option) option"
  ka_stop :: "lifecycle \<Rightarrow> 'w \<Rightarrow> 'w \<times> stop_outcome option"
  ka_execute :: "lifecycle \<Rightarrow> int \<Rightarrow> 'w \<Rightarrow> 'w"

record 'w row_writer =
  rw_save :: "lifecycle \<Rightarrow> lifecycle \<Rightarrow> 'w \<Rightarrow> ('w \<times> bool) result"
  rw_residue :: "lifecycle \<Rightarrow> string \<Rightarrow> 'w \<Rightarrow> 'w"

record settled =
  sd_row :: lifecycle
  sd_changed :: nat
  sd_commands :: nat
  sd_stale :: bool

definition run_command ::
  "'w kind_adapter \<Rightarrow> 'w row_writer \<Rightarrow> lifecycle \<Rightarrow> command \<Rightarrow> 'w \<Rightarrow> 'w \<times> event option" where
  "run_command ka rw row c w =
     (case c of
        Observe \<Rightarrow>
          (case ka_observe ka row w of
             (w', Some (effect, reason)) \<Rightarrow> (w', Some (Observed effect reason))
           | (w', None) \<Rightarrow>
               (w', Some (Observed E_UNKNOWN (Some (wait_reason_value W_OBSERVATION_UNAVAILABLE)))))
      | Stop \<Rightarrow>
          (case ka_stop ka row w of
             (w', Some outcome) \<Rightarrow>
               (w', Some (Observed (if outcome = Stop_CONFIRMED then E_STOPPED else E_UNKNOWN) None))
           | (w', None) \<Rightarrow>
               (w', Some (Observed E_UNKNOWN (Some (wait_reason_value W_OBSERVATION_UNAVAILABLE)))))
      | Execute \<Rightarrow> (ka_execute ka row (lc_attempt row + 1) w, None)
      | RecordResidue why \<Rightarrow> (rw_residue rw row why w, None))"

text \<open>The commands of one decision, in order; the last answer is the next event.\<close>

fun run_commands ::
  "'w kind_adapter \<Rightarrow> 'w row_writer \<Rightarrow> lifecycle \<Rightarrow> command list \<Rightarrow> event option \<Rightarrow> 'w
     \<Rightarrow> 'w \<times> event option" where
  "run_commands ka rw row [] pending w = (w, pending)"
| "run_commands ka rw row (c # cs) pending w =
     (case run_command ka rw row c w of
        (w', answer) \<Rightarrow>
          run_commands ka rw row cs (case answer of None \<Rightarrow> pending | Some e \<Rightarrow> Some e) w')"

fun settle_loop ::
  "(string \<Rightarrow> string) \<Rightarrow> 'w kind_adapter \<Rightarrow> 'w row_writer \<Rightarrow> instant \<Rightarrow> nat \<Rightarrow> lifecycle
     \<Rightarrow> event option \<Rightarrow> nat \<Rightarrow> nat \<Rightarrow> 'w \<Rightarrow> ('w \<times> settled) result" where
  "settle_loop sha256 ka rw now 0 row pending changed issued w =
     Inr (w, \<lparr>sd_row = row, sd_changed = changed, sd_commands = issued, sd_stale = False\<rparr>)"
| "settle_loop sha256 ka rw now (Suc n) row None changed issued w =
     Inr (w, \<lparr>sd_row = row, sd_changed = changed, sd_commands = issued, sd_stale = False\<rparr>)"
| "settle_loop sha256 ka rw now (Suc n) row (Some ev) changed issued w =
     res_bind (transition sha256 row ev (ka_view ka w) now) (\<lambda>d.
       res_bind (if d_row d \<noteq> row then rw_save rw row (d_row d) w else Inr (w, True))
         (\<lambda>(w1, saved).
            if \<not> saved
            then Inr (w1, \<lparr>sd_row = row, sd_changed = changed, sd_commands = issued,
                           sd_stale = True\<rparr>)
            else (case run_commands ka rw (d_row d) (d_commands d) None w1 of
                    (w2, pending) \<Rightarrow>
                      settle_loop sha256 ka rw now n (d_row d) pending
                        (if d_row d \<noteq> row then changed + 1 else changed)
                        (issued + length (d_commands d)) w2)))"

definition settle ::
  "(string \<Rightarrow> string) \<Rightarrow> 'w kind_adapter \<Rightarrow> 'w row_writer \<Rightarrow> lifecycle \<Rightarrow> event \<Rightarrow> instant
     \<Rightarrow> nat \<Rightarrow> 'w \<Rightarrow> ('w \<times> settled) result" where
  "settle sha256 ka rw row ev now max_steps w =
     settle_loop sha256 ka rw now max_steps row (Some ev) 0 0 w"

record reconcile_report =
  rr_examined :: nat
  rr_changed :: nat
  rr_commands :: nat

text \<open>The pass over the due rows; a kind without an adapter is skipped.\<close>

fun reconcile_rows ::
  "(string \<Rightarrow> string) \<Rightarrow> (string \<Rightarrow> 'w kind_adapter option) \<Rightarrow> 'w row_writer \<Rightarrow> instant
     \<Rightarrow> lifecycle list \<Rightarrow> reconcile_report \<Rightarrow> 'w \<Rightarrow> ('w \<times> reconcile_report) result" where
  "reconcile_rows sha256 adapters rw now [] rep w = Inr (w, rep)"
| "reconcile_rows sha256 adapters rw now (row # rows) rep w =
     (case adapters (lc_kind row) of
        None \<Rightarrow> reconcile_rows sha256 adapters rw now rows rep w
      | Some ka \<Rightarrow>
          res_bind (settle sha256 ka rw row Tick now MAX_STEPS_PER_ROW w)
            (\<lambda>(w', s). reconcile_rows sha256 adapters rw now rows
               \<lparr>rr_examined = rr_examined rep + 1, rr_changed = rr_changed rep + sd_changed s,
                rr_commands = rr_commands rep + sd_commands s\<rparr> w'))"

definition reconcile ::
  "(string \<Rightarrow> string) \<Rightarrow> bool \<Rightarrow> (string \<Rightarrow> 'w kind_adapter option) \<Rightarrow> 'w row_writer
     \<Rightarrow> (instant \<Rightarrow> nat \<Rightarrow> 'w \<Rightarrow> lifecycle list) \<Rightarrow> instant \<Rightarrow> nat \<Rightarrow> 'w
     \<Rightarrow> ('w \<times> reconcile_report) result" where
  "reconcile sha256 enabled adapters rw due_rows now limit w =
     (let empty = \<lparr>rr_examined = 0, rr_changed = 0, rr_commands = 0\<rparr>
      in if \<not> enabled then Inr (w, empty)
         else reconcile_rows sha256 adapters rw now (due_rows now limit w) empty w)"

section \<open>One decision names at most one command\<close>

lemma moves_one_command: "moves ad now row ev row' cs \<Longrightarrow> length cs \<le> 1"
  by (induction rule: moves.induct) auto

text \<open>The answer to a command never stops or executes: only events from outside do.\<close>

definition answer_only :: "command list \<Rightarrow> bool" where
  "answer_only cs \<longleftrightarrow> Stop \<notin> set cs \<and> Execute \<notin> set cs"

lemma retry_commands: "retry sha256 row now ad e reason after c = Inr d \<Longrightarrow> d_commands d = []"
  by (auto simp: retry_def Let_def)

lemma lost_commands:
  "lost sha256 row now reason cs seen = Inr d \<Longrightarrow> answer_only cs \<Longrightarrow> answer_only (d_commands d)"
  by (auto simp: lost_def Let_def answer_only_def split: if_splits)

lemma unknown_after_observation_commands:
  "unknown_after_observation sha256 row ad now reason [] = Inr d \<Longrightarrow> answer_only (d_commands d)"
  by (auto simp: unknown_after_observation_def answer_only_def split: if_splits
      dest: retry_commands lost_commands)

lemma observed_commands:
  assumes "observed sha256 row e reason ad now = Inr d"
  shows "answer_only (d_commands d)"
proof (cases "cancel_requested row")
  case True
  with assms show ?thesis
    by (auto simp: observed_def advance_cancel_def Let_def answer_only_def split: if_splits)
next
  case False
  with assms show ?thesis
    by (auto simp: observed_def Let_def answer_only_def split: if_splits
        dest: retry_commands lost_commands unknown_after_observation_commands)
qed

lemma transition_observed_commands:
  assumes "transition sha256 row (Observed e reason) ad now = Inr d"
  shows "answer_only (d_commands d)"
proof -
  have "past_deadline sha256 row (Observed e reason) ad now = Inr d \<Longrightarrow> answer_only (d_commands d)"
    by (auto simp: past_deadline_def Let_def answer_only_def split: if_splits dest: lost_commands)
  with assms show ?thesis
    by (auto simp: transition_def dispatch_def answer_only_def split: if_splits
        dest: observed_commands)
qed

section \<open>A settled row was reached by events of the core\<close>

fun is_observed :: "event \<Rightarrow> bool" where
  "is_observed (Observed e reason) \<longleftrightarrow> True"
| "is_observed _ \<longleftrightarrow> False"

lemma run_command_answer: "run_command ka rw row c w = (w', Some e) \<Longrightarrow> is_observed e"
  by (auto simp: run_command_def split: command.splits prod.splits option.splits)

lemma run_commands_answer:
  "run_commands ka rw row cs pending w = (w', Some e) \<Longrightarrow> pending = None \<or> is_observed (the pending)
     \<Longrightarrow> is_observed e"
proof (induction cs arbitrary: pending w)
  case Nil
  then show ?case by auto
next
  case (Cons c cs)
  then show ?case
    by (auto split: prod.splits option.splits dest: run_command_answer)
qed

lemma settle_loop_run:
  assumes "settle_loop sha256 ka rw now n row pending changed issued w = Inr (w', s)"
  shows "\<exists>ls cs. run (lifecycle_step sha256) row ls = Inr (sd_row s, cs) \<and> length ls \<le> n \<and>
    sd_commands s = issued + length cs \<and> list_all (\<lambda>l. snd (snd l) = now) ls \<and>
    (ls = [] \<or> Some (fst (hd ls)) = pending) \<and> list_all (\<lambda>l. is_observed (fst l)) (tl ls)"
  using assms
proof (induction n arbitrary: row pending changed issued w)
  case 0
  then have "run (lifecycle_step sha256) row [] = Inr (sd_row s, []) \<and> sd_commands s = issued" by auto
  then show ?case by (intro exI [of _ "[]"]) simp
next
  case (Suc n)
  show ?case
  proof (cases pending)
    case None
    with Suc.prems have "run (lifecycle_step sha256) row [] = Inr (sd_row s, []) \<and> sd_commands s = issued"
      by auto
    then show ?thesis by (intro exI [of _ "[]"]) simp
  next
    case (Some ev)
    obtain d w1 saved where d: "transition sha256 row ev (ka_view ka w) now = Inr d"
      and sv: "(if d_row d \<noteq> row then rw_save rw row (d_row d) w else Inr (w, True)) = Inr (w1, saved)"
      using Suc.prems Some by auto
    show ?thesis
    proof (cases saved)
      case False
      with Suc.prems Some d sv have "sd_row s = row \<and> sd_commands s = issued" by auto
      then show ?thesis by (intro exI [of _ "[]"]) simp
    next
      case True
      obtain w2 p where c: "run_commands ka rw (d_row d) (d_commands d) None w1 = (w2, p)"
        by (cases "run_commands ka rw (d_row d) (d_commands d) None w1")
      have "settle_loop sha256 ka rw now n (d_row d) p
          (if d_row d \<noteq> row then changed + 1 else changed) (issued + length (d_commands d)) w2
          = Inr (w', s)"
        using Suc.prems Some d sv True c by auto
      from Suc.IH [OF this] obtain ls cs where
        r: "run (lifecycle_step sha256) (d_row d) ls = Inr (sd_row s, cs)"
        and n: "length ls \<le> n" "sd_commands s = issued + length (d_commands d) + length cs"
        and t: "list_all (\<lambda>l. snd (snd l) = now) ls"
        and h: "ls = [] \<or> Some (fst (hd ls)) = p" "list_all (\<lambda>l. is_observed (fst l)) (tl ls)"
        by blast
      let ?l = "(ev, ka_view ka w, now)"
      have "list_all (\<lambda>l. is_observed (fst l)) ls"
      proof (cases ls)
        case (Cons a as)
        with h(1) have p: "p = Some (fst a)" by simp
        from run_commands_answer [OF c [unfolded p]] have "is_observed (fst a)" by simp
        with Cons h(2) show ?thesis by (cases a) simp
      qed simp
      moreover have "run (lifecycle_step sha256) row (?l # ls) = Inr (sd_row s, d_commands d @ cs)"
        using d r by simp
      ultimately show ?thesis
        using n t Some by (intro exI [of _ "?l # ls"] exI [of _ "d_commands d @ cs"]) auto
    qed
  qed
qed

lemma settle_run:
  assumes "settle sha256 ka rw row ev now n w = Inr (w', s)"
  obtains ls cs where "run (lifecycle_step sha256) row ls = Inr (sd_row s, cs)" "length ls \<le> n"
    "sd_commands s = length cs" "ls = [] \<or> fst (hd ls) = ev"
    "list_all (\<lambda>l. is_observed (fst l)) (tl ls)"
proof -
  from settle_loop_run [OF assms [unfolded settle_def]] obtain ls cs where
    "run (lifecycle_step sha256) row ls = Inr (sd_row s, cs)" "length ls \<le> n"
    "sd_commands s = 0 + length cs" "ls = [] \<or> Some (fst (hd ls)) = Some ev"
    "list_all (\<lambda>l. is_observed (fst l)) (tl ls)"
    by blast
  with that show ?thesis by simp
qed

lemma observed_run_answers:
  assumes "run (lifecycle_step sha256) row ls = Inr (row', cs)"
    and "list_all (\<lambda>l. is_observed (fst l)) ls"
  shows "answer_only cs"
  using assms
proof (induction ls arbitrary: row cs)
  case Nil
  then show ?case by (simp add: answer_only_def)
next
  case (Cons l ls)
  obtain ev ad t where l: "l = (ev, ad, t)" by (cases l)
  with Cons.prems(2) obtain e reason where ev: "ev = Observed e reason" by (cases ev) auto
  obtain d cs2 where d: "transition sha256 row ev ad t = Inr d"
    and r: "run (lifecycle_step sha256) (d_row d) ls = Inr (row', cs2)" "cs = d_commands d @ cs2"
    using Cons.prems(1) l by auto
  from transition_observed_commands [OF d [unfolded ev]] Cons.IH [OF r(1)] Cons.prems(2) r(2)
  show ?case by (auto simp: answer_only_def)
qed

lemma run_length_commands:
  "run (lifecycle_step sha256) row ls = Inr (row', cs) \<Longrightarrow> length cs \<le> length ls"
proof (induction ls arbitrary: row cs)
  case (Cons l ls)
  obtain ev ad t where l: "l = (ev, ad, t)" by (cases l)
  obtain r1 cs1 cs2 where st: "lifecycle_step sha256 row l = Inr (r1, cs1)"
    and r: "run (lifecycle_step sha256) r1 ls = Inr (row', cs2)" "cs = cs1 @ cs2"
    using Cons.prems by (auto simp: run_Cons_Inr simp del: run.simps lifecycle_step.simps)
  from moves_one_command [OF step_moves [OF st [unfolded l]]] Cons.IH [OF r(1)] r(2)
  show ?case by simp
qed simp

section \<open>The contract of a store\<close>

text \<open>
  What \<^verbatim>\<open>LifecycleStore\<close> promises the loop: an accepted save leaves the store displaying the new
  row, a refused one leaves it as it was, and running a command never changes what is displayed.
  The client lemma: whatever the loop settles on is what the store displays.
\<close>

locale row_store =
  fixes ka :: "'w kind_adapter" and rw :: "'w row_writer"
    and displays :: "'w \<Rightarrow> lifecycle \<Rightarrow> bool"
  assumes accepted: "rw_save rw b a w = Inr (w', True) \<Longrightarrow> displays w' a"
    and refused: "rw_save rw b a w = Inr (w', False) \<Longrightarrow> w' = w"
    and quiet: "displays w row \<Longrightarrow> run_command ka rw row c w = (w', answer) \<Longrightarrow> displays w' row"
begin

lemma commands_quiet:
  "displays w row \<Longrightarrow> run_commands ka rw row cs pending w = (w', p) \<Longrightarrow> displays w' row"
proof (induction cs arbitrary: pending w)
  case (Cons c cs)
  obtain w1 answer where c: "run_command ka rw row c w = (w1, answer)"
    by (cases "run_command ka rw row c w")
  from quiet [OF Cons.prems(1) c] Cons.prems(2) c show ?case by (auto intro: Cons.IH)
qed simp

lemma loop_displays:
  "settle_loop sha256 ka rw now n row pending changed issued w = Inr (w', s) \<Longrightarrow>
     displays w row \<Longrightarrow> displays w' (sd_row s)"
proof (induction n arbitrary: row pending changed issued w)
  case (Suc n)
  show ?case
  proof (cases pending)
    case (Some ev)
    obtain d w1 saved where d: "transition sha256 row ev (ka_view ka w) now = Inr d"
      and sv: "(if d_row d \<noteq> row then rw_save rw row (d_row d) w else Inr (w, True)) = Inr (w1, saved)"
      using Suc.prems(1) Some by auto
    obtain w2 p where c: "run_commands ka rw (d_row d) (d_commands d) None w1 = (w2, p)"
      by (cases "run_commands ka rw (d_row d) (d_commands d) None w1")
    show ?thesis
    proof (cases saved)
      case True
      with sv Suc.prems(2) have "displays w1 (d_row d)"
        by (auto split: if_splits intro: accepted)
      from commands_quiet [OF this c] have "displays w2 (d_row d)" .
      moreover have "settle_loop sha256 ka rw now n (d_row d) p
          (if d_row d \<noteq> row then changed + 1 else changed) (issued + length (d_commands d)) w2
          = Inr (w', s)"
        using Suc.prems(1) Some d sv True c by auto
      ultimately show ?thesis using Suc.IH by blast
    next
      case False
      with sv have "w1 = w" by (auto split: if_splits dest: refused)
      with Suc.prems Some d sv False show ?thesis by auto
    qed
  qed (use Suc.prems in auto)
qed auto

lemma settled_displays:
  "settle sha256 ka rw row ev now n w = Inr (w', s) \<Longrightarrow> displays w row \<Longrightarrow> displays w' (sd_row s)"
  unfolding settle_def by (rule loop_displays)

end

section \<open>Properties\<close>

text \<open>The pass of a refused save, with the loop's own number of steps.\<close>

lemma refused_settle:
  assumes "transition sha256 row ev view now = Inr d" "ka_view ka w = view" "d_row d \<noteq> row"
    and "rw_save rw row (d_row d) w = Inr (w1, False)"
  shows "settle sha256 ka rw row ev now MAX_STEPS_PER_ROW w =
    Inr (w1, \<lparr>sd_row = row, sd_changed = 0, sd_commands = 0, sd_stale = True\<rparr>)"
  using assms by (simp add: settle_def MAX_STEPS_PER_ROW_def numeral_eq_Suc)

lemma run_counts:
  assumes "run (lifecycle_step sha256) row ls = Inr (row', cs)"
    and "list_all (\<lambda>l. is_observed (fst l)) (tl ls)" "c = Stop \<or> c = Execute"
  shows "count_list cs c \<le> 1"
proof (cases ls)
  case Nil
  with assms(1) show ?thesis by simp
next
  case (Cons l ls')
  obtain ev ad t where l: "l = (ev, ad, t)" by (cases l)
  obtain r1 cs1 cs2 where st: "lifecycle_step sha256 row l = Inr (r1, cs1)"
    and r: "run (lifecycle_step sha256) r1 ls' = Inr (row', cs2)" "cs = cs1 @ cs2"
    using assms(1) Cons by (auto simp: run_Cons_Inr simp del: run.simps lifecycle_step.simps)
  have "answer_only cs2" by (rule observed_run_answers [OF r(1)]) (use assms(2) Cons in simp)
  then have "count_list cs2 c = 0" using assms(3) by (auto simp: answer_only_def count_list_0_iff)
  moreover have "count_list cs1 c \<le> 1"
    using moves_one_command [OF step_moves [OF st [unfolded l]]] count_le_length [of cs1 c] by simp
  ultimately show ?thesis using r(2) by simp
qed

text \<open>
  (C9) A pass over a row is a run of the core: the settled row is reached by at most
  \<^verbatim>\<open>max_steps\<close> events, the first the given one and the others answers to commands; it counts the
  commands of that run, and among them is at most one stop and at most one execution, so a chatty
  executor cannot spend the stop budget in one pass.
\<close>

theorem settle_is_a_run:
  assumes "settle sha256 ka rw row ev now n w = Inr (w', s)"
  shows "\<exists>ls cs. run (lifecycle_step sha256) row ls = Inr (sd_row s, cs) \<and> length ls \<le> n \<and>
    (ls = [] \<or> fst (hd ls) = ev) \<and> list_all (\<lambda>l. is_observed (fst l)) (tl ls) \<and>
    sd_commands s = length cs \<and> length cs \<le> n \<and>
    count_list cs Stop \<le> 1 \<and> count_list cs Execute \<le> 1"
proof -
  obtain ls cs where r: "run (lifecycle_step sha256) row ls = Inr (sd_row s, cs)" "length ls \<le> n"
    "sd_commands s = length cs" "ls = [] \<or> fst (hd ls) = ev"
    "list_all (\<lambda>l. is_observed (fst l)) (tl ls)"
    by (rule settle_run [OF assms])
  have "length cs \<le> n" using run_length_commands [OF r(1)] r(2) by simp
  moreover have "count_list cs Stop \<le> 1" "count_list cs Execute \<le> 1"
    using run_counts [OF r(1,5)] by simp_all
  ultimately show ?thesis using r by blast
qed

text \<open>An adapter over a log of what was saved and run, for the witnesses.\<close>

definition log_adapter :: "string list kind_adapter" where
  "log_adapter =
     \<lparr>ka_view = (\<lambda>_. \<lparr>ad_irreversible = (\<lambda>_. True), ad_retry_not_before = (\<lambda>_ _. None),
        ad_recovery_deadline = (\<lambda>_. None), ad_actions = (\<lambda>_. [])\<rparr>),
      ka_observe = (\<lambda>_ w. (w @ [''observe''], None)),
      ka_stop = (\<lambda>_ w. (w @ [''stop''], Some Stop_UNCONFIRMED)),
      ka_execute = (\<lambda>_ _ w. w @ [''execute''])\<rparr>"

definition log_writer :: "bool \<Rightarrow> string list row_writer" where
  "log_writer accepts =
     \<lparr>rw_save = (\<lambda>_ a w. Inr (if accepts then w @ [lifecycle_state_value (lc_state a)] else w, accepts)),
      rw_residue = (\<lambda>_ _ w. w @ [''residue''])\<rparr>"

definition executing_row :: lifecycle where
  "executing_row = (new_lifecycle ''order-7'' ''agent'')
     \<lparr>lc_state := S_RUNNING, lc_attempt := 3, lc_fence := Some ''f3'', lc_effect := E_ISSUED\<rparr>"

theorem settle_is_a_run_witness:
  "\<exists>w' s ls cs. settle (\<lambda>s. s) log_adapter (log_writer True) executing_row
      (CancelRequested None None) 0 MAX_STEPS_PER_ROW [] = Inr (w', s) \<and>
     run (lifecycle_step (\<lambda>s. s)) executing_row ls = Inr (sd_row s, cs) \<and>
     length cs \<le> MAX_STEPS_PER_ROW \<and> count_list cs Stop \<le> 1"
proof -
  let ?s = "settle (\<lambda>s. s) log_adapter (log_writer True) executing_row
      (CancelRequested None None) 0 MAX_STEPS_PER_ROW []"
  have "\<not> isl ?s" by code_simp
  then obtain w' s where "?s = Inr (w', s)" by (cases ?s) auto
  from settle_is_a_run [OF this] this show ?thesis by blast
qed

text \<open>
  A decision is saved before its commands run: when the store refuses the first decision of
  a pass (another writer changed the row), the pass ends there, stale, with nothing run and the
  row as it was read.
\<close>

lemma refused_save_runs_nothing:
  assumes "transition sha256 row ev (ka_view ka w) now = Inr d" "d_row d \<noteq> row"
    and "rw_save rw row (d_row d) w = Inr (w1, False)"
  shows "settle sha256 ka rw row ev now (Suc n) w =
    Inr (w1, \<lparr>sd_row = row, sd_changed = 0, sd_commands = 0, sd_stale = True\<rparr>)"
  using assms by (simp add: settle_def)

lemma settle_loop_total:
  assumes "\<And>b a w. \<exists>x. rw_save rw b a w = Inr x"
  shows "lc_id row \<noteq> [] \<Longrightarrow> \<exists>x. settle_loop sha256 ka rw now n row pending changed issued w = Inr x"
proof (induction n arbitrary: row pending changed issued w)
  case (Suc n)
  show ?case
  proof (cases pending)
    case (Some ev)
    obtain d where d: "transition sha256 row ev (ka_view ka w) now = Inr d"
      by (rule transition_total [OF Suc.prems])
    obtain w1 saved where
      sv: "(if d_row d \<noteq> row then rw_save rw row (d_row d) w else Inr (w, True)) = Inr (w1, saved)"
      using assms [of row "d_row d" w] by (cases "d_row d = row") auto
    have "lc_id (d_row d) \<noteq> []"
      using moves_continues [OF transition_moves [OF d]] Suc.prems by (simp add: continues_def)
    from Suc.IH [OF this] show ?thesis
      using Some d sv by (cases saved) (auto split: prod.splits)
  qed simp
qed simp

text \<open>
  (C10) Executor failures never escape the loop: for a named row and a store whose save does not
  raise, every pass returns, also when every observation and every stop raises.
\<close>

theorem settle_always_returns:
  assumes "lc_id row \<noteq> []" "\<forall>b a w. \<exists>x. rw_save rw b a w = Inr x"
  shows "\<exists>w' s. settle sha256 ka rw row ev now n w = Inr (w', s)"
  using settle_loop_total [OF _ assms(1), of rw] assms(2) by (auto simp: settle_def)

theorem settle_always_returns_witness:
  "\<exists>w' s. settle (\<lambda>s. s) log_adapter (log_writer True) executing_row Tick 5 4 [] = Inr (w', s)"
  by (rule settle_always_returns) (auto simp: executing_row_def new_lifecycle_def log_writer_def)

end
