(* ===== verification/Waits.thy ===== *)
theory Waits
  imports Lifecycle_Types
begin

text \<open>
  The persisted waits of durable owners (\<^verbatim>\<open>persisted_waits.py\<close>, \<^verbatim>\<open>wait_contract.py\<close> and
  \<^verbatim>\<open>make_blocker\<close> of \<^verbatim>\<open>operation_blockers.py\<close>): a waiting owner stores evidence of what it
  waits for together with the due time of its next check.

  A reason of the contract's \<^verbatim>\<open>OperationReason\<close> (a union of closed word lists) is its word; which
  words the contract declares is the argument \<open>declared\<close> of the functions that adopt free text.
  The storage, swap and identity documents a blocker carries are opaque texts here.
\<close>

section \<open>Vocabulary and data\<close>

text \<open>\<^verbatim>\<open>WaitResumeCondition\<close>.\<close>

datatype wait_resume_condition =
    Resume_DEPENDENCY_CHANGED
  | Resume_EFFECT_OBSERVED
  | Resume_RETRY_DUE
  | Resume_OPERATOR_ACTION

primrec wait_resume_condition_value :: "wait_resume_condition \<Rightarrow> string" where
  "wait_resume_condition_value Resume_DEPENDENCY_CHANGED = ''dependency-changed''"
| "wait_resume_condition_value Resume_EFFECT_OBSERVED = ''effect-observed''"
| "wait_resume_condition_value Resume_RETRY_DUE = ''retry-due''"
| "wait_resume_condition_value Resume_OPERATOR_ACTION = ''operator-action''"

text \<open>\<^verbatim>\<open>WaitOwnerKind\<close>.\<close>

datatype wait_owner_kind =
    Wok_AGENT_OPERATION
  | Wok_AGENT_UPGRADE
  | Wok_ARTIFACT_JOB
  | Wok_FLEET_PROFILE
  | Wok_IMAGE_AVAILABILITY
  | Wok_PREBUILT_IMAGE
  | Wok_JOB
  | Wok_MODEL_CACHE
  | Wok_RECIPE_OPERATION
  | Wok_RECIPE_UPDATE_BATCH
  | Wok_RUN_SWITCH
  | Wok_STORAGE_RELIEF
  | Wok_CLEANUP
  | Wok_SELECTED_PROFILE
  | Wok_ROUTE_PUBLICATION
  | Wok_ROUTE_RECOVERY
  | Wok_CATALOG_SYNC
  | Wok_CERTIFICATE
  | Wok_CERTIFICATE_REVOCATION
  | Wok_COORDINATOR

primrec wait_owner_kind_value :: "wait_owner_kind \<Rightarrow> string" where
  "wait_owner_kind_value Wok_AGENT_OPERATION = ''agent-operation''"
| "wait_owner_kind_value Wok_AGENT_UPGRADE = ''agent-upgrade''"
| "wait_owner_kind_value Wok_ARTIFACT_JOB = ''artifact-job''"
| "wait_owner_kind_value Wok_FLEET_PROFILE = ''fleet-profile''"
| "wait_owner_kind_value Wok_IMAGE_AVAILABILITY = ''image-availability''"
| "wait_owner_kind_value Wok_PREBUILT_IMAGE = ''prebuilt-image''"
| "wait_owner_kind_value Wok_JOB = ''job''"
| "wait_owner_kind_value Wok_MODEL_CACHE = ''model-cache''"
| "wait_owner_kind_value Wok_RECIPE_OPERATION = ''recipe-operation''"
| "wait_owner_kind_value Wok_RECIPE_UPDATE_BATCH = ''recipe-update-batch''"
| "wait_owner_kind_value Wok_RUN_SWITCH = ''run-switch''"
| "wait_owner_kind_value Wok_STORAGE_RELIEF = ''storage-relief''"
| "wait_owner_kind_value Wok_CLEANUP = ''cleanup''"
| "wait_owner_kind_value Wok_SELECTED_PROFILE = ''selected-profile''"
| "wait_owner_kind_value Wok_ROUTE_PUBLICATION = ''route-publication''"
| "wait_owner_kind_value Wok_ROUTE_RECOVERY = ''route-recovery''"
| "wait_owner_kind_value Wok_CATALOG_SYNC = ''catalog-sync''"
| "wait_owner_kind_value Wok_CERTIFICATE = ''certificate''"
| "wait_owner_kind_value Wok_CERTIFICATE_REVOCATION = ''certificate-revocation''"
| "wait_owner_kind_value Wok_COORDINATOR = ''coordinator''"

definition STALLED_ALARM :: string where
  "STALLED_ALARM = ''progress.stalled''"

record blocking_operation =
  bo_id :: string
  bo_kind :: string

record operation_blocker =
  ob_code :: string
  ob_detail :: string
  ob_severity :: string
  ob_node_ids :: "string list"
  ob_identity_conflict :: "string option"
  ob_operation :: "blocking_operation option"
  ob_storage :: "string option"
  ob_swap :: "string option"
  ob_run_id :: "string option"

record wait_evidence =
  we_owner :: blocking_operation
  we_owner_kind :: wait_owner_kind
  we_reason :: string
  we_blockers :: "operation_blocker list"
  we_first_blocked_at :: instant
  we_last_progress_at :: "instant option"
  we_dependency_deadline :: "instant option"
  we_resume_condition :: wait_resume_condition
  we_operator_action :: "operator_action_name option"

text \<open>The stored document: evidence, or a document that cannot be read.\<close>

datatype stored_evidence = Readable wait_evidence | Unreadable

record wait_owner =
  wo_evidence :: "stored_evidence option"
  wo_next_action_at :: "instant option"

section \<open>Readers and writers\<close>

text \<open>
  \<^verbatim>\<open>BlockingOperation(id=..., kind=...)\<close>: the contract refuses an empty or over-long id. The kinds
  of \<^verbatim>\<open>WaitOwnerKind\<close> are within its bounds.
\<close>

definition blocking_operation_of :: "string \<Rightarrow> string \<Rightarrow> blocking_operation result" where
  "blocking_operation_of ident kind =
     (if ident = [] \<or> 128 < length ident \<or> kind = [] \<or> 80 < length kind
      then Inl ValueError else Inr \<lparr>bo_id = ident, bo_kind = kind\<rparr>)"

text \<open>\<^verbatim>\<open>make_blocker(code, detail)\<close> with its default severity and no nodes.\<close>

definition make_blocker :: "string \<Rightarrow> string \<Rightarrow> operation_blocker" where
  "make_blocker code detail =
     \<lparr>ob_code = code,
      ob_detail = take 512 (str_or_else (Some detail) (str_or_else (Some code) ''waiting'')),
      ob_severity = ''warning'', ob_node_ids = [], ob_identity_conflict = None,
      ob_operation = None, ob_storage = None, ob_swap = None, ob_run_id = None\<rparr>"

definition typed_wait_reason :: "(string \<Rightarrow> bool) \<Rightarrow> string option \<Rightarrow> string \<Rightarrow> string" where
  "typed_wait_reason declared value fallback =
     (case value of None \<Rightarrow> fallback | Some v \<Rightarrow> (if declared v then v else fallback))"

definition read_wait :: "wait_owner \<Rightarrow> (wait_evidence \<times> instant) option" where
  "read_wait owner =
     (case wo_evidence owner of
        Some (Readable e) \<Rightarrow>
          (case wo_next_action_at owner of None \<Rightarrow> None | Some t \<Rightarrow> Some (e, t))
      | _ \<Rightarrow> None)"

definition clear_wait :: "wait_owner \<Rightarrow> wait_owner \<times> bool" where
  "clear_wait owner =
     (owner\<lparr>wo_evidence := None, wo_next_action_at := None\<rparr>,
      wo_evidence owner \<noteq> None \<or> wo_next_action_at owner \<noteq> None)"

text \<open>What makes two blocker lists the same dependency.\<close>

definition dependency_key ::
  "operation_blocker list
     \<Rightarrow> (string \<times> blocking_operation option \<times> string list \<times> string option \<times> string option) list"
  where
  "dependency_key blockers =
     map (\<lambda>b. (ob_code b, ob_operation b, ob_node_ids b, ob_run_id b, ob_identity_conflict b))
       (filter (\<lambda>b. ob_code b \<noteq> STALLED_ALARM) blockers)"

definition same_dependency ::
  "(wait_evidence \<times> instant) option \<Rightarrow> string \<Rightarrow> operation_blocker list \<Rightarrow> bool" where
  "same_dependency previous reason blockers =
     (case previous of
        None \<Rightarrow> False
      | Some (p, _) \<Rightarrow>
          we_reason p = reason \<and> dependency_key (we_blockers p) = dependency_key blockers)"

fun min_opt :: "instant option \<Rightarrow> instant option \<Rightarrow> instant option" where
  "min_opt None b = b"
| "min_opt (Some a) None = Some a"
| "min_opt (Some a) (Some b) = Some (min a b)"

definition write_wait ::
  "wait_owner \<Rightarrow> blocking_operation \<Rightarrow> wait_owner_kind \<Rightarrow> string \<Rightarrow> instant \<Rightarrow> instant
     \<Rightarrow> operation_blocker list \<Rightarrow> wait_resume_condition \<Rightarrow> instant option \<Rightarrow> instant option
     \<Rightarrow> operator_action_name option \<Rightarrow> (wait_owner \<times> bool) result" where
  "write_wait owner ident kind reason now next_check blockers resume deadline progress act =
     (let previous = read_wait owner;
          same = same_dependency previous reason blockers;
          evidence =
            \<lparr>we_owner = ident, we_owner_kind = kind, we_reason = reason, we_blockers = blockers,
             we_first_blocked_at =
               (case previous of
                  Some (p, _) \<Rightarrow> (if same then we_first_blocked_at p else now) | None \<Rightarrow> now),
             we_last_progress_at =
               (case progress of
                  Some t \<Rightarrow> Some t
                | None \<Rightarrow> (case previous of Some (p, _) \<Rightarrow> we_last_progress_at p | None \<Rightarrow> None)),
             we_dependency_deadline =
               min_opt
                 (case previous of
                    Some (p, _) \<Rightarrow> (if same then we_dependency_deadline p else None)
                  | None \<Rightarrow> None)
                 deadline,
             we_resume_condition = resume, we_operator_action = act\<rparr>
      in if blockers = [] then Inl ValueError
         else Inr (owner\<lparr>wo_evidence := Some (Readable evidence), wo_next_action_at := Some next_check\<rparr>,
                   wo_evidence owner \<noteq> Some (Readable evidence)
                     \<or> wo_next_action_at owner \<noteq> Some next_check))"

text \<open>Whether a lifecycle state is a wait of its owner.\<close>

definition waiting_state :: "lifecycle_state \<Rightarrow> instant option \<Rightarrow> instant option \<Rightarrow> bool" where
  "waiting_state state due_at lease \<longleftrightarrow>
     state \<in> {S_BACKOFF, S_OBSERVING, S_NEEDS_OPERATOR}
     \<or> (state = S_QUEUED \<and> due_at \<noteq> None)
     \<or> (state = S_RUNNING \<and> due_at \<noteq> None \<and> lease = None)"

definition resume_condition_of :: "lifecycle_state \<Rightarrow> bool \<Rightarrow> wait_resume_condition" where
  "resume_condition_of state cancelling =
     (if cancelling \<or> state = S_OBSERVING then Resume_EFFECT_OBSERVED
      else if state = S_NEEDS_OPERATOR then Resume_OPERATOR_ACTION
      else if state = S_BACKOFF \<or> state = S_QUEUED then Resume_RETRY_DUE
      else Resume_DEPENDENCY_CHANGED)"

text \<open>
  \<^verbatim>\<open>lifecycle_wait\<close>: the write every lifecycle adapter shares. An explicit \<open>reason\<close> is a typed
  word; \<open>blockers\<close> is the empty list where the source passes none.
\<close>

definition lifecycle_wait ::
  "(string \<Rightarrow> bool) \<Rightarrow> wait_owner \<Rightarrow> string \<Rightarrow> wait_owner_kind \<Rightarrow> lifecycle_state \<Rightarrow> instant
     \<Rightarrow> instant option \<Rightarrow> string option \<Rightarrow> string option \<Rightarrow> operation_blocker list
     \<Rightarrow> instant option \<Rightarrow> bool \<Rightarrow> instant option \<Rightarrow> operator_action_name option
     \<Rightarrow> (wait_owner \<times> bool) result" where
  "lifecycle_wait declared owner ident kind state now due_at detail reason blockers deadline
     cancelling lease act =
     (if \<not> waiting_state state due_at lease then Inr (clear_wait owner)
      else
        (let previous = read_wait owner;
             fallback = wait_reason_value
               (if cancelling then W_STOP_UNCONFIRMED else W_OBSERVATION_UNAVAILABLE);
             code0 = opt_or reason
               (typed_wait_reason declared
                  (case blockers of b # _ \<Rightarrow> Some (ob_code b) | [] \<Rightarrow> detail) fallback);
             adopted = (reason = None \<and> blockers = [] \<and> code0 = fallback \<and> previous \<noteq> None);
             code = (if adopted then we_reason (fst (the previous)) else code0);
             held = (if adopted then we_blockers (fst (the previous)) else blockers)
         in res_bind (blocking_operation_of ident (wait_owner_kind_value kind)) (\<lambda>owner_ref.
              write_wait owner owner_ref kind code now (case due_at of Some d \<Rightarrow> d | None \<Rightarrow> now)
                (if held \<noteq> [] then held
                 else [(make_blocker code (str_or_else detail code))
                         \<lparr>ob_operation := Some owner_ref\<rparr>])
                (resume_condition_of state cancelling) deadline None act)))"

text \<open>
  \<^verbatim>\<open>wait_due\<close>: the due field; for a row from before the contract (no evidence at all) the instant
  \<open>legacy\<close> that its progress document holds.
\<close>

definition wait_due :: "wait_owner \<Rightarrow> instant option \<Rightarrow> instant option" where
  "wait_due owner legacy =
     (case wo_next_action_at owner of
        Some t \<Rightarrow> Some t
      | None \<Rightarrow> (if wo_evidence owner \<noteq> None then None else legacy))"

text \<open>
  \<^verbatim>\<open>schedule_wait\<close>: \<open>ident\<close> and \<open>kind\<close> are the owner's identity, \<open>observed_at\<close> the given time or else
  the owner's \<^verbatim>\<open>updated_at\<close>.
\<close>

definition schedule_wait ::
  "wait_owner \<Rightarrow> blocking_operation \<Rightarrow> wait_owner_kind \<Rightarrow> instant option \<Rightarrow> instant option
     \<Rightarrow> string option \<Rightarrow> operation_blocker list \<Rightarrow> instant option \<Rightarrow> string option
     \<Rightarrow> (wait_owner \<times> bool) result" where
  "schedule_wait owner ident kind observed_at next_check reason blockers deadline detail =
     (case next_check of
        None \<Rightarrow> Inr (clear_wait owner)
      | Some t \<Rightarrow>
          (let previous = map_option fst (read_wait owner);
               code = opt_or reason (case previous of
                 Some p \<Rightarrow> we_reason p | None \<Rightarrow> wait_reason_value W_OBSERVATION_UNAVAILABLE);
               own = [(make_blocker code (str_or_else detail code))\<lparr>ob_operation := Some ident\<rparr>]
           in write_wait owner ident kind code (opt_or observed_at t) t
                (if blockers \<noteq> [] then blockers
                 else case previous of
                   Some p \<Rightarrow>
                     (if detail = None \<and> (reason = None \<or> reason = Some (we_reason p))
                      then we_blockers p else own)
                 | None \<Rightarrow> own)
                (case previous of
                   Some p \<Rightarrow> we_resume_condition p | None \<Rightarrow> Resume_DEPENDENCY_CHANGED)
                (case deadline of
                   Some d \<Rightarrow> Some d
                 | None \<Rightarrow> (case previous of Some p \<Rightarrow> we_dependency_deadline p | None \<Rightarrow> None))
                None
                (case previous of Some p \<Rightarrow> we_operator_action p | None \<Rightarrow> None)))"

section \<open>Evidence and schedule change together\<close>

text \<open>Evidence that has a due time: the shape every write leaves.\<close>

definition paired :: "wait_owner \<Rightarrow> bool" where
  "paired owner \<longleftrightarrow>
     (case wo_evidence owner of
        None \<Rightarrow> wo_next_action_at owner = None
      | Some (Readable e) \<Rightarrow> wo_next_action_at owner \<noteq> None \<and> we_blockers e \<noteq> []
      | Some Unreadable \<Rightarrow> False)"

lemma write_wait_paired:
  "write_wait owner ident kind reason now t bs rc dl pr act = Inr (owner', changed) \<Longrightarrow>
     paired owner' \<and> wo_next_action_at owner' = Some t"
  by (auto simp: write_wait_def Let_def paired_def split: if_splits)

lemma wait_owner_kind_bounds:
  "wait_owner_kind_value k \<noteq> [] \<and> length (wait_owner_kind_value k) \<le> 80"
  by (cases k) simp_all

lemma lifecycle_wait_total:
  assumes "ident \<noteq> []" "length ident \<le> 128"
  obtains owner' changed where
    "lifecycle_wait declared owner ident kind state now due_at detail reason bs dl c lease act
       = Inr (owner', changed)"
proof -
  have kind: "\<not> 80 < length (wait_owner_kind_value kind)" "wait_owner_kind_value kind \<noteq> []"
    using wait_owner_kind_bounds [of kind] by auto
  have "\<exists>owner' changed. lifecycle_wait declared owner ident kind state now due_at detail reason bs
      dl c lease act = Inr (owner', changed)"
    using assms kind
    by (simp add: lifecycle_wait_def Let_def blocking_operation_of_def write_wait_def clear_wait_def
        del: wait_owner_kind_value.simps)
  with that show ?thesis by blast
qed

lemma lifecycle_wait_paired:
  assumes "lifecycle_wait declared owner ident kind state now due_at detail reason bs dl c lease act
       = Inr (owner', changed)"
  shows "paired owner'"
    "wo_next_action_at owner' =
       (if waiting_state state due_at lease then Some (opt_or due_at now) else None)"
proof -
  show "paired owner'"
    using assms by (auto simp: lifecycle_wait_def Let_def clear_wait_def paired_def
        split: if_splits dest!: write_wait_paired)
  show "wo_next_action_at owner' =
       (if waiting_state state due_at lease then Some (opt_or due_at now) else None)"
    using assms by (cases due_at) (auto simp: lifecycle_wait_def Let_def clear_wait_def
        split: if_splits dest!: write_wait_paired)
qed

text \<open>A schedule is written whole: its due time with evidence, or neither.\<close>

lemma schedule_wait_paired:
  assumes "schedule_wait owner ident kind obs t reason bs dl detail = Inr (owner', changed)"
  shows "paired owner' \<and> wo_next_action_at owner' = t"
  using assms
  by (cases t) (auto simp: schedule_wait_def Let_def clear_wait_def paired_def
      dest!: write_wait_paired)

text \<open>Evidence that was written by a writer lets the next schedule be written.\<close>

lemma schedule_wait_total:
  assumes "paired owner \<or> wo_evidence owner = Some Unreadable \<or> wo_evidence owner = None"
  obtains owner' changed where
    "schedule_wait owner ident kind obs t reason bs dl detail = Inr (owner', changed)"
proof -
  have "\<exists>owner' changed. schedule_wait owner ident kind obs t reason bs dl detail
      = Inr (owner', changed)"
    using assms
    by (cases t) (auto simp: schedule_wait_def Let_def write_wait_def read_wait_def paired_def
        clear_wait_def split: option.splits stored_evidence.splits if_splits)
  with that show ?thesis by blast
qed

text \<open>
  A repeated wait for the same dependency keeps its history: the time it was first blocked,
  the last measured progress, and a dependency deadline that never moves later; a different
  dependency starts afresh.
\<close>

lemma same_wait_keeps_its_clocks:
  assumes "read_wait owner = Some (p, t)"
    and "write_wait owner ident kind reason now next bs rc dl None act = Inr (owner', changed)"
  shows "\<exists>e. wo_evidence owner' = Some (Readable e) \<and> we_reason e = reason \<and>
    we_last_progress_at e = we_last_progress_at p \<and>
    (same_dependency (Some (p, t)) reason bs \<longrightarrow>
       we_first_blocked_at e = we_first_blocked_at p \<and>
       (\<forall>d. we_dependency_deadline p = Some d \<longrightarrow>
          (\<exists>d'. we_dependency_deadline e = Some d' \<and> d' \<le> d))) \<and>
    (\<not> same_dependency (Some (p, t)) reason bs \<longrightarrow>
       we_first_blocked_at e = now \<and> we_dependency_deadline e = dl)"
proof -
  have "\<exists>d'. min_opt (Some d) dl = Some d' \<and> d' \<le> d" for d
    by (cases dl) auto
  then show ?thesis
    using assms by (auto simp: write_wait_def Let_def split: if_splits)
qed

end
