(* ===== verification/Jobs.thy ===== *)
theory Jobs
  imports Reconciler Waits
begin

text \<open>
  The lifecycle adapter of a generic stored job (\<^verbatim>\<open>lifecycle/job.py\<close>, with \<^verbatim>\<open>job_states.py\<close>): a
  \<^verbatim>\<open>Job\<close> row and its \<^verbatim>\<open>JobAttempt\<close> rows, how they map onto the core and how a decision is written
  back. Of the stored row the model keeps the columns this code reads or writes; a result document
  is its text, and of the payload only the ordinal and of the result only the superseding request.
  \<open>redact\<close> stands for \<^verbatim>\<open>redact_text\<close> and \<open>declared\<close> for the contract's reason words.
\<close>

section \<open>Rows\<close>

record job =
  jb_id :: string
  jb_kind :: string
  jb_state :: string
  jb_current_attempt :: int
  jb_ordinal :: "int option"
  jb_superseded_by :: "string option"
  jb_result :: "string option"
  jb_status_reason :: "string option"
  jb_created_at :: instant
  jb_updated_at :: instant
  jb_wait :: wait_owner
  jb_legacy_due :: "instant option"

record job_attempt =
  ja_job_id :: string
  ja_attempt :: int
  ja_fence :: string
  ja_worker_id :: string
  ja_lease_deadline :: instant
  ja_state :: string
  ja_observation_cause :: "string option"

section \<open>Words\<close>

definition job_core :: "string \<Rightarrow> lifecycle_state option" where
  "job_core stored = adopt_state Subject_JOB stored"

text \<open>\<^verbatim>\<open>_STORED\<close>: the word of a state; a state without one is a \<^verbatim>\<open>KeyError\<close>.\<close>

definition WAITING :: string where
  "WAITING = lifecycle_state_value S_NEEDS_OPERATOR"

fun job_stored :: "lifecycle_state \<Rightarrow> string result" where
  "job_stored S_QUEUED = Inr ''queued''"
| "job_stored S_BACKOFF = Inr ''queued''"
| "job_stored S_RUNNING = Inr ''running''"
| "job_stored S_OBSERVING = Inr ''running''"
| "job_stored S_NEEDS_OPERATOR = Inr WAITING"
| "job_stored S_SUCCEEDED = Inr ''succeeded''"
| "job_stored S_FAILED = Inr ''failed''"
| "job_stored S_CANCELLED = Inr ''cancelled''"
| "job_stored S_SUPERSEDED = Inl KeyError"

text \<open>\<^verbatim>\<open>job_states.lapse\<close>: the attempt can no longer report.\<close>

definition lapse :: "job_attempt \<Rightarrow> job_attempt" where
  "lapse a = a\<lparr>ja_state := lifecycle_state_value S_OBSERVING,
               ja_observation_cause := Some ''lease-lapsed''\<rparr>"

section \<open>Adopting a stored job\<close>

definition job_lifecycle :: "job \<Rightarrow> job_attempt option \<Rightarrow> lifecycle" where
  "job_lifecycle job attempt =
     (let state = opt_or (job_core (jb_state job)) S_NEEDS_OPERATOR;
          live = (if state = S_RUNNING then attempt else None)
      in (new_lifecycle (jb_id job) ''job'')
           \<lparr>lc_state := state, lc_attempt := jb_current_attempt job,
            lc_fence := map_option ja_fence live,
            lc_lease_deadline := map_option ja_lease_deadline live,
            lc_intent_ordinal := jb_ordinal job,
            lc_effect := (if state = S_SUCCEEDED then E_ESTABLISHED
                          else if state = S_CANCELLED then E_STOPPED
                          else if jb_current_attempt job \<noteq> 0 then E_ISSUED else E_NONE),
            lc_next_action_at := wait_due (jb_wait job) (jb_legacy_due job),
            lc_reason := jb_status_reason job\<rparr>)"

definition job_adopt :: "job \<Rightarrow> lifecycle" where
  "job_adopt job = job_lifecycle job None"

text \<open>\<^verbatim>\<open>irreversible\<close>, \<^verbatim>\<open>retry_not_before\<close> and \<^verbatim>\<open>actions\<close>; the adapter has no recovery deadline.\<close>

definition job_actions :: "lifecycle \<Rightarrow> string list" where
  "job_actions row = (if lc_state row = S_NEEDS_OPERATOR then [action A_RESUME] else [])"

definition job_view :: adapter where
  "job_view = \<lparr>ad_irreversible = (\<lambda>_. False), ad_retry_not_before = (\<lambda>_ _. None),
     ad_recovery_deadline = (\<lambda>_. None), ad_actions = job_actions\<rparr>"

section \<open>Writing a decision\<close>

definition set_reason ::
  "(string \<Rightarrow> string) \<Rightarrow> lifecycle \<Rightarrow> string option \<Rightarrow> string option \<Rightarrow> string option" where
  "set_reason redact after reason old =
     (case reason of
        Some r \<Rightarrow> (if r = [] then None else Some (take 1024 (redact r)))
      | None \<Rightarrow>
          (if (lc_state after = S_QUEUED \<or> lc_state after = S_BACKOFF)
              \<and> (lc_reason after = None \<or> lc_reason after = Some [])
           then None else old))"

definition job_apply ::
  "(string \<Rightarrow> string) \<Rightarrow> (string \<Rightarrow> bool) \<Rightarrow> job \<Rightarrow> job_attempt option \<Rightarrow> lifecycle \<Rightarrow> instant
     \<Rightarrow> string option \<Rightarrow> string option \<Rightarrow> (job \<times> job_attempt option) result" where
  "job_apply redact declared job attempt after now outcome reason =
     res_bind (job_stored (lc_state after)) (\<lambda>stored.
       res_map
         (\<lambda>(wait, changed).
            (job\<lparr>jb_wait := wait, jb_state := stored, jb_updated_at := now,
                 jb_result := (case outcome of None \<Rightarrow> jb_result job | Some r \<Rightarrow> Some r),
                 jb_status_reason := set_reason redact after reason (jb_status_reason job)\<rparr>,
             if terminal after then map_option (\<lambda>a. a\<lparr>ja_state := stored\<rparr>) attempt else attempt))
         (lifecycle_wait declared (jb_wait job) (jb_id job) Wok_JOB (lc_state after) now
            (lc_next_action_at after) (lc_reason after) None [] (lc_recovery_deadline after)
            (cancel_requested after) (lc_lease_deadline after)
            (if job_actions after \<noteq> [] then Some A_RESUME else None)))"

text \<open>The operations the loop calls; the world is the job and the attempt the caller passes.\<close>

definition job_kind_adapter :: "(job \<times> job_attempt option) kind_adapter" where
  "job_kind_adapter =
     \<lparr>ka_view = (\<lambda>_. job_view),
      ka_observe = (\<lambda>_ w. (w, Some (E_UNKNOWN, Some ''a generic job has no effect to inspect''))),
      ka_stop = (\<lambda>_ w. (w, Some Stop_UNCONFIRMED)),
      ka_execute = (\<lambda>_ _ w. w)\<rparr>"

definition job_writer ::
  "(string \<Rightarrow> string) \<Rightarrow> (string \<Rightarrow> bool) \<Rightarrow> instant \<Rightarrow> string option \<Rightarrow> string option
     \<Rightarrow> string option \<Rightarrow> (job \<times> job_attempt option) row_writer" where
  "job_writer redact declared now outcome reason guard =
     \<lparr>rw_save = (\<lambda>before after w. case w of (job, attempt) \<Rightarrow>
        (case guard of
           Some g \<Rightarrow> (if jb_state job \<noteq> g then Inr (w, False)
                      else res_map (\<lambda>w'. (w', True))
                             (job_apply redact declared job attempt after now outcome reason))
         | None \<Rightarrow> res_map (\<lambda>w'. (w', True))
                     (job_apply redact declared job attempt after now outcome reason))),
      rw_residue = (\<lambda>_ _ w. w)\<rparr>"

text \<open>
  \<^verbatim>\<open>JobAdapter.settle\<close>: \<open>stored\<close> is the current attempt the session finds when the caller passes
  none.
\<close>

definition job_settle ::
  "(string \<Rightarrow> string) \<Rightarrow> (string \<Rightarrow> string) \<Rightarrow> (string \<Rightarrow> bool) \<Rightarrow> job \<Rightarrow> job_attempt option
     \<Rightarrow> job_attempt option \<Rightarrow> event \<Rightarrow> instant \<Rightarrow> string option \<Rightarrow> string option \<Rightarrow> string option
     \<Rightarrow> ((job \<times> job_attempt option) \<times> settled) result" where
  "job_settle sha256 redact declared job attempt stored ev now outcome reason guard =
     settle sha256 job_kind_adapter (job_writer redact declared now outcome reason guard)
       (job_lifecycle job (case attempt of None \<Rightarrow> stored | Some a \<Rightarrow> Some a)) ev now
       MAX_STEPS_PER_ROW (job, attempt)"

section \<open>Claim, lease and end\<close>

text \<open>The row a claim starts from: a running job's lease lapsed, which the core decides first.\<close>

definition claim_row ::
  "(string \<Rightarrow> string) \<Rightarrow> job \<Rightarrow> job_attempt option \<Rightarrow> instant \<Rightarrow> lifecycle result" where
  "claim_row sha256 job previous now =
     (let row = job_lifecycle job previous
      in if lc_state row = S_RUNNING
         then res_map (\<lambda>d. (d_row d)\<lparr>lc_next_action_at := None\<rparr>)
                (transition sha256 row (LeaseLapsed (Some ''the attempt lease lapsed'')) job_view now)
         else Inr row)"

text \<open>
  \<^verbatim>\<open>JobAdapter.claim\<close>: the job, the previous attempt as it is left, and the new attempt; \<open>None\<close>
  when the job is not claimable.
\<close>

definition job_claim ::
  "(string \<Rightarrow> string) \<Rightarrow> (string \<Rightarrow> string) \<Rightarrow> (string \<Rightarrow> bool) \<Rightarrow> job \<Rightarrow> job_attempt option
     \<Rightarrow> string \<Rightarrow> string \<Rightarrow> instant \<Rightarrow> instant
     \<Rightarrow> (job \<times> job_attempt option \<times> job_attempt) option result" where
  "job_claim sha256 redact declared job previous worker fence lease now =
     res_bind (claim_row sha256 job previous now) (\<lambda>row.
     res_bind (transition sha256 row (Claimed (lc_attempt row + 1) fence lease) job_view now) (\<lambda>d.
       let claimed = d_row d
       in if lc_state claimed \<noteq> S_RUNNING \<or> lc_attempt claimed \<noteq> lc_attempt row + 1 then Inr None
          else res_map
            (\<lambda>(job', _).
               Some (job'\<lparr>jb_state := ''running'', jb_updated_at := now\<rparr>, map_option lapse previous,
                     \<lparr>ja_job_id = jb_id job, ja_attempt = lc_attempt claimed, ja_fence = fence,
                      ja_worker_id = worker, ja_lease_deadline = lease, ja_state = ''running'',
                      ja_observation_cause = None\<rparr>))
            (job_apply redact declared (job\<lparr>jb_current_attempt := lc_attempt claimed\<rparr>) None claimed
               now None None)))"

definition job_heartbeat ::
  "(string \<Rightarrow> string) \<Rightarrow> job \<Rightarrow> job_attempt \<Rightarrow> instant \<Rightarrow> instant
     \<Rightarrow> (job \<times> job_attempt \<times> bool) result" where
  "job_heartbeat sha256 job attempt lease now =
     res_map
       (\<lambda>d. if lc_lease_deadline (d_row d) \<noteq> Some lease then (job, attempt, False)
            else (job\<lparr>jb_updated_at := now\<rparr>, attempt\<lparr>ja_lease_deadline := lease\<rparr>, True))
       (transition sha256 (job_lifecycle job (Some attempt))
          (Heartbeat (Some (ja_fence attempt)) lease) job_view now)"

definition job_finish ::
  "(string \<Rightarrow> string) \<Rightarrow> (string \<Rightarrow> string) \<Rightarrow> (string \<Rightarrow> bool) \<Rightarrow> job \<Rightarrow> job_attempt \<Rightarrow> bool
     \<Rightarrow> string option \<Rightarrow> string option \<Rightarrow> instant \<Rightarrow> (job \<times> job_attempt \<times> bool) result" where
  "job_finish sha256 redact declared job attempt succeeded outcome reason now =
     (let row = job_lifecycle job (Some attempt)
      in if terminal row
         then res_map (\<lambda>stored. (job, attempt\<lparr>ja_state := stored\<rparr>, False)) (job_stored (lc_state row))
         else
           (let report = (if succeeded
                  then (plain_report O_DONE)\<lparr>rp_fence := Some (ja_fence attempt), rp_reason := reason\<rparr>
                  else failed_report (Cause_disposition D_FAIL) (Some (ja_fence attempt)) None reason
                         None)
            in res_bind (transition sha256 row (Reported report) job_view now) (\<lambda>d.
                 if \<not> terminal (d_row d) then Inr (job, attempt, False)
                 else res_map
                   (\<lambda>(job', attempt').
                      (job'\<lparr>jb_result := outcome,
                            jb_status_reason := (case reason of
                              None \<Rightarrow> None
                            | Some r \<Rightarrow> (if r = [] then None else Some (take 1024 (redact r))))\<rparr>,
                       case attempt' of Some a \<Rightarrow> a | None \<Rightarrow> attempt, True))
                   (job_apply redact declared job (Some attempt) (d_row d) now outcome None))))"

text \<open>\<^verbatim>\<open>JobAdapter.resume\<close>.\<close>

definition job_resume ::
  "(string \<Rightarrow> string) \<Rightarrow> (string \<Rightarrow> string) \<Rightarrow> (string \<Rightarrow> bool) \<Rightarrow> job \<Rightarrow> job_attempt option
     \<Rightarrow> instant \<Rightarrow> (job \<times> bool) result" where
  "job_resume sha256 redact declared job stored now =
     res_map
       (\<lambda>((job', _), s). (job', \<not> sd_stale s \<and> sd_changed s > 0 \<and> jb_state job' = ''queued''))
       (job_settle sha256 redact declared job None stored (OperatorAction ''resume'' None) now None
          (Some []) (Some WAITING))"

section \<open>What is written\<close>

lemma job_apply_fields:
  "job_apply redact declared job attempt after now outcome reason = Inr (job', attempt') \<Longrightarrow>
     jb_id job' = jb_id job \<and> jb_current_attempt job' = jb_current_attempt job \<and>
     jb_kind job' = jb_kind job \<and> job_stored (lc_state after) = Inr (jb_state job') \<and>
     (attempt' = attempt \<or>
       (\<exists>a. attempt = Some a \<and> attempt' = Some (a\<lparr>ja_state := jb_state job'\<rparr>) \<and> terminal after))"
  by (cases attempt) (auto simp: job_apply_def split: if_splits)

lemma job_apply_total:
  assumes "jb_id job \<noteq> []" "length (jb_id job) \<le> 128" "lc_state after \<noteq> S_SUPERSEDED"
  obtains job' attempt' where
    "job_apply redact declared job attempt after now outcome reason = Inr (job', attempt')"
proof -
  obtain w where w: "job_stored (lc_state after) = Inr w"
    using assms(3) by (cases "lc_state after") auto
  obtain o' ch where "lifecycle_wait declared (jb_wait job) (jb_id job) Wok_JOB (lc_state after) now
      (lc_next_action_at after) (lc_reason after) None [] (lc_recovery_deadline after)
      (cancel_requested after) (lc_lease_deadline after)
      (if job_actions after \<noteq> [] then Some A_RESUME else None) = Inr (o', ch)"
    by (rule lifecycle_wait_total [OF assms(1,2)])
  with w that show ?thesis by (auto simp: job_apply_def)
qed

text \<open>The stored word is the row's, as written or as adopted.\<close>

definition job_displays :: "job \<times> job_attempt option \<Rightarrow> lifecycle \<Rightarrow> bool" where
  "job_displays w row \<longleftrightarrow>
     job_stored (lc_state row) = Inr (jb_state (fst w))
     \<or> lc_state row = opt_or (job_core (jb_state (fst w))) S_NEEDS_OPERATOR"

interpretation jobs: row_store job_kind_adapter
  "job_writer redact declared now outcome reason guard" job_displays
  for redact declared now outcome reason guard
proof
  fix b a w w'
  assume "rw_save (job_writer redact declared now outcome reason guard) b a w = Inr (w', True)"
  then obtain job attempt where
    "job_apply redact declared job attempt a now outcome reason = Inr (fst w', snd w')"
    by (auto simp: job_writer_def split: option.splits if_splits prod.splits)
  from job_apply_fields [OF this] show "job_displays w' a" by (simp add: job_displays_def)
next
  fix b a w w'
  assume "rw_save (job_writer redact declared now outcome reason guard) b a w = Inr (w', False)"
  then show "w' = w"
    by (auto simp: job_writer_def split: option.splits if_splits prod.splits)
next
  fix w row c w' answer
  assume "job_displays w row"
    "run_command job_kind_adapter (job_writer redact declared now outcome reason guard) row c w
       = (w', answer)"
  then show "job_displays w' row"
    by (auto simp: run_command_def job_kind_adapter_def job_writer_def split: command.splits)
qed

lemma job_lifecycle_fields [simp]:
  "lc_id (job_lifecycle job a) = jb_id job"
  "lc_state (job_lifecycle job a) = opt_or (job_core (jb_state job)) S_NEEDS_OPERATOR"
  "lc_attempt (job_lifecycle job a) = jb_current_attempt job"
  "lc_cancel_requested_at (job_lifecycle job a) = None"
  "lc_recovery_deadline (job_lifecycle job a) = None"
  by (simp_all add: job_lifecycle_def Let_def new_lifecycle_def)

lemma job_view_fields [simp]:
  "ad_irreversible job_view row = False" "ad_recovery_deadline job_view row = None"
  "ad_actions job_view = job_actions"
  by (simp_all add: job_view_def)


definition example_job :: job where
  "example_job =
     \<lparr>jb_id = ''job-1'', jb_kind = ''reconcile'', jb_state = ''running'', jb_current_attempt = 1,
      jb_ordinal = None, jb_superseded_by = None, jb_result = None, jb_status_reason = None,
      jb_created_at = 0, jb_updated_at = 0,
      jb_wait = \<lparr>wo_evidence = None, wo_next_action_at = None\<rparr>, jb_legacy_due = None\<rparr>"

definition example_attempt :: job_attempt where
  "example_attempt =
     \<lparr>ja_job_id = ''job-1'', ja_attempt = 1, ja_fence = ''f1'', ja_worker_id = ''w1'',
      ja_lease_deadline = seconds 30, ja_state = ''running'', ja_observation_cause = None\<rparr>"


section \<open>Claims\<close>

text \<open>The states a claim takes a job from.\<close>

definition claimable :: "job \<Rightarrow> instant \<Rightarrow> bool" where
  "claimable job now \<longleftrightarrow>
     (case job_core (jb_state job) of
        Some S_QUEUED \<Rightarrow> True
      | Some S_RUNNING \<Rightarrow> True
      | Some S_BACKOFF \<Rightarrow>
          (case wait_due (jb_wait job) (jb_legacy_due job) of None \<Rightarrow> True | Some t \<Rightarrow> t \<le> now)
      | _ \<Rightarrow> False)"

lemma lapsed_job_row:
  assumes "jb_id job \<noteq> []" "job_core (jb_state job) = Some S_RUNNING"
  obtains row where "claim_row sha256 job previous now = Inr row" "lc_state row = S_BACKOFF"
    "lc_next_action_at row = None" "lc_attempt row = jb_current_attempt job"
    "\<not> cancel_requested row" "lc_id row = jb_id job"
proof -
  let ?row = "job_lifecycle job previous"
  let ?t = "transition sha256 ?row (LeaseLapsed (Some ''the attempt lease lapsed'')) job_view now"
  have nc: "\<not> cancel_requested ?row" by (simp add: cancel_requested_def)
  have "?t = retry sha256 ?row now job_view (lc_effect ?row)
      (Some ''the attempt lease lapsed'') None True"
    using assms(2) nc
    by (simp add: transition_def terminal_def expired_def dispatch_def lapsed_def uncertain_def
        blind_retry_is_safe_def)
  moreover obtain t where "due sha256 ?row (lc_retry_count ?row + of_flag True) now
      (Some job_view) None = Inr t"
    by (rule due_defined [of ?row]) (use assms(1) in simp)
  ultimately have "?t = Inr (decide (?row\<lparr>lc_state := S_BACKOFF,
      lc_retry_count := lc_retry_count ?row + 1, lc_observe_count := 0,
      lc_next_action_at := Some t, lc_lease_deadline := None, lc_effect := lc_effect ?row,
      lc_reason := Some ''the attempt lease lapsed''\<rparr>) [])"
    by (simp add: retry_def Let_def)
  with assms(2) nc that show ?thesis by (simp add: claim_row_def Let_def cancel_requested_def)
qed

lemma claim_row_Inr:
  assumes "jb_id job \<noteq> []"
  obtains row where "claim_row sha256 job previous now = Inr row" "lc_id row = jb_id job"
    "lc_attempt row = jb_current_attempt job" "\<not> cancel_requested row"
    "(lc_state row = S_QUEUED \<or> lc_state row = S_BACKOFF \<and>
       (case lc_next_action_at row of None \<Rightarrow> True | Some t \<Rightarrow> t \<le> now)) \<longleftrightarrow> claimable job now"
proof (cases "job_core (jb_state job) = Some S_RUNNING")
  case True
  obtain row where "claim_row sha256 job previous now = Inr row" "lc_state row = S_BACKOFF"
    "lc_next_action_at row = None" "lc_attempt row = jb_current_attempt job"
    "\<not> cancel_requested row" "lc_id row = jb_id job"
    by (rule lapsed_job_row [OF assms True])
  with True that show ?thesis by (simp add: claimable_def)
next
  case False
  then have "claim_row sha256 job previous now = Inr (job_lifecycle job previous)"
    by (cases "job_core (jb_state job)") (simp_all add: claim_row_def Let_def)
  moreover have "lc_next_action_at (job_lifecycle job previous)
      = wait_due (jb_wait job) (jb_legacy_due job)"
    by (simp add: job_lifecycle_def Let_def)
  ultimately show ?thesis
    using that [of "job_lifecycle job previous"] False
    by (auto simp: claimable_def cancel_requested_def split: option.splits lifecycle_state.splits)
qed

lemma claimed_row:
  assumes "\<not> terminal row" "\<not> cancel_requested row"
  shows "transition sha256 row (Claimed (lc_attempt row + 1) fence lease) job_view now =
    Inr (claimed row (lc_attempt row + 1) fence lease now)"
  using assms by (simp add: transition_def expired_def dispatch_def)

lemma job_claim_iff:
  assumes "jb_id job \<noteq> []" "length (jb_id job) \<le> 128"
  shows "if claimable job now
    then \<exists>job'. job_claim sha256 redact declared job previous worker fence lease now
        = Inr (Some (job', map_option lapse previous,
            \<lparr>ja_job_id = jb_id job, ja_attempt = jb_current_attempt job + 1, ja_fence = fence,
             ja_worker_id = worker, ja_lease_deadline = lease, ja_state = ''running'',
             ja_observation_cause = None\<rparr>))
      \<and> jb_id job' = jb_id job \<and> jb_kind job' = jb_kind job \<and> jb_state job' = ''running''
      \<and> jb_current_attempt job' = jb_current_attempt job + 1
    else job_claim sha256 redact declared job previous worker fence lease now = Inr None"
proof -
  obtain row where row: "claim_row sha256 job previous now = Inr row" "lc_id row = jb_id job"
    "lc_attempt row = jb_current_attempt job" "\<not> cancel_requested row"
    "(lc_state row = S_QUEUED \<or> lc_state row = S_BACKOFF \<and>
       (case lc_next_action_at row of None \<Rightarrow> True | Some t \<Rightarrow> t \<le> now)) \<longleftrightarrow> claimable job now"
    by (rule claim_row_Inr [OF assms(1)])
  let ?c = "claimed row (lc_attempt row + 1) fence lease now"
  have tr: "transition sha256 row (Claimed (lc_attempt row + 1) fence lease) job_view now =
      Inr (if terminal row then decide row [] else ?c)"
    using claimed_row [OF _ row(4)] by (simp add: transition_ended)
  show ?thesis
  proof (cases "claimable job now")
    case True
    with row(5) have s: "lc_state row = S_QUEUED \<or> lc_state row = S_BACKOFF \<and>
        (case lc_next_action_at row of None \<Rightarrow> True | Some t \<Rightarrow> t \<le> now)" by simp
    then have "\<not> terminal row" by (auto simp: terminal_def)
    have c: "d_row ?c = row\<lparr>lc_state := S_RUNNING, lc_attempt := lc_attempt row + 1,
        lc_fence := Some fence, lc_lease_deadline := Some lease,
        lc_next_action_at := Some lease, lc_effect := E_ISSUED, lc_observe_count := 0\<rparr>"
      using s row(4) by (auto simp: claimed_def Let_def)
    let ?job = "job\<lparr>jb_current_attempt := jb_current_attempt job + 1\<rparr>"
    obtain job' a' where ap: "job_apply redact declared ?job None (d_row ?c) now None None = Inr (job', a')"
      by (rule job_apply_total [of ?job "d_row ?c"]) (use assms c in simp_all)
    from job_apply_fields [OF ap] c have "jb_id job' = jb_id job" "jb_kind job' = jb_kind job"
      "jb_current_attempt job' = jb_current_attempt job + 1" by simp_all
    moreover have "job_claim sha256 redact declared job previous worker fence lease now
        = Inr (Some (job'\<lparr>jb_state := ''running'', jb_updated_at := now\<rparr>, map_option lapse previous,
            \<lparr>ja_job_id = jb_id job, ja_attempt = jb_current_attempt job + 1, ja_fence = fence,
             ja_worker_id = worker, ja_lease_deadline = lease, ja_state = ''running'',
             ja_observation_cause = None\<rparr>))"
      using row(1,3) tr \<open>\<not> terminal row\<close> ap c by (simp add: job_claim_def Let_def)
    ultimately show ?thesis using True by simp
  next
    case False
    with row(5) have "lc_state row \<noteq> S_QUEUED"
      "lc_state row = S_BACKOFF \<Longrightarrow>
        \<not> (case lc_next_action_at row of None \<Rightarrow> True | Some t \<Rightarrow> t \<le> now)" by auto
    then have "d_row ?c = row" by (auto simp: claimed_def Let_def)
    then have "job_claim sha256 redact declared job previous worker fence lease now = Inr None"
      using row(1) tr by (simp add: job_claim_def Let_def)
    with False show ?thesis by simp
  qed
qed

text \<open>
  A job can be claimed exactly when it is queued, running (its caller saw the lease lapse) or
  in a backoff that is due; a claim starts the next attempt under the new fence and records the
  previous attempt as lapsed. An ended, observed or waiting job is never claimed.
\<close>

lemma job_claim_starts_next_attempt:
  assumes "jb_id job \<noteq> []" "length (jb_id job) \<le> 128"
  shows "if claimable job now
    then \<exists>job'. job_claim sha256 redact declared job previous worker fence lease now
        = Inr (Some (job', map_option lapse previous,
            \<lparr>ja_job_id = jb_id job, ja_attempt = jb_current_attempt job + 1, ja_fence = fence,
             ja_worker_id = worker, ja_lease_deadline = lease, ja_state = ''running'',
             ja_observation_cause = None\<rparr>))
      \<and> jb_id job' = jb_id job \<and> jb_kind job' = jb_kind job \<and> jb_state job' = ''running''
      \<and> jb_current_attempt job' = jb_current_attempt job + 1
    else job_claim sha256 redact declared job previous worker fence lease now = Inr None"
  using assms by (rule job_claim_iff)

section \<open>Resuming\<close>

text \<open>
  A job stored under the legacy word \<^verbatim>\<open>waiting-for-operator\<close> is read as waiting and advertises
  \<^verbatim>\<open>resume\<close>, but resuming it is always refused and changes nothing: the compare-and-set guard is the
  word \<^verbatim>\<open>needs-operator\<close>.
\<close>

lemma legacy_wait_cannot_be_resumed:
  assumes "jb_state job = ''waiting-for-operator''"
  shows "job_actions (job_adopt job) = [action A_RESUME] \<and>
    job_resume sha256 redact declared job stored now = Inr (job, False)"
proof -
  have core: "job_core ''waiting-for-operator'' = None"
    by (simp add: job_core_def adopt_state_def enum_lifecycle_state_def)
  let ?row = "job_lifecycle job stored"
  have st: "lc_state ?row = S_NEEDS_OPERATOR" using assms core by simp
  then have adv: "job_actions (job_adopt job) = [action A_RESUME]" "job_actions ?row = [action A_RESUME]"
    using assms core by (simp_all add: job_adopt_def job_actions_def)
  have tr: "transition sha256 ?row (OperatorAction ''resume'' None) job_view now
      = Inr (decide (?row\<lparr>lc_state := S_QUEUED, lc_retry_count := 0, lc_observe_count := 0,
          lc_next_action_at := None, lc_reason := Some ''resume''\<rparr>) [])" (is "_ = Inr ?d")
    using st adv(2) by (simp add: transition_def terminal_def expired_def dispatch_def operator_def
        RESUME_ACTIONS_def cancel_requested_def)
  moreover have "d_row ?d \<noteq> ?row"
  proof
    assume "d_row ?d = ?row"
    then have "lc_state (d_row ?d) = lc_state ?row" by (rule arg_cong)
    with st show False by simp
  qed
  ultimately show ?thesis
    using adv(1) assms refused_settle [OF tr, of job_kind_adapter "(job, None)"]
    by (simp add: job_resume_def job_settle_def job_kind_adapter_def job_writer_def WAITING_def)
qed

end
