(* ===== verification/Job_Service.thy ===== *)
theory Job_Service
  imports Jobs "HOL-Library.Char_ord" "HOL-Library.List_Lexorder" "HOL-Library.Product_Lexorder"
begin

text \<open>
  The worker queue over the stored jobs (\<^verbatim>\<open>JobService\<close> of \<^verbatim>\<open>jobs.py\<close>): claims, heartbeats and ends
  of attempts under a fence. Each operation is one transaction on the store of jobs and attempts.
  The random fence of a claim (\<^verbatim>\<open>uuid4\<close>) is an argument; that it is new is a condition of the steps,
  as the store's unique column makes it. A write that loses the row's version check is an
  \<open>Contended\<close> error and changes nothing, so it is no step of the store.
\<close>

section \<open>Store\<close>

record job_store =
  js_jobs :: "job list"
  js_attempts :: "job_attempt list"
  js_ordered :: "string list"  \<comment> \<open>the jobs whose work an agent operation carries\<close>

record attempt_fence =
  af_job_id :: string
  af_attempt :: int
  af_fence :: string
  af_worker_id :: string
  af_lease_deadline :: instant
  af_kind :: string

datatype service_error = StaleAttempt | InvalidValue | CoreError py_error

definition find_job :: "job_store \<Rightarrow> string \<Rightarrow> job option" where
  "find_job st ident = find (\<lambda>j. jb_id j = ident) (js_jobs st)"

text \<open>\<^verbatim>\<open>JobAdapter._attempt\<close>: the job's current attempt.\<close>

definition current_attempt_of :: "job_store \<Rightarrow> job \<Rightarrow> job_attempt option" where
  "current_attempt_of st job =
     (if jb_current_attempt job = 0 then None
      else find (\<lambda>a. ja_job_id a = jb_id job \<and> ja_attempt a = jb_current_attempt job)
             (js_attempts st))"

definition put_job :: "job \<Rightarrow> job_store \<Rightarrow> job_store" where
  "put_job j st = st\<lparr>js_jobs := map (\<lambda>x. if jb_id x = jb_id j then j else x) (js_jobs st)\<rparr>"

definition put_attempt :: "job_attempt \<Rightarrow> job_store \<Rightarrow> job_store" where
  "put_attempt a st =
     st\<lparr>js_attempts := map (\<lambda>x. if ja_fence x = ja_fence a then a else x) (js_attempts st)\<rparr>"

section \<open>Claim\<close>

text \<open>The rows the claim's query selects.\<close>

definition selectable :: "job_store \<Rightarrow> string list \<Rightarrow> string option \<Rightarrow> instant \<Rightarrow> job \<Rightarrow> bool" where
  "selectable st kinds job_id now job \<longleftrightarrow>
     jb_kind job \<in> set kinds
     \<and> (case job_id of None \<Rightarrow> True | Some i \<Rightarrow> jb_id job = i)
     \<and> (case wo_next_action_at (jb_wait job) of None \<Rightarrow> True | Some t \<Rightarrow> t \<le> now)
     \<and> jb_id job \<notin> set (js_ordered st)
     \<and> (jb_state job = ''queued''
        \<or> list_ex (\<lambda>a. ja_job_id a = jb_id job \<and> ja_state a = ''running''
             \<and> ja_lease_deadline a < now) (js_attempts st))"

definition next_claim :: "job_store \<Rightarrow> string list \<Rightarrow> string option \<Rightarrow> instant \<Rightarrow> job option" where
  "next_claim st kinds job_id now =
     (case sort_key (\<lambda>j. (jb_created_at j, jb_id j))
             (filter (selectable st kinds job_id now) (js_jobs st)) of
        [] \<Rightarrow> None
      | j # _ \<Rightarrow> Some j)"

definition service_claim ::
  "(string \<Rightarrow> string) \<Rightarrow> (string \<Rightarrow> string) \<Rightarrow> (string \<Rightarrow> bool) \<Rightarrow> job_store \<Rightarrow> string \<Rightarrow> int
     \<Rightarrow> string list \<Rightarrow> string option \<Rightarrow> string \<Rightarrow> instant
     \<Rightarrow> service_error + (job_store \<times> attempt_fence option)" where
  "service_claim sha256 redact declared st worker lease_seconds kinds job_id fence now =
     (if strip worker = [] \<or> lease_seconds \<le> 0 then Inl InvalidValue
      else
        (case next_claim st kinds job_id now of
           None \<Rightarrow> Inr (st, None)
         | Some job \<Rightarrow>
             (let lease = now + seconds lease_seconds
              in case job_claim sha256 redact declared job (current_attempt_of st job) worker fence
                        lease now of
                   Inl e \<Rightarrow> Inl (CoreError e)
                 | Inr None \<Rightarrow> Inr (st, None)
                 | Inr (Some (job', previous, fresh)) \<Rightarrow>
                     (let st1 = put_job job' st;
                          st2 = (case previous of None \<Rightarrow> st1 | Some a \<Rightarrow> put_attempt a st1)
                      in Inr (st2\<lparr>js_attempts := js_attempts st2 @ [fresh]\<rparr>,
                              Some \<lparr>af_job_id = jb_id job', af_attempt = jb_current_attempt job',
                                    af_fence = fence, af_worker_id = worker,
                                    af_lease_deadline = lease, af_kind = jb_kind job'\<rparr>)))))"

section \<open>Work under a fence\<close>

text \<open>\<^verbatim>\<open>_active\<close>: the job and the attempt of a fence that still holds.\<close>

definition service_active ::
  "job_store \<Rightarrow> attempt_fence \<Rightarrow> instant \<Rightarrow> service_error + (job \<times> job_attempt)" where
  "service_active st f now =
     (case (find_job st (af_job_id f), find (\<lambda>a. ja_fence a = af_fence f) (js_attempts st)) of
        (Some job, Some a) \<Rightarrow>
          (if jb_current_attempt job \<noteq> af_attempt f \<or> ja_state a \<noteq> ''running''
              \<or> ja_worker_id a \<noteq> af_worker_id f \<or> ja_lease_deadline a \<le> now
           then Inl StaleAttempt else Inr (job, a))
      | _ \<Rightarrow> Inl StaleAttempt)"

definition service_heartbeat ::
  "(string \<Rightarrow> string) \<Rightarrow> job_store \<Rightarrow> attempt_fence \<Rightarrow> int \<Rightarrow> instant
     \<Rightarrow> service_error + (job_store \<times> attempt_fence)" where
  "service_heartbeat sha256 st f lease_seconds now =
     (if lease_seconds \<le> 0 then Inl InvalidValue
      else
        (case service_active st f now of
           Inl e \<Rightarrow> Inl e
         | Inr (job, a) \<Rightarrow>
             (let lease = now + seconds lease_seconds
              in case job_heartbeat sha256 job a lease now of
                   Inl e \<Rightarrow> Inl (CoreError e)
                 | Inr (job', a', extended) \<Rightarrow>
                     Inr (put_attempt a' (put_job job' st), f\<lparr>af_lease_deadline := lease\<rparr>))))"

definition service_finish ::
  "(string \<Rightarrow> string) \<Rightarrow> (string \<Rightarrow> string) \<Rightarrow> (string \<Rightarrow> bool) \<Rightarrow> job_store \<Rightarrow> attempt_fence
     \<Rightarrow> bool \<Rightarrow> string option \<Rightarrow> string option \<Rightarrow> instant \<Rightarrow> service_error + job_store" where
  "service_finish sha256 redact declared st f succeeded outcome reason now =
     (case service_active st f now of
        Inl e \<Rightarrow> Inl e
      | Inr (job, a) \<Rightarrow>
          (case job_finish sha256 redact declared job a succeeded outcome reason now of
             Inl e \<Rightarrow> Inl (CoreError e)
           | Inr (job', a', ended) \<Rightarrow> Inr (put_attempt a' (put_job job' st))))"

section \<open>Steps of the queue\<close>

text \<open>
  What workers do to the store: each successful operation, with the list of fences handed out so
  far. Failed operations change nothing and are no steps.
\<close>

inductive service_step ::
  "(string \<Rightarrow> string) \<Rightarrow> (string \<Rightarrow> string) \<Rightarrow> (string \<Rightarrow> bool)
     \<Rightarrow> job_store \<times> attempt_fence list \<Rightarrow> job_store \<times> attempt_fence list \<Rightarrow> bool"
  for sha256 redact declared where
  claims:
    "service_claim sha256 redact declared st worker lease kinds job_id fence now = Inr (st', Some f)
       \<Longrightarrow> fence \<notin> ja_fence ` set (js_attempts st)
       \<Longrightarrow> service_step sha256 redact declared (st, issued) (st', f # issued)"
| heartbeats:
    "service_heartbeat sha256 st f lease now = Inr (st', f') \<Longrightarrow> f \<in> set issued
       \<Longrightarrow> service_step sha256 redact declared (st, issued) (st', f' # issued)"
| finishes:
    "service_finish sha256 redact declared st f ok outcome reason now = Inr st' \<Longrightarrow> f \<in> set issued
       \<Longrightarrow> service_step sha256 redact declared (st, issued) (st', issued)"

inductive_cases service_stepE: "service_step sha256 redact declared (st, issued) (st', issued')"

section \<open>The invariant of the store\<close>

text \<open>
  Keys are unique, every attempt belongs to a job and is no later than the job's current one, and
  only a job's current attempt is recorded as running.
\<close>

definition well_formed :: "job_store \<Rightarrow> bool" where
  "well_formed st \<longleftrightarrow>
     distinct (map jb_id (js_jobs st)) \<and> distinct (map ja_fence (js_attempts st)) \<and>
     distinct (map (\<lambda>a. (ja_job_id a, ja_attempt a)) (js_attempts st)) \<and>
     (\<forall>j \<in> set (js_jobs st). jb_id j \<noteq> [] \<and> length (jb_id j) \<le> 128 \<and> 0 \<le> jb_current_attempt j) \<and>
     (\<forall>a \<in> set (js_attempts st). \<exists>j \<in> set (js_jobs st). jb_id j = ja_job_id a \<and>
        1 \<le> ja_attempt a \<and> ja_attempt a \<le> jb_current_attempt j \<and>
        (ja_state a = ''running'' \<longrightarrow> ja_attempt a = jb_current_attempt j))"

text \<open>A fence that was handed out for an attempt of the store.\<close>

definition issued_for :: "job_store \<Rightarrow> attempt_fence \<Rightarrow> bool" where
  "issued_for st f \<longleftrightarrow>
     (\<exists>a \<in> set (js_attempts st). ja_fence a = af_fence f \<and> ja_job_id a = af_job_id f \<and>
        ja_attempt a = af_attempt f)"

lemma find_job_member: "find_job st i = Some j \<Longrightarrow> j \<in> set (js_jobs st) \<and> jb_id j = i"
  by (auto simp: find_job_def find_Some_iff)

lemma unique_job:
  "well_formed st \<Longrightarrow> j \<in> set (js_jobs st) \<Longrightarrow> k \<in> set (js_jobs st) \<Longrightarrow> jb_id j = jb_id k \<Longrightarrow> j = k"
  by (auto simp: well_formed_def distinct_map dest: inj_onD)

lemma unique_fence:
  "well_formed st \<Longrightarrow> a \<in> set (js_attempts st) \<Longrightarrow> b \<in> set (js_attempts st) \<Longrightarrow>
     ja_fence a = ja_fence b \<Longrightarrow> a = b"
  by (auto simp: well_formed_def distinct_map dest: inj_onD)

lemma unique_attempt:
  "well_formed st \<Longrightarrow> a \<in> set (js_attempts st) \<Longrightarrow> b \<in> set (js_attempts st) \<Longrightarrow>
     ja_job_id a = ja_job_id b \<Longrightarrow> ja_attempt a = ja_attempt b \<Longrightarrow> a = b"
  by (auto simp: well_formed_def distinct_map dest: inj_onD)

lemma active_fence:
  assumes "service_active st f now = Inr (job, a)"
  shows "job \<in> set (js_jobs st)" "jb_id job = af_job_id f" "jb_current_attempt job = af_attempt f"
    "a \<in> set (js_attempts st)" "ja_fence a = af_fence f" "ja_state a = ''running''"
  using assms
  by (auto simp: service_active_def find_Some_iff dest: find_job_member
      split: option.splits if_splits)

text \<open>A write that keeps a job's identity and count, and an attempt's identity.\<close>

lemma put_well_formed:
  assumes wf: "well_formed st" and job: "job \<in> set (js_jobs st)" "jb_id job' = jb_id job"
      "jb_current_attempt job' = jb_current_attempt job"
    and a: "a \<in> set (js_attempts st)" "ja_fence a' = ja_fence a" "ja_job_id a' = ja_job_id a"
      "ja_attempt a' = ja_attempt a" "ja_state a' = ''running'' \<Longrightarrow> ja_state a = ''running''"
  shows "well_formed (put_attempt a' (put_job job' st))"
    and "issued_for st f \<Longrightarrow> issued_for (put_attempt a' (put_job job' st)) f"
proof -
  let ?J = "\<lambda>x. if jb_id x = jb_id job' then job' else x"
  let ?A = "\<lambda>x. if ja_fence x = ja_fence a' then a' else x"
  have J: "jb_id (?J x) = jb_id x" "jb_current_attempt (?J x) = jb_current_attempt x"
    if "x \<in> set (js_jobs st)" for x
    using unique_job [OF wf that job(1)] job by auto
  have A: "ja_fence (?A x) = ja_fence x" "ja_job_id (?A x) = ja_job_id x"
      "ja_attempt (?A x) = ja_attempt x" "ja_state (?A x) = ''running'' \<Longrightarrow> ja_state x = ''running''"
    if "x \<in> set (js_attempts st)" for x
    using unique_fence [OF wf that a(1)] a by (auto split: if_splits)
  define js as where js: "js = map ?J (js_jobs st)" and as: "as = map ?A (js_attempts st)"
  have st': "js_jobs (put_attempt a' (put_job job' st)) = js"
    "js_attempts (put_attempt a' (put_job job' st)) = as"
    by (simp_all add: put_attempt_def put_job_def js as)
  have ids: "map jb_id js = map jb_id (js_jobs st)"
    unfolding js map_map map_eq_conv o_apply using J(1) by blast
  have fences: "map ja_fence as = map ja_fence (js_attempts st)"
    unfolding as map_map map_eq_conv o_apply using A(1) by blast
  have keys: "map (\<lambda>a. (ja_job_id a, ja_attempt a)) as
       = map (\<lambda>a. (ja_job_id a, ja_attempt a)) (js_attempts st)"
    unfolding as map_map map_eq_conv o_apply using A(2,3) by simp
  have owned: "\<exists>j \<in> set js. jb_id j = ja_job_id x \<and> 1 \<le> ja_attempt x \<and>
      ja_attempt x \<le> jb_current_attempt j \<and>
      (ja_state x = ''running'' \<longrightarrow> ja_attempt x = jb_current_attempt j)"
    if x: "x \<in> set as" for x
  proof -
    from x obtain y where y: "y \<in> set (js_attempts st)" "x = ?A y"
      unfolding as by (auto simp only: set_map image_iff)
    with wf obtain j where j: "j \<in> set (js_jobs st)" "jb_id j = ja_job_id y" "1 \<le> ja_attempt y"
      "ja_attempt y \<le> jb_current_attempt j"
      "ja_state y = ''running'' \<longrightarrow> ja_attempt y = jb_current_attempt j"
      unfolding well_formed_def by blast
    have "?J j \<in> set js" unfolding js set_map using j(1) by (rule imageI)
    with J [OF j(1)] A [OF y(1)] j y(2) show ?thesis by (intro bexI [of _ "?J j"]) simp_all
  qed
  have bounds: "jb_id j \<noteq> [] \<and> length (jb_id j) \<le> 128 \<and> 0 \<le> jb_current_attempt j"
    if "j \<in> set js" for j
  proof -
    from that obtain k where k: "k \<in> set (js_jobs st)" "j = ?J k"
      unfolding js by (auto simp only: set_map image_iff)
    with wf have "jb_id k \<noteq> [] \<and> length (jb_id k) \<le> 128 \<and> 0 \<le> jb_current_attempt k"
      unfolding well_formed_def by blast
    with J [OF k(1)] k(2) show ?thesis by simp
  qed
  show "well_formed (put_attempt a' (put_job job' st))"
    using wf ids fences keys owned bounds unfolding well_formed_def st' by simp
  show "issued_for (put_attempt a' (put_job job' st)) f" if "issued_for st f"
  proof -
    from that obtain x where x: "x \<in> set (js_attempts st)" "ja_fence x = af_fence f"
      "ja_job_id x = af_job_id f" "ja_attempt x = af_attempt f" unfolding issued_for_def by blast
    have "?A x \<in> set as" unfolding as set_map using x(1) by (rule imageI)
    with A [OF x(1)] x show ?thesis unfolding issued_for_def st' by (intro bexI [of _ "?A x"]) simp_all
  qed
qed

lemma job_heartbeat_fields:
  "job_heartbeat sha256 job a lease now = Inr (job', a', ok) \<Longrightarrow>
     jb_id job' = jb_id job \<and> jb_current_attempt job' = jb_current_attempt job \<and>
     ja_fence a' = ja_fence a \<and> ja_job_id a' = ja_job_id a \<and> ja_attempt a' = ja_attempt a \<and>
     ja_state a' = ja_state a"
  by (auto simp: job_heartbeat_def split: if_splits)

lemma job_finish_fields:
  assumes "job_finish sha256 redact declared job a ok outcome reason now = Inr (job', a', ended)"
  shows "jb_id job' = jb_id job \<and> jb_current_attempt job' = jb_current_attempt job \<and>
    ja_fence a' = ja_fence a \<and> ja_job_id a' = ja_job_id a \<and> ja_attempt a' = ja_attempt a"
proof (cases "terminal (job_lifecycle job (Some a))")
  case True
  with assms show ?thesis by (auto simp: job_finish_def)
next
  case False
  obtain ev d where "transition sha256 (job_lifecycle job (Some a)) ev job_view now = Inr d"
    and fin: "(if \<not> terminal (d_row d) then Inr (job, a, False)
      else res_map (\<lambda>(job', attempt').
          (job'\<lparr>jb_result := outcome, jb_status_reason := (case reason of None \<Rightarrow> None
             | Some r \<Rightarrow> (if r = [] then None else Some (take 1024 (redact r))))\<rparr>,
           case attempt' of Some a \<Rightarrow> a | None \<Rightarrow> a, True))
        (job_apply redact declared job (Some a) (d_row d) now outcome None)) = Inr (job', a', ended)"
    using assms unfolding job_finish_def Let_def if_not_P [OF False] res_bind_Inr by blast
  show ?thesis
  proof (cases "terminal (d_row d)")
    case True
    with fin obtain j1 a1 where
      ap: "job_apply redact declared job (Some a) (d_row d) now outcome None = Inr (j1, a1)"
      and out: "jb_id job' = jb_id j1" "jb_current_attempt job' = jb_current_attempt j1"
        "a' = (case a1 of Some a \<Rightarrow> a | None \<Rightarrow> a)"
      by auto
    from job_apply_fields [OF ap] out show ?thesis by auto
  qed (use fin in simp)
qed

section \<open>Every step keeps the invariant\<close>

lemma next_claim_member: "next_claim st kinds job_id now = Some job \<Longrightarrow> job \<in> set (js_jobs st)"
proof -
  assume n: "next_claim st kinds job_id now = Some job"
  let ?l = "sort_key (\<lambda>j. (jb_created_at j, jb_id j))
      (filter (selectable st kinds job_id now) (js_jobs st))"
  have "job \<in> set ?l" using n by (cases ?l) (simp_all add: next_claim_def)
  then show ?thesis by simp
qed

text \<open>The attempts after a claim of \<open>job\<close>, before the new one is added.\<close>

definition lapsed_attempts :: "job_store \<Rightarrow> job \<Rightarrow> job_attempt list" where
  "lapsed_attempts st job =
     (case current_attempt_of st job of
        None \<Rightarrow> js_attempts st
      | Some a \<Rightarrow> map (\<lambda>x. if ja_fence x = ja_fence a then lapse a else x) (js_attempts st))"

lemma current_attempt_member:
  "current_attempt_of st job = Some a \<Longrightarrow>
     a \<in> set (js_attempts st) \<and> ja_job_id a = jb_id job \<and> ja_attempt a = jb_current_attempt job"
  by (auto simp: current_attempt_of_def find_Some_iff split: if_splits)

lemma lapsed_attempts_image:
  assumes wf: "well_formed st"
  obtains g where "lapsed_attempts st job = map g (js_attempts st)"
    "\<And>x. x \<in> set (js_attempts st) \<Longrightarrow> ja_fence (g x) = ja_fence x \<and> ja_job_id (g x) = ja_job_id x
       \<and> ja_attempt (g x) = ja_attempt x"
    "\<And>x. x \<in> set (js_attempts st) \<Longrightarrow> ja_state (g x) = ''running'' \<Longrightarrow> ja_state x = ''running'' \<and>
       current_attempt_of st job \<noteq> Some x"
proof (cases "current_attempt_of st job")
  case None
  show ?thesis by (rule that [of "\<lambda>x. x"]) (simp_all add: lapsed_attempts_def None)
next
  case (Some a)
  have a: "a \<in> set (js_attempts st)" using current_attempt_member [OF Some] by simp
  let ?g = "\<lambda>x. if ja_fence x = ja_fence a then lapse a else x"
  have same: "x = a" if "x \<in> set (js_attempts st)" "ja_fence x = ja_fence a" for x
    using unique_fence [OF wf that(1) a that(2)] .
  have "ja_fence (?g x) = ja_fence x \<and> ja_job_id (?g x) = ja_job_id x \<and> ja_attempt (?g x) = ja_attempt x"
    if "x \<in> set (js_attempts st)" for x
    using same [OF that] by (auto simp: lapse_def)
  moreover have "ja_state x = ''running'' \<and> current_attempt_of st job \<noteq> Some x"
    if "x \<in> set (js_attempts st)" "ja_state (?g x) = ''running''" for x
    using that(2) Some by (auto simp: lapse_def split: if_splits)
  ultimately show ?thesis by (intro that [of ?g]) (simp_all add: lapsed_attempts_def Some)
qed

text \<open>Only the job's current attempt was running, and the claim lapsed it.\<close>

lemma current_attempt_running:
  assumes wf: "well_formed st" and job: "job \<in> set (js_jobs st)" and x: "x \<in> set (js_attempts st)"
    and "ja_job_id x = jb_id job" "ja_state x = ''running''"
  shows "current_attempt_of st job = Some x"
proof -
  obtain j where j: "j \<in> set (js_jobs st)" "jb_id j = ja_job_id x" "1 \<le> ja_attempt x"
    "ja_attempt x = jb_current_attempt j"
    using wf x assms(5) unfolding well_formed_def by blast
  have "j = job" using unique_job [OF wf j(1) job] j(2) assms(4) by simp
  with j have cur: "ja_attempt x = jb_current_attempt job" "jb_current_attempt job \<noteq> 0" by simp_all
  obtain a where a: "find (\<lambda>a. ja_job_id a = jb_id job \<and> ja_attempt a = jb_current_attempt job)
      (js_attempts st) = Some a"
    using x cur assms(4) by (metis (mono_tags, lifting) find_None_iff not_None_eq)
  then have "a \<in> set (js_attempts st)" "ja_job_id a = ja_job_id x" "ja_attempt a = ja_attempt x"
    using cur assms(4) by (auto simp: find_Some_iff)
  then have "a = x" using unique_attempt [OF wf _ x] by simp
  with a cur show ?thesis by (simp add: current_attempt_of_def)
qed

lemma claim_store_well_formed:
  assumes wf: "well_formed st" and job: "job \<in> set (js_jobs st)"
    and job': "jb_id job' = jb_id job" "jb_current_attempt job' = jb_current_attempt job + 1"
    and fresh: "ja_job_id new = jb_id job" "ja_attempt new = jb_current_attempt job + 1"
      "ja_fence new \<notin> ja_fence ` set (js_attempts st)"
    and st': "js_jobs st' = map (\<lambda>x. if jb_id x = jb_id job' then job' else x) (js_jobs st)"
      "js_attempts st' = lapsed_attempts st job @ [new]"
  shows "well_formed st'"
proof -
  obtain g where g: "lapsed_attempts st job = map g (js_attempts st)"
    and gk: "\<And>x. x \<in> set (js_attempts st) \<Longrightarrow> ja_fence (g x) = ja_fence x \<and> ja_job_id (g x) = ja_job_id x
       \<and> ja_attempt (g x) = ja_attempt x"
    and gs: "\<And>x. x \<in> set (js_attempts st) \<Longrightarrow> ja_state (g x) = ''running'' \<Longrightarrow> ja_state x = ''running'' \<and>
       current_attempt_of st job \<noteq> Some x"
    by (rule lapsed_attempts_image [OF wf, where job = job]) blast
  let ?J = "\<lambda>x. if jb_id x = jb_id job' then job' else x"
  have J: "jb_id (?J x) = jb_id x" "jb_current_attempt x \<le> jb_current_attempt (?J x)"
      "jb_id x \<noteq> jb_id job \<Longrightarrow> ?J x = x"
    if "x \<in> set (js_jobs st)" for x
    using unique_job [OF wf that job] job' by auto
  have "map jb_id (js_jobs st') = map jb_id (js_jobs st)"
    unfolding st' map_map map_eq_conv o_apply using J(1) by blast
  moreover have "map ja_fence (js_attempts st') = map ja_fence (js_attempts st) @ [ja_fence new]"
    unfolding st' g using gk by simp
  moreover have "map (\<lambda>a. (ja_job_id a, ja_attempt a)) (js_attempts st')
      = map (\<lambda>a. (ja_job_id a, ja_attempt a)) (js_attempts st)
        @ [(jb_id job, jb_current_attempt job + 1)]"
    unfolding st' g using gk fresh by simp
  moreover have "(jb_id job, jb_current_attempt job + 1)
      \<notin> (\<lambda>a. (ja_job_id a, ja_attempt a)) ` set (js_attempts st)"
  proof
    assume "(jb_id job, jb_current_attempt job + 1)
      \<in> (\<lambda>a. (ja_job_id a, ja_attempt a)) ` set (js_attempts st)"
    then obtain x where x: "x \<in> set (js_attempts st)" "ja_job_id x = jb_id job"
      "ja_attempt x = jb_current_attempt job + 1" by auto
    then obtain j where "j \<in> set (js_jobs st)" "jb_id j = jb_id job"
      "ja_attempt x \<le> jb_current_attempt j" using wf unfolding well_formed_def by metis
    with unique_job [OF wf _ job] x(3) show False by fastforce
  qed
  moreover have "\<exists>j \<in> set (js_jobs st'). jb_id j = ja_job_id x \<and> 1 \<le> ja_attempt x \<and>
      ja_attempt x \<le> jb_current_attempt j \<and>
      (ja_state x = ''running'' \<longrightarrow> ja_attempt x = jb_current_attempt j)"
    if x: "x \<in> set (js_attempts st')" for x
  proof (cases "x = new")
    case True
    have "?J job \<in> set (js_jobs st')" unfolding st' set_map using job by (rule imageI)
    moreover have "0 \<le> jb_current_attempt job" using wf job unfolding well_formed_def by blast
    ultimately show ?thesis using True fresh job' by (intro bexI [of _ job']) auto
  next
    case False
    with x obtain y where y: "y \<in> set (js_attempts st)" "x = g y" unfolding st' g by auto
    obtain j where j: "j \<in> set (js_jobs st)" "jb_id j = ja_job_id y" "1 \<le> ja_attempt y"
      "ja_attempt y \<le> jb_current_attempt j"
      "ja_state y = ''running'' \<longrightarrow> ja_attempt y = jb_current_attempt j"
      using wf y(1) unfolding well_formed_def by blast
    have "ja_job_id y \<noteq> jb_id job" if "ja_state x = ''running''"
      using gs [OF y(1)] that y(2) current_attempt_running [OF wf job y(1)] by auto
    moreover have "?J j \<in> set (js_jobs st')" unfolding st' set_map using j(1) by (rule imageI)
    ultimately show ?thesis
      using J [OF j(1)] gk [OF y(1)] gs [OF y(1)] j y(2) by (intro bexI [of _ "?J j"]) force+
  qed
  moreover have "jb_id j \<noteq> [] \<and> length (jb_id j) \<le> 128 \<and> 0 \<le> jb_current_attempt j"
    if "j \<in> set (js_jobs st')" for j
  proof -
    from that obtain k where k: "k \<in> set (js_jobs st)" "j = ?J k" unfolding st' by auto
    with wf have "jb_id k \<noteq> [] \<and> length (jb_id k) \<le> 128 \<and> 0 \<le> jb_current_attempt k"
      unfolding well_formed_def by blast
    with J [OF k(1)] k(2) show ?thesis by force
  qed
  ultimately show ?thesis using wf fresh(3) unfolding well_formed_def by auto
qed

lemma service_claim_shape:
  assumes wf: "well_formed st"
    and c: "service_claim sha256 redact declared st worker lease kinds job_id fence now
      = Inr (st', Some f)"
  obtains job job' new where "job \<in> set (js_jobs st)" "jb_id job' = jb_id job"
    "jb_current_attempt job' = jb_current_attempt job + 1" "ja_job_id new = jb_id job"
    "ja_attempt new = jb_current_attempt job + 1" "ja_fence new = fence"
    "js_jobs st' = map (\<lambda>x. if jb_id x = jb_id job' then job' else x) (js_jobs st)"
    "js_attempts st' = lapsed_attempts st job @ [new]"
    "af_job_id f = jb_id job" "af_attempt f = jb_current_attempt job + 1" "af_fence f = fence"
proof -
  obtain job where n: "next_claim st kinds job_id now = Some job"
    using c by (auto simp: service_claim_def split: if_splits option.splits)
  have job: "job \<in> set (js_jobs st)" using next_claim_member [OF n] .
  then have "jb_id job \<noteq> []" "length (jb_id job) \<le> 128" using wf unfolding well_formed_def by blast+
  note iff = job_claim_iff [OF this, of now sha256 redact declared "current_attempt_of st job" worker
      fence "now + seconds lease"]
  show ?thesis
  proof (cases "claimable job now")
    case True
    with iff obtain job' where jc: "job_claim sha256 redact declared job (current_attempt_of st job)
        worker fence (now + seconds lease) now = Inr (Some (job', map_option lapse
          (current_attempt_of st job), \<lparr>ja_job_id = jb_id job,
          ja_attempt = jb_current_attempt job + 1, ja_fence = fence, ja_worker_id = worker,
          ja_lease_deadline = now + seconds lease, ja_state = ''running'',
          ja_observation_cause = None\<rparr>))" (is "_ = Inr (Some (_, _, ?new))")
      and job': "jb_id job' = jb_id job" "jb_current_attempt job' = jb_current_attempt job + 1"
      by auto
    have "js_jobs st' = map (\<lambda>x. if jb_id x = jb_id job' then job' else x) (js_jobs st)"
      "js_attempts st' = lapsed_attempts st job @ [?new]"
      "af_job_id f = jb_id job" "af_attempt f = jb_current_attempt job + 1" "af_fence f = fence"
      using c n jc job'
      by (auto simp: service_claim_def Let_def put_job_def put_attempt_def lapsed_attempts_def lapse_def
          split: if_splits option.splits)
    with job job' that [of job job' ?new] show ?thesis by simp
  next
    case False
    with iff c n show ?thesis by (simp add: service_claim_def Let_def split: if_splits)
  qed
qed

lemma service_heartbeat_Inr:
  assumes "service_heartbeat sha256 st f lease now = Inr (st', f')"
  obtains job a job' a' ok where "service_active st f now = Inr (job, a)"
    "job_heartbeat sha256 job a (now + seconds lease) now = Inr (job', a', ok)"
    "st' = put_attempt a' (put_job job' st)" "f' = f\<lparr>af_lease_deadline := now + seconds lease\<rparr>"
proof -
  have le: "\<not> lease \<le> 0" using assms by (auto simp: service_heartbeat_def)
  then obtain job a where act: "service_active st f now = Inr (job, a)"
    using assms by (cases "service_active st f now") (auto simp: service_heartbeat_def)
  obtain job' a' ok where
    "job_heartbeat sha256 job a (now + seconds lease) now = Inr (job', a', ok)"
    using assms le act
    by (cases "job_heartbeat sha256 job a (now + seconds lease) now")
      (auto simp: service_heartbeat_def Let_def)
  with assms le act that show ?thesis by (simp add: service_heartbeat_def Let_def)
qed

lemma service_finish_Inr:
  assumes "service_finish sha256 redact declared st f ok outcome reason now = Inr st'"
  obtains job a job' a' e where "service_active st f now = Inr (job, a)"
    "job_finish sha256 redact declared job a ok outcome reason now = Inr (job', a', e)"
    "st' = put_attempt a' (put_job job' st)"
proof -
  obtain job a where act: "service_active st f now = Inr (job, a)"
    using assms by (cases "service_active st f now") (auto simp: service_finish_def)
  obtain job' a' e where
    "job_finish sha256 redact declared job a ok outcome reason now = Inr (job', a', e)"
    using assms act
    by (cases "job_finish sha256 redact declared job a ok outcome reason now")
      (auto simp: service_finish_def)
  with assms act that show ?thesis by (simp add: service_finish_def)
qed

text \<open>What holds of a store and the fences handed out for it.\<close>

definition service_invariant :: "job_store \<times> attempt_fence list \<Rightarrow> bool" where
  "service_invariant s \<longleftrightarrow> well_formed (fst s) \<and> (\<forall>f \<in> set (snd s). issued_for (fst s) f)"

lemma service_step_invariant:
  "service_step sha256 redact declared s s' \<Longrightarrow> service_invariant s \<Longrightarrow> service_invariant s'"
proof (induction rule: service_step.induct)
  case (claims st worker lease kinds job_id fence now st' f issued)
  then have wf: "well_formed st" and iss: "\<forall>f \<in> set issued. issued_for st f"
    by (auto simp: service_invariant_def)
  obtain job job' new where c: "job \<in> set (js_jobs st)" "jb_id job' = jb_id job"
    "jb_current_attempt job' = jb_current_attempt job + 1" "ja_job_id new = jb_id job"
    "ja_attempt new = jb_current_attempt job + 1" "ja_fence new = fence"
    "js_jobs st' = map (\<lambda>x. if jb_id x = jb_id job' then job' else x) (js_jobs st)"
    "js_attempts st' = lapsed_attempts st job @ [new]"
    "af_job_id f = jb_id job" "af_attempt f = jb_current_attempt job + 1" "af_fence f = fence"
    by (rule service_claim_shape [OF wf claims(1)])
  have "well_formed st'"
    by (rule claim_store_well_formed [OF wf c(1-5) _ c(7,8)]) (use c(6) claims(2) in simp)
  moreover have "issued_for st' f" using c by (auto simp: issued_for_def)
  moreover have "issued_for st' h" if "h \<in> set issued" for h
  proof -
    obtain g where g: "lapsed_attempts st job = map g (js_attempts st)"
      "\<And>x. x \<in> set (js_attempts st) \<Longrightarrow> ja_fence (g x) = ja_fence x \<and> ja_job_id (g x) = ja_job_id x
         \<and> ja_attempt (g x) = ja_attempt x"
      "\<And>x. x \<in> set (js_attempts st) \<Longrightarrow> ja_state (g x) = ''running'' \<Longrightarrow> ja_state x = ''running''
         \<and> current_attempt_of st job \<noteq> Some x"
      by (rule lapsed_attempts_image [OF wf, where job = job]) blast
    have "issued_for st h" using iss that by simp
    then obtain x where x: "x \<in> set (js_attempts st)" "ja_fence x = af_fence h"
      "ja_job_id x = af_job_id h" "ja_attempt x = af_attempt h"
      unfolding issued_for_def by blast
    have "g x \<in> set (js_attempts st')" using x(1) c(8) g(1) by simp
    with g(2) [OF x(1)] x show ?thesis unfolding issued_for_def by (intro bexI [of _ "g x"]) simp_all
  qed
  ultimately show ?case by (auto simp: service_invariant_def)
next
  case (heartbeats st f lease now st' f' issued)
  then have wf: "well_formed st" and iss: "\<forall>f \<in> set issued. issued_for st f"
    by (auto simp: service_invariant_def)
  obtain job a job' a' ok where act: "service_active st f now = Inr (job, a)"
    and h: "job_heartbeat sha256 job a (now + seconds lease) now = Inr (job', a', ok)"
    and out: "st' = put_attempt a' (put_job job' st)" "f' = f\<lparr>af_lease_deadline := now + seconds lease\<rparr>"
    using heartbeats(1) by (rule service_heartbeat_Inr)
  note af = active_fence [OF act] and hf = job_heartbeat_fields [OF h]
  note put = put_well_formed [OF wf af(1) _ _ af(4), of job' a']
  have "well_formed st'" unfolding out by (rule put(1)) (use hf af(6) in simp_all)
  moreover have "issued_for st' h" if "issued_for st h" for h
    unfolding out by (rule put(2)) (use hf af(6) that in simp_all)
  moreover have "issued_for st' f' \<longleftrightarrow> issued_for st' f" using out(2) by (simp add: issued_for_def)
  ultimately show ?case using iss heartbeats(2) by (auto simp: service_invariant_def)
next
  case (finishes st f ok outcome reason now st' issued)
  then have wf: "well_formed st" and iss: "\<forall>f \<in> set issued. issued_for st f"
    by (auto simp: service_invariant_def)
  obtain job a job' a' e where act: "service_active st f now = Inr (job, a)"
    and h: "job_finish sha256 redact declared job a ok outcome reason now = Inr (job', a', e)"
    and out: "st' = put_attempt a' (put_job job' st)"
    using finishes(1) by (rule service_finish_Inr)
  note af = active_fence [OF act] and hf = job_finish_fields [OF h]
  note put = put_well_formed [OF wf af(1) _ _ af(4), of job' a']
  have "well_formed st'" unfolding out by (rule put(1)) (use hf af(6) in simp_all)
  moreover have "issued_for st' h" if "issued_for st h" for h
    unfolding out by (rule put(2)) (use hf af(6) that in simp_all)
  ultimately show ?case using iss by (auto simp: service_invariant_def)
qed

inductive service_run ::
  "(string \<Rightarrow> string) \<Rightarrow> (string \<Rightarrow> string) \<Rightarrow> (string \<Rightarrow> bool)
     \<Rightarrow> job_store \<times> attempt_fence list \<Rightarrow> job_store \<times> attempt_fence list \<Rightarrow> bool"
  for sha256 redact declared where
  here: "service_run sha256 redact declared s s"
| more: "service_run sha256 redact declared s s' \<Longrightarrow> service_step sha256 redact declared s' s''
     \<Longrightarrow> service_run sha256 redact declared s s''"

lemma service_run_invariant:
  "service_run sha256 redact declared s s' \<Longrightarrow> service_invariant s \<Longrightarrow> service_invariant s'"
  by (induction rule: service_run.induct) (auto dest: service_step_invariant)

lemma active_unique:
  assumes "service_invariant (st, issued)" "f \<in> set issued" "g \<in> set issued"
    and "af_job_id f = af_job_id g" "service_active st f now = Inr (j, a)"
    and "service_active st g now' = Inr (k, b)"
  shows "af_fence f = af_fence g"
proof -
  have wf: "well_formed st" using assms(1) by (simp add: service_invariant_def)
  have "issued_for st f" "issued_for st g"
    using assms(1-3) by (auto simp: service_invariant_def)
  then obtain x y where
    x: "x \<in> set (js_attempts st)" "ja_fence x = af_fence f" "ja_job_id x = af_job_id f"
      "ja_attempt x = af_attempt f"
    and y: "y \<in> set (js_attempts st)" "ja_fence y = af_fence g" "ja_job_id y = af_job_id g"
      "ja_attempt y = af_attempt g"
    unfolding issued_for_def by blast
  have "j = k"
    using unique_job [OF wf active_fence(1) [OF assms(5)] active_fence(1) [OF assms(6)]]
      active_fence(2) [OF assms(5)] active_fence(2) [OF assms(6)] assms(4) by simp
  then have "af_attempt f = af_attempt g"
    using active_fence(3) [OF assms(5)] active_fence(3) [OF assms(6)] by simp
  then have "x = y" using unique_attempt [OF wf x(1) y(1)] x y assms(4) by simp
  with x(2) y(2) show ?thesis by simp
qed

text \<open>
  (C3) At most one worker works on a job: in every store reached from an empty list of fences by
  claims, heartbeats and ends, two fences of one job that the service still accepts, at whatever
  times, are the same fence. A worker whose job was claimed again is refused.
\<close>

theorem one_worker_per_job:
  assumes "well_formed st0" "service_run sha256 redact declared (st0, []) (st, issued)"
    and "f \<in> set issued" "g \<in> set issued" "af_job_id f = af_job_id g"
    and "service_active st f now = Inr (j, a)" "service_active st g now' = Inr (k, b)"
  shows "af_fence f = af_fence g"
proof (rule active_unique [OF _ assms(3-7)])
  show "service_invariant (st, issued)"
    by (rule service_run_invariant [OF assms(2)]) (use assms(1) in \<open>simp add: service_invariant_def\<close>)
qed

definition example_store :: job_store where
  "example_store =
     \<lparr>js_jobs = [example_job\<lparr>jb_state := ''queued'', jb_current_attempt := 0\<rparr>], js_attempts = [],
      js_ordered = []\<rparr>"

theorem one_worker_per_job_witness:
  "\<exists>st issued f g. service_run (\<lambda>s. s) (\<lambda>s. s) (\<lambda>_. True) (example_store, []) (st, issued) \<and>
     f \<in> set issued \<and> g \<in> set issued \<and> f \<noteq> g \<and> af_fence f = af_fence g"
proof -
  let ?claim = "service_claim (\<lambda>s. s) (\<lambda>s. s) (\<lambda>_. True) example_store ''w1'' 30 [''reconcile''] None
      ''f1'' 0"
  let ?beat = "\<lambda>st f. service_heartbeat (\<lambda>s. s) st f 60 (seconds 5)"
  have ok: "case ?claim of
      Inr (st1, Some f) \<Rightarrow>
        (case ?beat st1 f of
           Inr (st2, g) \<Rightarrow> \<not> isl (service_active st2 f (seconds 6)) \<and>
             \<not> isl (service_active st2 g (seconds 6)) \<and> af_job_id f = af_job_id g
             \<and> af_lease_deadline f \<noteq> af_lease_deadline g
         | Inl e \<Rightarrow> False)
    | _ \<Rightarrow> False"
    by code_simp
  then obtain st1 f where c: "?claim = Inr (st1, Some f)"
    by (auto split: sum.splits prod.splits option.splits)
  with ok obtain st2 g where b: "?beat st1 f = Inr (st2, g)"
    by (auto split: sum.splits prod.splits)
  from ok c b have act: "\<not> isl (service_active st2 f (seconds 6))"
    "\<not> isl (service_active st2 g (seconds 6))" and same: "af_job_id f = af_job_id g"
    and diff: "f \<noteq> g" by auto
  have r1: "service_run (\<lambda>s. s) (\<lambda>s. s) (\<lambda>_. True) (example_store, []) (st1, [f])"
    by (rule service_run.more [OF service_run.here service_step.claims [OF c]])
      (simp add: example_store_def)
  have r2: "service_run (\<lambda>s. s) (\<lambda>s. s) (\<lambda>_. True) (example_store, []) (st2, [g, f])"
    by (rule service_run.more [OF r1 service_step.heartbeats [OF b]]) simp
  obtain j a where ja: "service_active st2 f (seconds 6) = Inr (j, a)"
    using act(1) by (cases "service_active st2 f (seconds 6)") auto
  obtain k b' where kb: "service_active st2 g (seconds 6) = Inr (k, b')"
    using act(2) by (cases "service_active st2 g (seconds 6)") auto
  have "well_formed example_store" by code_simp
  from one_worker_per_job [OF this r2 _ _ same ja kb] have "af_fence f = af_fence g" by simp
  with r2 diff show ?thesis
    by (intro exI [of _ st2] exI [of _ "[g, f]"] exI [of _ f] exI [of _ g]) simp
qed

end
