(* ===== verification/Json.thy ===== *)
theory Json
  imports Complex_Main Prelude "HOL-Library.Char_ord" "HOL-Library.List_Lexorder" "HOL-Library.Multiset"
begin

text \<open>
  JSON documents and their canonical text, as the identity digests of the controller use them
  (\<^verbatim>\<open>resource_planning/identity.py\<close>): \<^verbatim>\<open>_canonical\<close>, the compact \<^verbatim>\<open>json.dumps(..., sort_keys=True)\<close>
  and \<^verbatim>\<open>_digest\<close>. A Python float is a rational number (every finite float is one) and its text,
  the shortest decimal that reads back, is the parameter \<open>float_repr\<close>; SHA-256 is the parameter
  \<open>sha256_hex\<close>.
\<close>

datatype json =
    JNull
  | JBool bool
  | JInt int
  | JFloat rat
  | JStr string
  | JList "json list"
  | JObj "(string \<times> json) list"

section \<open>Text\<close>

definition hex_digit :: "nat \<Rightarrow> char" where
  "hex_digit n = (if n < 10 then char_of (48 + n) else char_of (87 + n))"

text \<open>One character of a string, escaped as \<^verbatim>\<open>ensure_ascii\<close> does.\<close>

definition escape_char :: "char \<Rightarrow> string" where
  "escape_char c =
     (let n = of_char c :: nat
      in if n = 34 then [CHR 0x5C, CHR 0x22]
         else if n = 92 then [CHR 0x5C, CHR 0x5C]
         else if n = 10 then [CHR 0x5C, CHR ''n'']
         else if n = 13 then [CHR 0x5C, CHR ''r'']
         else if n = 9 then [CHR 0x5C, CHR ''t'']
         else if n = 12 then [CHR 0x5C, CHR ''f'']
         else if n = 8 then [CHR 0x5C, CHR ''b'']
         else if 32 \<le> n \<and> n \<le> 126 then [c]
         else [CHR 0x5C, CHR ''u'', CHR ''0'', CHR ''0'', hex_digit (n div 16), hex_digit (n mod 16)])"

definition dumps_string :: "string \<Rightarrow> string" where
  "dumps_string s = [CHR 0x22] @ concat (map escape_char s) @ [CHR 0x22]"

text \<open>\<^verbatim>\<open>json.dumps(value, sort_keys=True, separators=(",", ":"))\<close>.\<close>

fun dumps :: "(rat \<Rightarrow> string) \<Rightarrow> json \<Rightarrow> string" where
  "dumps float_repr JNull = ''null''"
| "dumps float_repr (JBool b) = (if b then ''true'' else ''false'')"
| "dumps float_repr (JInt i) = show_int i"
| "dumps float_repr (JFloat r) = float_repr r"
| "dumps float_repr (JStr s) = dumps_string s"
| "dumps float_repr (JList xs) = ''['' @ join '','' (map (dumps float_repr) xs) @ '']''"
| "dumps float_repr (JObj kvs) =
     [CHR 0x7B] @ join '','' (map (\<lambda>(k, v). dumps_string k @ '':'' @ dumps float_repr v)
       (sort_key fst kvs)) @ [CHR 0x7D]"

section \<open>Canonical documents\<close>

fun canonical :: "json \<Rightarrow> json" where
  "canonical (JObj kvs) = JObj (sort_key fst (map (\<lambda>(k, v). (k, canonical v)) kvs))"
| "canonical (JList xs) = JList (map canonical xs)"
| "canonical v = v"

definition digest :: "(string \<Rightarrow> string) \<Rightarrow> (rat \<Rightarrow> string) \<Rightarrow> json \<Rightarrow> string" where
  "digest sha256_hex float_repr v = sha256_hex (dumps float_repr (canonical v))"

definition is_digest :: "string \<Rightarrow> bool" where
  "is_digest v \<longleftrightarrow> length v = 64 \<and> list_all (\<lambda>c. c \<in> set ''0123456789abcdef'') v"

text \<open>
  Two documents that hold the same values under the same keys, whatever the order of the keys.
\<close>

inductive same_document :: "json \<Rightarrow> json \<Rightarrow> bool" where
  same: "same_document v v"
| obj: "distinct (map fst kvs) \<Longrightarrow> mset kvs = mset kvs' \<Longrightarrow>
    list_all2 (\<lambda>x y. fst x = fst y \<and> same_document (snd x) (snd y)) kvs' kvs'' \<Longrightarrow>
    same_document (JObj kvs) (JObj kvs'')"
| arr: "list_all2 same_document xs ys \<Longrightarrow> same_document (JList xs) (JList ys)"

lemma sort_key_fst_mset:
  fixes kvs kvs' :: "('k :: linorder \<times> 'a) list"
  assumes "distinct (map fst kvs)" "mset kvs = mset kvs'"
  shows "sort_key fst kvs = sort_key fst kvs'"
proof (rule map_sorted_distinct_set_unique [where f = fst])
  have sets: "set kvs = set kvs'" using assms(2) by (rule mset_eq_setD)
  have "mset (map fst kvs) = mset (map fst kvs')" using assms(2) by simp
  then have "distinct (map fst kvs')" using assms(1) mset_eq_imp_distinct_iff by blast
  moreover have "distinct (map fst (sort_key fst xs)) \<longleftrightarrow> distinct (map fst xs)"
    for xs :: "('k \<times> 'a) list"
    by (rule mset_eq_imp_distinct_iff) simp
  ultimately show "distinct (map fst (sort_key fst kvs))" "distinct (map fst (sort_key fst kvs'))"
    using assms(1) by simp_all
  show "inj_on fst (set (sort_key fst kvs) \<union> set (sort_key fst kvs'))"
    using assms(1) sets by (simp add: distinct_map)
  show "set (sort_key fst kvs) = set (sort_key fst kvs')" using sets by simp
qed simp_all

lemma canonical_same_document: "same_document v w \<Longrightarrow> canonical v = canonical w"
proof (induction rule: same_document.induct)
  case (obj kvs kvs' kvs'')
  let ?c = "\<lambda>(k, v). (k, canonical v)"
  have "map ?c kvs' = map ?c kvs''"
    using obj(3) by (induction rule: list_all2_induct) auto
  moreover have "sort_key fst (map ?c kvs) = sort_key fst (map ?c kvs')"
  proof (rule sort_key_fst_mset)
    have "map fst (map ?c kvs) = map fst kvs" by (induction kvs) auto
    then show "distinct (map fst (map ?c kvs))" using obj(1) by (simp only:)
    show "mset (map ?c kvs) = mset (map ?c kvs')" unfolding mset_map obj(2) ..
  qed
  ultimately show ?case by simp
next
  case (arr xs ys)
  have "map canonical xs = map canonical ys"
    using arr by (induction rule: list_all2_induct) auto
  then show ?case by simp
qed simp

end
