(* ===== verification/Swap.thy ===== *)
theory Swap
  imports Prelude
begin

text \<open>
  Spark swap sizes (\<^verbatim>\<open>agent_protocol/src/vonk_agent_protocol/swap.py\<close>): the policy's constants,
  the sizes an intent accepts, the part of the active swap a load may fill within the host
  memory guard's margins, and the search for the smallest whole-GiB size whose usable part
  holds a load. Python's unbounded integers are \<open>int\<close> and its floor division is \<open>div\<close>.
\<close>

definition GIB :: int where
  "GIB = 1024 ^ 3"

record swap_policy =
  minimum_gib :: int
  default_gib :: int
  maximum_gib :: int
  tolerance_mib :: int
  release_headroom_gib :: int
  exhausted_free_floor_gib :: int
  exhausted_free_percent :: int
  filling_used_percent :: int

definition SWAP_POLICY :: swap_policy where
  "SWAP_POLICY =
     \<lparr>minimum_gib = 16, default_gib = 64, maximum_gib = 128, tolerance_mib = 512,
      release_headroom_gib = 16, exhausted_free_floor_gib = 2, exhausted_free_percent = 10,
      filling_used_percent = 90\<rparr>"

text \<open>\<^verbatim>\<open>MAX_RUN_GENERATION\<close> of wire_model.py.\<close>

definition MAX_RUN_GENERATION :: int where
  "MAX_RUN_GENERATION = 2 ^ 63 - 1"

record swap_intent =
  swap_generation :: int
  swap_size_gib :: int

text \<open>The construction of a \<^verbatim>\<open>SwapIntent\<close>: its field bounds and \<^verbatim>\<open>within_policy\<close>.\<close>

definition make_swap_intent :: "int \<Rightarrow> int \<Rightarrow> swap_intent result" where
  "make_swap_intent generation size_gib =
     (if \<not> (0 \<le> generation \<and> generation \<le> MAX_RUN_GENERATION) then Inl ValueError
      else if \<not> (minimum_gib SWAP_POLICY \<le> size_gib \<and> size_gib \<le> maximum_gib SWAP_POLICY)
      then Inl ValueError
      else Inr \<lparr>swap_generation = generation, swap_size_gib = size_gib\<rparr>)"

definition default_swap :: "int \<Rightarrow> swap_intent result" where
  "default_swap generation = make_swap_intent generation (default_gib SWAP_POLICY)"

definition swap_reaches :: "int \<Rightarrow> int \<Rightarrow> bool" where
  "swap_reaches total_bytes size_bytes \<longleftrightarrow>
     total_bytes + tolerance_mib SWAP_POLICY * 1024 ^ 2 \<ge> size_bytes"

definition swap_satisfied :: "int \<Rightarrow> swap_intent \<Rightarrow> bool" where
  "swap_satisfied total_bytes desired \<longleftrightarrow> swap_reaches total_bytes (swap_size_gib desired * GIB)"

text \<open>\<^verbatim>\<open>kept_free\<close> of \<^verbatim>\<open>usable_swap_bytes\<close>: what the guard's first rule keeps free.\<close>

definition kept_free :: "int \<Rightarrow> int" where
  "kept_free total_bytes =
     max (exhausted_free_floor_gib SWAP_POLICY * GIB)
         (total_bytes div 100 * exhausted_free_percent SWAP_POLICY)"

definition usable_swap_bytes :: "int \<Rightarrow> int" where
  "usable_swap_bytes total_bytes =
     max 0 (min (total_bytes - kept_free total_bytes)
                (total_bytes div 100 * filling_used_percent SWAP_POLICY))"

lemma usable_swap_eq:
  "usable_swap_bytes t =
     max 0 (min (t - max 2147483648 (t div 100 * 10)) (t div 100 * 90))"
  by (simp add: usable_swap_bytes_def kept_free_def SWAP_POLICY_def GIB_def)

lemma GIB_eq: "GIB = 1073741824"
  by (simp add: GIB_def)

lemma usable_swap_large: "2 * load + 20 * GIB \<le> t \<Longrightarrow> 0 \<le> load \<Longrightarrow> load \<le> usable_swap_bytes t"
proof -
  assume a: "2 * load + 20 * GIB \<le> t" "0 \<le> load"
  define q where "q = t div 100"
  have q: "t - 99 \<le> 100 * q" "100 * q \<le> t" by (auto simp: q_def)
  from a q have "load \<le> t - 2147483648" "load \<le> t - q * 10" "load \<le> q * 90"
    by (auto simp: GIB_eq)
  then show ?thesis by (simp add: usable_swap_eq q_def [symmetric])
qed

text \<open>The loop of \<^verbatim>\<open>swap_needed_bytes\<close>, from a size in GiB upwards.\<close>

function swap_grow :: "int \<Rightarrow> int \<Rightarrow> int" where
  "swap_grow load_bytes size_gib =
     (if usable_swap_bytes (size_gib * GIB) < load_bytes
      then swap_grow load_bytes (size_gib + 1) else size_gib)"
  by pat_completeness auto

termination
proof (relation "measure (\<lambda>(load, n). nat (2 * max load 0 + 20 * GIB - n * GIB))")
  fix load n :: int
  assume u: "usable_swap_bytes (n * GIB) < load"
  have "0 \<le> usable_swap_bytes (n * GIB)" by (simp add: usable_swap_bytes_def)
  with u have "0 < load" by linarith
  with u usable_swap_large [of load "n * GIB"] have "n * GIB < 2 * load + 20 * GIB" by linarith
  with \<open>0 < load\<close> show "((load, n + 1), (load, n))
      \<in> measure (\<lambda>(load, n). nat (2 * max load 0 + 20 * GIB - n * GIB))"
    by (simp add: algebra_simps GIB_eq)
qed simp

declare swap_grow.simps [simp del]

definition swap_needed_bytes :: "int \<Rightarrow> int" where
  "swap_needed_bytes load_bytes =
     (if load_bytes \<le> 0 then 0
      else swap_grow load_bytes (- ((- load_bytes) div GIB)) * GIB)"

section \<open>The guard's margins\<close>

lemma usable_swap_bounds:
  "0 \<le> usable_swap_bytes t" "0 \<le> t \<Longrightarrow> usable_swap_bytes t \<le> t"
  by (auto simp: usable_swap_eq)

text \<open>Of the two margins only the floor and the filling percentage bind.\<close>

lemma usable_swap_min: "usable_swap_bytes t = max 0 (min (t - 2147483648) (t div 100 * 90))"
proof -
  have "t div 100 * 90 \<le> t - t div 100 * 10" by linarith
  then show ?thesis unfolding usable_swap_eq by linarith
qed

lemma usable_swap_mono:
  assumes "s \<le> t"
  shows "usable_swap_bytes s \<le> usable_swap_bytes t"
proof -
  have "s div 100 \<le> t div 100" using assms by (rule zdiv_mono1) simp
  with assms show ?thesis by (auto simp: usable_swap_min)
qed

text \<open>
  A load that stays within the usable swap triggers neither of the host memory guard's
  rules: with \<open>used\<close> bytes in use, at least the larger of two GiB and ten percent of the total
  stays free, and at most ninety percent is used.
\<close>

lemma usable_swap_within_guard:
  assumes "0 < used" "used \<le> usable_swap_bytes active"
  shows "exhausted_free_floor_gib SWAP_POLICY * GIB \<le> active - used \<and>
    active div 100 * exhausted_free_percent SWAP_POLICY \<le> active - used \<and>
    used \<le> active div 100 * filling_used_percent SWAP_POLICY"
  using assms by (auto simp: usable_swap_bytes_def kept_free_def)

section \<open>The size a load needs\<close>

lemma swap_grow_holds: "load \<le> usable_swap_bytes (swap_grow load n * GIB)"
proof (induction load n rule: swap_grow.induct)
  case (1 load n)
  then show ?case by (subst swap_grow.simps) (auto simp: swap_grow.simps [of load n])
qed

lemma swap_grow_ge: "n \<le> swap_grow load n"
proof (induction load n rule: swap_grow.induct)
  case (1 load n)
  then show ?case by (cases "usable_swap_bytes (n * GIB) < load") (auto simp: swap_grow.simps [of load n])
qed

lemma swap_grow_first: "n \<le> m \<Longrightarrow> m < swap_grow load n \<Longrightarrow> usable_swap_bytes (m * GIB) < load"
proof (induction load n rule: swap_grow.induct)
  case (1 load n)
  show ?case
  proof (cases "usable_swap_bytes (n * GIB) < load")
    case True
    show ?thesis
    proof (cases "m = n")
      case False
      with 1 True show ?thesis by (simp add: swap_grow.simps [of load n])
    qed (use True in simp)
  next
    case False
    with "1.prems" show ?thesis by (simp add: swap_grow.simps [of load n])
  qed
qed

text \<open>
  (C28) The size search always ends, and its answer is the smallest whole number of GiB whose
  usable part holds the load: the answer suffices and every smaller whole-GiB total does not.
\<close>

theorem swap_needed_is_least:
  assumes "0 < load"
  shows "\<exists>n. swap_needed_bytes load = n * GIB \<and> 0 < n \<and> load \<le> usable_swap_bytes (n * GIB) \<and>
    (\<forall>m. 0 \<le> m \<and> m < n \<longrightarrow> usable_swap_bytes (m * GIB) < load)"
proof (intro exI conjI allI impI)
  let ?start = "- ((- load) div GIB)"
  let ?n = "swap_grow load ?start"
  show "swap_needed_bytes load = ?n * GIB" using assms by (simp add: swap_needed_bytes_def)
  have start: "0 < ?start" using assms by (simp add: GIB_eq)
  then show "0 < ?n" using swap_grow_ge [of ?start load] by linarith
  show "load \<le> usable_swap_bytes (?n * GIB)" by (rule swap_grow_holds)
  fix m assume m: "0 \<le> m \<and> m < ?n"
  show "usable_swap_bytes (m * GIB) < load"
  proof (cases "?start \<le> m")
    case True
    with m show ?thesis by (intro swap_grow_first [where n = ?start]) auto
  next
    case False
    then have "m * GIB < load" by (simp add: GIB_eq)
    moreover have "usable_swap_bytes (m * GIB) \<le> m * GIB"
      using m by (intro usable_swap_bounds) (simp add: GIB_eq)
    ultimately show ?thesis by simp
  qed
qed

theorem swap_needed_is_least_witness:
  "\<exists>n. swap_needed_bytes (57 * GIB) = n * GIB \<and> 57 * GIB \<le> usable_swap_bytes (n * GIB) \<and> 63 < n"
proof -
  have "\<not> usable_swap_bytes (m * GIB) < 57 * GIB \<Longrightarrow> 63 < m" for m
    using usable_swap_mono [of "m * GIB" "63 * GIB"]
    by (cases "m \<le> 63") (auto simp: usable_swap_min GIB_eq)
  with swap_needed_is_least [of "57 * GIB"] show ?thesis by (fastforce simp: GIB_eq)
qed

end
