(* ===== verification/Resource_Types.thy ===== *)
theory Resource_Types
  imports Swap
begin

text \<open>
  The values of resource planning (\<^verbatim>\<open>control/src/vonk_control/resource_planning/types.py\<close>), its
  reason codes (\<^verbatim>\<open>reason_codes/resources.py\<close>, \<^verbatim>\<open>lifecycle_vocabulary.py\<close>), the reason
  builder (\<^verbatim>\<open>reasons.py\<close>) and the kinds of memory (\<^verbatim>\<open>memory_kinds.py\<close>).

  A byte count is an \<open>int\<close>; the source's tests \<^verbatim>\<open>type(value) is int\<close> tell a count from a
  missing one, so a field that is not typed \<^verbatim>\<open>int\<close> is an \<open>int option\<close>. The instant of an
  observation is used only to be printed and is kept as its ISO text.
\<close>

section \<open>Codes and reasons\<close>

datatype resource_blocker_code =
    CAPACITY_UNKNOWN
  | DEMAND_EXCEEDS_CAPACITY
  | INSUFFICIENT
  | INSUFFICIENT_CAPACITY
  | INSUFFICIENT_CAPACITY_AFTER_STOP
  | INSUFFICIENT_RESERVATION_BUDGET
  | INSUFFICIENT_SWAP
  | RESIDENT_USAGE_UNKNOWN

primrec resource_blocker_code_value :: "resource_blocker_code \<Rightarrow> string" where
  "resource_blocker_code_value CAPACITY_UNKNOWN = ''resource.capacity_unknown''"
| "resource_blocker_code_value DEMAND_EXCEEDS_CAPACITY = ''resource.demand_exceeds_capacity''"
| "resource_blocker_code_value INSUFFICIENT = ''resource.insufficient''"
| "resource_blocker_code_value INSUFFICIENT_CAPACITY = ''resource.insufficient_capacity''"
| "resource_blocker_code_value INSUFFICIENT_CAPACITY_AFTER_STOP =
     ''resource.insufficient_capacity_after_stop''"
| "resource_blocker_code_value INSUFFICIENT_RESERVATION_BUDGET =
     ''resource.insufficient_reservation_budget''"
| "resource_blocker_code_value INSUFFICIENT_SWAP = ''resource.insufficient_swap''"
| "resource_blocker_code_value RESIDENT_USAGE_UNKNOWN = ''resource.resident_usage_unknown''"

datatype resource_planning_code =
    ENVELOPE_EXCEEDS_CAPACITY
  | ENVELOPE_UNVERIFIED
  | ESTIMATE_UNCERTAIN
  | EVIDENCE_INVALID
  | EVIDENCE_UNKNOWN
  | KNOBS_INVALID
  | PARALLELISM_DUPLICATE
  | PARALLELISM_INCONSISTENT
  | PARALLELISM_TYPE
  | PARALLELISM_UNKNOWN
  | SETTINGS_KIND_UNKNOWN
  | SETTINGS_TYPE
  | SETTINGS_UNKNOWN
  | STOP_RELEASE_UNKNOWN
  | CONTEXT_UNKNOWN
  | CONTEXT_EVIDENCE_INVALID
  | CONTEXT_UNSUPPORTED
  | CONTEXT_EVIDENCE_UNKNOWN
  | CONCURRENCY_UNKNOWN
  | CONCURRENCY_EVIDENCE_INVALID
  | CONCURRENCY_UNSUPPORTED
  | CONCURRENCY_EVIDENCE_UNKNOWN
  | BATCH_UNKNOWN
  | BATCH_EVIDENCE_INVALID
  | BATCH_UNSUPPORTED
  | BATCH_EVIDENCE_UNKNOWN

primrec resource_planning_code_value :: "resource_planning_code \<Rightarrow> string" where
  "resource_planning_code_value ENVELOPE_EXCEEDS_CAPACITY = ''resource.envelope_exceeds_capacity''"
| "resource_planning_code_value ENVELOPE_UNVERIFIED = ''resource.envelope_unverified''"
| "resource_planning_code_value ESTIMATE_UNCERTAIN = ''resource.estimate_uncertain''"
| "resource_planning_code_value EVIDENCE_INVALID = ''resource.evidence_invalid''"
| "resource_planning_code_value EVIDENCE_UNKNOWN = ''resource.evidence_unknown''"
| "resource_planning_code_value KNOBS_INVALID = ''resource.knobs_invalid''"
| "resource_planning_code_value PARALLELISM_DUPLICATE = ''resource.parallelism_duplicate''"
| "resource_planning_code_value PARALLELISM_INCONSISTENT = ''resource.parallelism_inconsistent''"
| "resource_planning_code_value PARALLELISM_TYPE = ''resource.parallelism_type''"
| "resource_planning_code_value PARALLELISM_UNKNOWN = ''resource.parallelism_unknown''"
| "resource_planning_code_value SETTINGS_KIND_UNKNOWN = ''resource.settings_kind_unknown''"
| "resource_planning_code_value SETTINGS_TYPE = ''resource.settings_type''"
| "resource_planning_code_value SETTINGS_UNKNOWN = ''resource.settings_unknown''"
| "resource_planning_code_value STOP_RELEASE_UNKNOWN = ''resource.stop_release_unknown''"
| "resource_planning_code_value CONTEXT_UNKNOWN = ''resource.context_unknown''"
| "resource_planning_code_value CONTEXT_EVIDENCE_INVALID = ''resource.context_evidence_invalid''"
| "resource_planning_code_value CONTEXT_UNSUPPORTED = ''resource.context_unsupported''"
| "resource_planning_code_value CONTEXT_EVIDENCE_UNKNOWN = ''resource.context_evidence_unknown''"
| "resource_planning_code_value CONCURRENCY_UNKNOWN = ''resource.concurrency_unknown''"
| "resource_planning_code_value CONCURRENCY_EVIDENCE_INVALID = ''resource.concurrency_evidence_invalid''"
| "resource_planning_code_value CONCURRENCY_UNSUPPORTED = ''resource.concurrency_unsupported''"
| "resource_planning_code_value CONCURRENCY_EVIDENCE_UNKNOWN = ''resource.concurrency_evidence_unknown''"
| "resource_planning_code_value BATCH_UNKNOWN = ''resource.batch_unknown''"
| "resource_planning_code_value BATCH_EVIDENCE_INVALID = ''resource.batch_evidence_invalid''"
| "resource_planning_code_value BATCH_UNSUPPORTED = ''resource.batch_unsupported''"
| "resource_planning_code_value BATCH_EVIDENCE_UNKNOWN = ''resource.batch_evidence_unknown''"

datatype resource_term = Context_term | Concurrency_term | Batch_term

primrec resource_term_value :: "resource_term \<Rightarrow> string" where
  "resource_term_value Context_term = ''context''"
| "resource_term_value Concurrency_term = ''concurrency''"
| "resource_term_value Batch_term = ''batch''"

datatype term_problem = Term_unknown | Term_evidence_invalid | Term_unsupported | Term_evidence_unknown

primrec term_problem_value :: "term_problem \<Rightarrow> string" where
  "term_problem_value Term_unknown = ''unknown''"
| "term_problem_value Term_evidence_invalid = ''evidence_invalid''"
| "term_problem_value Term_unsupported = ''unsupported''"
| "term_problem_value Term_evidence_unknown = ''evidence_unknown''"

text \<open>\<^verbatim>\<open>resource_term_code\<close>: the word of the member; \<open>resource_term_code_member\<close> shows that
  the member exists, so the enum's constructor does not raise.\<close>

definition resource_term_code :: "resource_term \<Rightarrow> term_problem \<Rightarrow> string" where
  "resource_term_code name problem =
     ''resource.'' @ resource_term_value name @ ''_'' @ term_problem_value problem"

lemma resource_term_code_member:
  "\<exists>code. resource_planning_code_value code = resource_term_code name problem"
proof (cases name; cases problem)
qed (auto simp: resource_term_code_def
      intro: exI [of _ CONTEXT_UNKNOWN] exI [of _ CONTEXT_EVIDENCE_INVALID]
        exI [of _ CONTEXT_UNSUPPORTED] exI [of _ CONTEXT_EVIDENCE_UNKNOWN]
        exI [of _ CONCURRENCY_UNKNOWN] exI [of _ CONCURRENCY_EVIDENCE_INVALID]
        exI [of _ CONCURRENCY_UNSUPPORTED] exI [of _ CONCURRENCY_EVIDENCE_UNKNOWN]
        exI [of _ BATCH_UNKNOWN] exI [of _ BATCH_EVIDENCE_INVALID]
        exI [of _ BATCH_UNSUPPORTED] exI [of _ BATCH_EVIDENCE_UNKNOWN])

datatype severity = Blocker | Warning

record swap_shortfall =
  active_bytes :: int
  desired_setting :: "int option"
  used_swap :: int
  held_swap :: int
  usable_bytes :: int
  rise_bytes :: int
  needed_setting_bytes :: int

record resource_reason =
  rr_code :: string
  rr_detail :: string
  rr_severity :: severity
  rr_node_id :: "string option"
  rr_swap :: "swap_shortfall option"

text \<open>\<^verbatim>\<open>_reason\<close>: the detail is cut to the 512 characters that are persisted.\<close>

definition make_reason ::
  "string \<Rightarrow> string \<Rightarrow> severity \<Rightarrow> string option \<Rightarrow> swap_shortfall option \<Rightarrow> resource_reason" where
  "make_reason code detail severity node_id swap =
     \<lparr>rr_code = code, rr_detail = take 512 detail, rr_severity = severity, rr_node_id = node_id,
      rr_swap = swap\<rparr>"

text \<open>\<^verbatim>\<open>any(reason.severity == "blocker" for reason in reasons)\<close>.\<close>

definition blocked :: "resource_reason list \<Rightarrow> bool" where
  "blocked reasons \<longleftrightarrow> list_ex (\<lambda>r. rr_severity r = Blocker) reasons"

lemma blocked_simps [simp]:
  "\<not> blocked []" "blocked (r # rs) \<longleftrightarrow> rr_severity r = Blocker \<or> blocked rs"
  "blocked (rs @ ts) \<longleftrightarrow> blocked rs \<or> blocked ts"
  by (simp_all add: blocked_def)

lemma blocked_set: "blocked rs \<longleftrightarrow> (\<exists>r \<in> set rs. rr_severity r = Blocker)"
  by (simp add: blocked_def list_ex_iff)

lemma severity_of_reason [simp]: "rr_severity (make_reason c d s n w) = s"
  by (simp add: make_reason_def)

lemma code_of_reason [simp]: "rr_code (make_reason c d s n w) = c"
  by (simp add: make_reason_def)

section \<open>Kinds of memory\<close>

definition same_memory_kind :: "string \<Rightarrow> string \<Rightarrow> bool" where
  "same_memory_kind left right \<longleftrightarrow>
     {left, right} \<subseteq> {''unified'', ''unified-memory''}
     \<or> {left, right} \<subseteq> {''host'', ''host-memory''}
     \<or> {left, right} \<subseteq> {''accelerator'', ''gpu-memory''}"

datatype memory_pool = Shared | Separate

text \<open>\<^verbatim>\<open>memory_reservation_kind\<close>, a dict lookup.\<close>

definition memory_reservation_kind :: "string \<Rightarrow> string result" where
  "memory_reservation_kind kind =
     (if kind = ''unified'' then Inr ''unified-memory''
      else if kind = ''host'' then Inr ''host-memory''
      else if kind = ''accelerator'' then Inr ''gpu-memory''
      else Inl KeyError)"

definition memory_reservation_kinds :: "string \<Rightarrow> memory_pool \<Rightarrow> string list result" where
  "memory_reservation_kinds kind pool =
     (let kinds = [''host-memory'', ''gpu-memory'', ''unified-memory'']
      in if kind \<notin> set kinds then Inl ValueError
         else if pool = Shared then Inr kinds
         else if kind = ''unified-memory'' then Inr kinds
         else Inr [kind, ''unified-memory''])"

section \<open>Demands, capacities and plans\<close>

datatype evidence_state = Declared | Measured | Fresh | Stale | Unknown

record resource_demand =
  weights_bytes :: "int option"
  runtime_overhead_bytes :: "int option"
  context_bytes :: "int option"
  concurrency_bytes :: "int option"
  batch_bytes :: "int option"
  total_bytes :: "int option"
  demand_evidence :: evidence_state
  demand_reasons :: "resource_reason list"
  load_overshoot_bytes :: int
  minimum_swap_bytes :: int

definition demand_allowed :: "resource_demand \<Rightarrow> bool" where
  "demand_allowed d \<longleftrightarrow> total_bytes d \<noteq> None \<and> \<not> blocked (demand_reasons d)"

record residual =
  residual_run_id :: string
  residual_generation :: int
  residual_kind :: string
  maximum_bytes :: int

text \<open>\<^verbatim>\<open>MemoryClaimHolder\<close> with the two fields of its \<^verbatim>\<open>OwnerRef\<close>.\<close>

record claim_holder =
  holder_owner_kind :: string
  holder_owner_id :: string
  holder_amount :: int

record swap_holder =
  swap_run_id :: string
  swap_held :: int
  swap_job_run :: bool

record swap_capacity =
  swap_total :: int
  swap_used :: int
  swap_holders :: "swap_holder list"
  swap_desired :: "int option"

definition held_bytes :: "swap_capacity \<Rightarrow> int" where
  "held_bytes swap = sum_list (map swap_held (swap_holders swap))"

definition NO_SWAP :: swap_capacity where
  "NO_SWAP = \<lparr>swap_total = 0, swap_used = 0, swap_holders = [], swap_desired = None\<rparr>"

text \<open>
  \<^verbatim>\<open>CapacitySnapshot\<close>: the fields of one pool, and the components of a snapshot that covers
  several pools (empty for a single one).
\<close>

record pool_capacity =
  cap_node_id :: string
  cap_memory_kind :: string
  available_bytes :: "int option"
  occupied_bytes :: "int option"
  reserved_bytes :: "int option"
  cap_evidence :: evidence_state
  evidence_digest :: "string option"
  unmaterialized_bytes :: "int option"
  unknown_run_residuals :: "residual list"
  evidence_observed_at :: "string option"
  kept_bytes :: int
  unmaterialized_holders :: "claim_holder list"
  releasing_bytes :: int
  free_upside_bytes :: int
  cap_swap :: swap_capacity

datatype capacity_snapshot =
  Capacity (pool_of: pool_capacity) (components_of: "capacity_snapshot list")

record planned_stop =
  stop_run_id :: string
  stop_node_id :: string
  stop_memory_kind :: string
  release_bytes :: "int option"
  planned :: bool
  plan_digest :: "string option"

record node_plan =
  np_node_id :: string
  required_bytes :: "int option"
  current_free_after_bytes :: "int option"
  after_stop_free_after_bytes :: "int option"
  selected_free_after_bytes :: "int option"
  stop_required :: bool
  np_allowed :: bool
  np_reasons :: "resource_reason list"
  insufficient_components :: "string list"
  np_residuals :: "residual list"

record capacity_plan =
  cp_nodes :: "node_plan list"
  cp_allowed :: bool
  stop_before_prepare :: bool
  cp_reasons :: "resource_reason list"


end
