(* ===== verification/Resource_Settings.thy ===== *)
theory Resource_Settings
  imports Json Resource_Types Failure_Classification
begin

text \<open>
  The effective settings of a recipe (\<^verbatim>\<open>resource_planning/settings.py\<close> and the settings types of
  \<^verbatim>\<open>types.py\<close>): reading them from a canonical document and deciding what a change of settings
  costs (reuse, restart, reprepare, reinstall, rebuild).

  The validation of a document against the published recipe contract is done by the contract
  package and Pydantic: it is the parameter \<open>project\<close>, whose answer is the validated projection,
  the issues of a validation error, or that the document cannot be rendered as JSON.
\<close>

datatype settings_kind = Generation | Decision_kind | Embedding | Job_settings

primrec settings_kind_value :: "settings_kind \<Rightarrow> string" where
  "settings_kind_value Generation = ''generation''"
| "settings_kind_value Decision_kind = ''decision''"
| "settings_kind_value Embedding = ''embedding''"
| "settings_kind_value Job_settings = ''job''"

text \<open>A knob's value, with Python's equality: numbers and truth values compare by value.\<close>

datatype scalar = Text_scalar string | Int_scalar int | Float_scalar rat | Bool_scalar bool

primrec scalar_json :: "scalar \<Rightarrow> json" where
  "scalar_json (Text_scalar s) = JStr s"
| "scalar_json (Int_scalar i) = JInt i"
| "scalar_json (Float_scalar r) = JFloat r"
| "scalar_json (Bool_scalar b) = JBool b"

fun scalar_number :: "scalar \<Rightarrow> rat option" where
  "scalar_number (Text_scalar s) = None"
| "scalar_number (Int_scalar i) = Some (of_int i)"
| "scalar_number (Float_scalar r) = Some r"
| "scalar_number (Bool_scalar b) = Some (if b then 1 else 0)"

definition scalar_eq :: "scalar \<Rightarrow> scalar \<Rightarrow> bool" where
  "scalar_eq a b \<longleftrightarrow> a = b \<or> (scalar_number a \<noteq> None \<and> scalar_number a = scalar_number b)"

record parallelism =
  world_size :: int
  tensor :: int
  pipeline :: int
  data_parallel :: int
  backend :: string

record settings =
  se_kind :: settings_kind
  se_context_tokens :: "int option"
  se_concurrency :: "int option"
  se_batch_tokens :: "int option"
  se_parallelism :: parallelism
  se_knobs :: "(string \<times> scalar) list"
  se_change_effects :: "(string \<times> string) list"
  se_identity_digest :: string

record settings_resolution =
  sr_settings :: "settings option"
  sr_reasons :: "resource_reason list"

definition resolution_allowed :: "settings_resolution \<Rightarrow> bool" where
  "resolution_allowed r \<longleftrightarrow> sr_settings r \<noteq> None \<and> \<not> blocked (sr_reasons r)"

section \<open>Identity\<close>

definition opt_int_json :: "int option \<Rightarrow> json" where
  "opt_int_json n = (case n of None \<Rightarrow> JNull | Some i \<Rightarrow> JInt i)"

definition parallelism_json :: "parallelism \<Rightarrow> json" where
  "parallelism_json p =
     JObj [(''world_size'', JInt (world_size p)), (''tensor'', JInt (tensor p)),
           (''pipeline'', JInt (pipeline p)), (''data'', JInt (data_parallel p)),
           (''backend'', JStr (backend p))]"

definition knobs_json :: "(string \<times> scalar) list \<Rightarrow> json" where
  "knobs_json knobs = canonical (JObj (map (\<lambda>(k, v). (k, scalar_json v)) knobs))"

text \<open>
  \<^verbatim>\<open>EffectiveResourceSettings.identity\<close> under the given name of the batch setting:
  \<^verbatim>\<open>batch_tokens\<close> there, \<^verbatim>\<open>max_batch_tokens\<close> in the document that
  \<^verbatim>\<open>resolve_effective_settings\<close> digests.
\<close>

definition settings_identity :: "string \<Rightarrow> settings \<Rightarrow> json" where
  "settings_identity batch_name s =
     JObj [(''kind'', JStr (settings_kind_value (se_kind s))),
           (''context_tokens'', opt_int_json (se_context_tokens s)),
           (''concurrency'', opt_int_json (se_concurrency s)),
           (batch_name, opt_int_json (se_batch_tokens s)),
           (''parallelism'', parallelism_json (se_parallelism s)),
           (''knobs'', knobs_json (se_knobs s))]"

section \<open>Reading settings\<close>

text \<open>A value of the recipe's settings with what changing it costs.\<close>

record 'v tuned =
  tuned_value :: 'v
  change_effect :: string

text \<open>
  The validated settings of a recipe. A kind without a context (embedding, job) or without a
  batch size (job) has no such field: it is not read.
\<close>

record recipe_settings =
  rs_kind :: settings_kind
  rs_context_tokens :: "int tuned"
  rs_concurrency :: "int tuned option"
  rs_max_batch_tokens :: "int tuned option"
  rs_knobs :: "(string \<times> scalar tuned) list"

record recipe_projection =
  rp_settings :: recipe_settings
  rp_node_count :: int
  rp_tensor :: int
  rp_pipeline :: int
  rp_data :: int
  rp_backend :: string

datatype projection_outcome =
    Projected recipe_projection
  | Invalid "issue list"
  | Unrenderable

text \<open>\<^verbatim>\<open>EffectiveSettingsSelection\<close> of the run-switch contract has the fields of \<open>settings\<close>.\<close>

datatype 'd settings_source =
    Effective settings
  | Selection settings
  | Document 'd
  | Other_value

definition settings_issue_code :: "issue \<Rightarrow> resource_planning_code" where
  "settings_issue_code i =
     (if ''parallelism'' \<in> set (issue_loc i) \<and> ''settings'' \<in> set (issue_loc i)
      then PARALLELISM_DUPLICATE
      else if ''topology'' \<in> set (issue_loc i)
      then (if issue_type i = ''missing'' then PARALLELISM_UNKNOWN else PARALLELISM_TYPE)
      else if ''knobs'' \<in> set (issue_loc i) then KNOBS_INVALID
      else if issue_type i \<in> {''union_tag_invalid'', ''union_tag_not_found''}
      then SETTINGS_KIND_UNKNOWN
      else SETTINGS_TYPE)"

definition unresolved :: "resource_planning_code \<Rightarrow> string \<Rightarrow> settings_resolution" where
  "unresolved code detail =
     \<lparr>sr_settings = None,
      sr_reasons = [make_reason (resource_planning_code_value code) detail Blocker None None]\<rparr>"

text \<open>A dict as its items: an assignment replaces the value or appends the key.\<close>

fun upsert :: "('k \<times> 'v) list \<Rightarrow> 'k \<Rightarrow> 'v \<Rightarrow> ('k \<times> 'v) list" where
  "upsert [] key v = [(key, v)]"
| "upsert ((k, w) # rest) key v = (if k = key then (k, v) # rest else (k, w) # upsert rest key v)"

definition textual :: "settings_kind \<Rightarrow> bool" where
  "textual kind \<longleftrightarrow> kind = Generation \<or> kind = Decision_kind"

definition recipe_effects :: "recipe_settings \<Rightarrow> (string \<times> string) list" where
  "recipe_effects s =
     (let knobs = map (\<lambda>(name, t). (name, change_effect t)) (rs_knobs s);
          context = (if textual (rs_kind s)
             then upsert knobs ''context_tokens'' (change_effect (rs_context_tokens s)) else knobs);
          concurrency = (case rs_concurrency s of None \<Rightarrow> context
             | Some t \<Rightarrow> upsert context ''concurrency'' (change_effect t))
      in case rs_max_batch_tokens s of
           Some t \<Rightarrow> (if rs_kind s \<noteq> Job_settings
                     then upsert concurrency ''max_batch_tokens'' (change_effect t)
                     else concurrency)
         | None \<Rightarrow> concurrency)"

definition projected_settings ::
  "(json \<Rightarrow> string) \<Rightarrow> recipe_projection \<Rightarrow> settings_resolution" where
  "projected_settings digest_of recipe =
     (let s = rp_settings recipe
      in if rp_tensor recipe * rp_pipeline recipe * rp_data recipe \<noteq> rp_node_count recipe
         then unresolved PARALLELISM_INCONSISTENT
                ''Topology parallelism product does not equal node_count.''
         else
          (let bare =
             \<lparr>se_kind = rs_kind s,
              se_context_tokens =
                (if textual (rs_kind s) then Some (tuned_value (rs_context_tokens s)) else None),
              se_concurrency = map_option tuned_value (rs_concurrency s),
              se_batch_tokens =
                (if rs_kind s \<noteq> Job_settings then map_option tuned_value (rs_max_batch_tokens s)
                 else None),
              se_parallelism =
                \<lparr>world_size = rp_node_count recipe, tensor = rp_tensor recipe,
                 pipeline = rp_pipeline recipe, data_parallel = rp_data recipe,
                 backend = rp_backend recipe\<rparr>,
              se_knobs = map (\<lambda>(name, t). (name, tuned_value t)) (rs_knobs s),
              se_change_effects = recipe_effects s, se_identity_digest = []\<rparr>
           in \<lparr>sr_settings = Some (bare
                 \<lparr>se_identity_digest := digest_of (settings_identity ''max_batch_tokens'' bare)\<rparr>),
               sr_reasons = []\<rparr>))"

definition resolve_effective_settings ::
  "('d \<Rightarrow> projection_outcome) \<Rightarrow> (json \<Rightarrow> string) \<Rightarrow> 'd settings_source
     \<Rightarrow> settings_resolution" where
  "resolve_effective_settings project digest_of value =
     (case value of
        Effective s \<Rightarrow> \<lparr>sr_settings = Some s, sr_reasons = []\<rparr>
      | Selection s \<Rightarrow> \<lparr>sr_settings = Some s, sr_reasons = []\<rparr>
      | Other_value \<Rightarrow>
          unresolved SETTINGS_UNKNOWN ''Canonical effective settings are unavailable.''
      | Document d \<Rightarrow>
          (case project d of
             Invalid issues \<Rightarrow>
               \<lparr>sr_settings = None,
                sr_reasons = fromkeys (map (\<lambda>i.
                  make_reason (resource_planning_code_value (settings_issue_code i))
                    (''Canonical resource settings are invalid: '' @ join ''.'' (issue_loc i))
                    Blocker None None) issues)\<rparr>
           | Unrenderable \<Rightarrow>
               unresolved SETTINGS_UNKNOWN ''Canonical effective settings cannot be read.''
           | Projected recipe \<Rightarrow> projected_settings digest_of recipe))"

section \<open>What a change costs\<close>

datatype preparation_effect = Reuse | Restart | Reprepare | Reinstall | Rebuild

record preparation_decision =
  pd_effect :: preparation_effect
  settings_changed :: "string list"
  compatibility_changed :: bool
  requires_restart :: bool
  requires_reprepare :: bool
  requires_reinstall :: bool
  requires_rebuild :: bool
  settings_digest :: string

definition CHANGE_EFFECTS :: "string list" where
  "CHANGE_EFFECTS = [''none'', ''restart'', ''reprepare'', ''rebuild'', ''reinstall'']"

text \<open>Equality of two dicts of knobs.\<close>

definition knobs_eq :: "(string \<times> scalar) list \<Rightarrow> (string \<times> scalar) list \<Rightarrow> bool" where
  "knobs_eq xs ys \<longleftrightarrow> set (map fst xs) = set (map fst ys) \<and>
     list_all (\<lambda>(k, v). case map_of ys k of None \<Rightarrow> False | Some w \<Rightarrow> scalar_eq v w) xs"

text \<open>The keys of \<^verbatim>\<open>current_identity\<close> whose values differ from the previous ones.\<close>

definition changed_keys :: "settings option \<Rightarrow> settings \<Rightarrow> string list" where
  "changed_keys previous current =
     map fst (filter (\<lambda>(key, same). \<not> same)
       (case previous of
          None \<Rightarrow> [(''kind'', False), (''context_tokens'', False), (''concurrency'', False),
                   (''batch_tokens'', False), (''parallelism'', False), (''knobs'', False)]
        | Some p \<Rightarrow>
            [(''kind'', se_kind current = se_kind p),
             (''context_tokens'', se_context_tokens current = se_context_tokens p),
             (''concurrency'', se_concurrency current = se_concurrency p),
             (''batch_tokens'', se_batch_tokens current = se_batch_tokens p),
             (''parallelism'', se_parallelism current = se_parallelism p),
             (''knobs'', knobs_eq (se_knobs current) (se_knobs p))]))"

definition classify_settings ::
  "(json \<Rightarrow> string) \<Rightarrow> settings option \<Rightarrow> settings \<Rightarrow> (string \<times> string) list
     \<Rightarrow> preparation_decision result" where
  "classify_settings digest_of previous current parameter_effects =
     (let changed = changed_keys previous current;
          effects = foldl (\<lambda>m (k, v). upsert m k v) (se_change_effects current) parameter_effects
      in if list_ex (\<lambda>(k, e). e \<notin> set CHANGE_EFFECTS) effects then Inl ValueError
         else
          (let active = filter (\<lambda>(k, e). e \<noteq> ''none'') effects;
               words = map snd active;
               rebuild = ''rebuild'' \<in> set words;
               reinstall = (rebuild \<or> ''reinstall'' \<in> set words \<or> ''parallelism'' \<in> set changed);
               reprepare = (reinstall \<or>
                 list_ex (\<lambda>k. k \<in> {''context_tokens'', ''concurrency'', ''batch_tokens'', ''knobs'',
                                   ''kind''}) changed
                 \<or> ''reprepare'' \<in> set words);
               restart = (reprepare \<or> changed \<noteq> [] \<or> ''restart'' \<in> set words)
           in Inr
             \<lparr>pd_effect = (if rebuild then Rebuild else if reinstall then Reinstall
                else if reprepare then Reprepare else if restart then Restart else Reuse),
              settings_changed = sort (remdups (changed @ map fst active)),
              compatibility_changed = (changed \<noteq> [] \<or> active \<noteq> []),
              requires_restart = restart, requires_reprepare = reprepare,
              requires_reinstall = reinstall, requires_rebuild = rebuild,
              settings_digest = (if se_identity_digest current \<noteq> [] then se_identity_digest current
                else digest_of (settings_identity ''batch_tokens'' current))\<rparr>))"

text \<open>\<^verbatim>\<open>classify_preparation_effects\<close>: the settings are resolved first.\<close>

definition classify_preparation_effects ::
  "('d \<Rightarrow> projection_outcome) \<Rightarrow> (json \<Rightarrow> string) \<Rightarrow> 'd settings_source option
     \<Rightarrow> 'd settings_source \<Rightarrow> (string \<times> string) list \<Rightarrow> preparation_decision result" where
  "classify_preparation_effects project digest_of previous current parameter_effects =
     (case sr_settings (resolve_effective_settings project digest_of current) of
        None \<Rightarrow> Inl ValueError
      | Some now \<Rightarrow>
          classify_settings digest_of
            (case previous of None \<Rightarrow> None
             | Some p \<Rightarrow> sr_settings (resolve_effective_settings project digest_of p))
            now parameter_effects)"

section \<open>The order of knobs does not matter\<close>

lemma scalar_eq_refl [simp]: "scalar_eq v v"
  by (simp add: scalar_eq_def)

lemma map_of_mset:
  assumes "distinct (map fst xs)" "mset xs = mset ys"
  shows "map_of xs = map_of ys"
proof -
  have "distinct (map fst ys)"
    using assms by (metis mset_eq_imp_distinct_iff mset_map)
  moreover have "set xs = set ys" using assms(2) by (rule mset_eq_setD)
  ultimately show ?thesis using assms(1) by (auto intro!: map_of_eqI dest: arg_cong [of _ _ "image fst"] simp: map_of_eq_Some_iff)
qed

lemma knobs_eq_permuted:
  assumes "distinct (map fst xs)" "mset xs = mset ys"
  shows "knobs_eq xs ys"
proof -
  have "set xs = set ys" using assms(2) by (rule mset_eq_setD)
  moreover have "map_of ys k = Some v" if "(k, v) \<in> set xs" for k v
    using map_of_mset [OF assms] assms(1) that by (metis map_of_is_SomeI)
  ultimately show ?thesis by (auto simp: knobs_eq_def list_all_iff)
qed

lemma knobs_json_permuted:
  assumes "distinct (map fst xs)" "mset xs = mset ys"
  shows "knobs_json xs = knobs_json ys"
proof -
  let ?j = "\<lambda>(k, v). (k, scalar_json v)"
  have "map fst (map ?j xs) = map fst xs" by (induction xs) auto
  then have "distinct (map fst (map ?j xs))" using assms(1) by (simp only:)
  moreover have "mset (map ?j xs) = mset (map ?j ys)" unfolding mset_map assms(2) ..
  moreover have "list_all2 (\<lambda>x y. fst x = fst y \<and> same_document (snd x) (snd y))
      (map ?j ys) (map ?j ys)"
    by (rule list.rel_refl) (simp add: same_document.same)
  ultimately have "same_document (JObj (map ?j xs)) (JObj (map ?j ys))"
    by (rule same_document.obj)
  then show ?thesis unfolding knobs_json_def by (rule canonical_same_document)
qed

lemma upsert_values:
  "list_all (\<lambda>(k, e). P e) m \<Longrightarrow> P v \<Longrightarrow> list_all (\<lambda>(k, e). P e) (upsert m key v)"
  by (induction m) auto

lemma foldl_upsert_values:
  "list_all (\<lambda>(k, e). P e) m \<Longrightarrow> list_all (\<lambda>(k, e). P e) us \<Longrightarrow>
     list_all (\<lambda>(k, e). P e) (foldl (\<lambda>m (k, v). upsert m k v) m us)"
  by (induction us arbitrary: m) (auto intro: upsert_values)

text \<open>
  Settings that differ only in the order of their knobs are the same settings: nothing is
  prepared, restarted or rebuilt, no setting is named as changed, and both have the same
  identity, so the same digest.
\<close>

lemma reordered_settings_reuse:
  assumes "distinct (map fst (se_knobs current))" "mset (se_knobs current) = mset knobs"
    and "list_all (\<lambda>(k, e). e = ''none'') (se_change_effects current)"
    and "list_all (\<lambda>(k, e). e = ''none'') parameter_effects"
    and "previous = current\<lparr>se_knobs := knobs\<rparr>"
  shows "settings_identity name previous = settings_identity name current \<and>
    (\<exists>d. classify_settings digest_of (Some previous) current parameter_effects = Inr d \<and>
      pd_effect d = Reuse \<and> settings_changed d = [] \<and> \<not> compatibility_changed d \<and>
      \<not> requires_restart d)"
proof
  show "settings_identity name previous = settings_identity name current"
    using knobs_json_permuted [OF assms(1,2)] assms(5) by (simp add: settings_identity_def)
  have changed: "changed_keys (Some previous) current = []"
    using knobs_eq_permuted [OF assms(1,2)] assms(5) by (simp add: changed_keys_def)
  define effects where
    "effects = foldl (\<lambda>m (k, v). upsert m k v) (se_change_effects current) parameter_effects"
  have none: "list_all (\<lambda>(k, e). e = ''none'') effects"
    unfolding effects_def using assms(3,4) by (rule foldl_upsert_values)
  then have "filter (\<lambda>(k, e). e \<noteq> ''none'') effects = []"
    by (auto simp: list_all_iff filter_empty_conv)
  moreover have "\<not> list_ex (\<lambda>(k, e). e \<notin> set CHANGE_EFFECTS) effects"
    using none by (auto simp: list_all_iff list_ex_iff CHANGE_EFFECTS_def)
  ultimately show "\<exists>d. classify_settings digest_of (Some previous) current parameter_effects = Inr d \<and>
      pd_effect d = Reuse \<and> settings_changed d = [] \<and> \<not> compatibility_changed d \<and>
      \<not> requires_restart d"
    using changed by (simp add: classify_settings_def effects_def [symmetric] Let_def)
qed

definition example_settings :: settings where
  "example_settings =
     \<lparr>se_kind = Generation, se_context_tokens = None, se_concurrency = None, se_batch_tokens = None,
      se_parallelism = \<lparr>world_size = 1, tensor = 1, pipeline = 1, data_parallel = 1,
        backend = ''none''\<rparr>,
      se_knobs = [(''alpha'', Int_scalar 1), (''beta'', Bool_scalar True)], se_change_effects = [],
      se_identity_digest = []\<rparr>"

end
