(* ===== verification/Resource_Demand.thy ===== *)
theory Resource_Demand
  imports Resource_Settings
begin

text \<open>
  The memory demand of one recipe role (\<^verbatim>\<open>resource_planning/demand.py\<close>): the bytes of the selected
  model files, the evidence built from the recipe's declaration, the terms of the settings and
  the demand with its reasons.
\<close>

section \<open>Evidence\<close>

record resource_evidence =
  ev_weights :: "int option"
  ev_runtime_overhead :: "int option"
  ev_baseline_context :: "int option"
  ev_baseline_concurrency :: "int option"
  ev_baseline_batch :: "int option"
  ev_context_per_token :: "int option"
  ev_concurrency_per_request :: "int option"
  ev_batch_per_token :: "int option"
  ev_supported_context :: "(int \<times> int) option"
  ev_supported_concurrency :: "(int \<times> int) option"
  ev_supported_batch :: "(int \<times> int) option"
  ev_state :: evidence_state
  ev_digest :: "string option"
  ev_declared_total :: "int option"
  ev_observed_total :: "int option"
  ev_declared_load_rise :: int
  ev_minimum_swap :: int

text \<open>
  A selection of the recipe: the key of a model document and the files taken from it with the
  roles that need them. A model document that does not validate is \<open>None\<close>.
\<close>

record model_selection =
  ms_model :: "string \<times> string \<times> string"
  ms_files :: "(string \<times> string list) list"

type_synonym model_files = "(string \<times> int) list"

text \<open>\<^verbatim>\<open>{file.id: file for file in model.files}.get(file_id)\<close>.\<close>

definition file_size :: "model_files \<Rightarrow> string \<Rightarrow> int option" where
  "file_size files file_id = map_of (rev files) file_id"

definition role_files :: "string \<Rightarrow> model_selection \<Rightarrow> string list" where
  "role_files role_name sel = remdups (map fst (filter (\<lambda>(f, roles). role_name \<in> set roles) (ms_files sel)))"

fun sum_selected ::
  "((string \<times> string \<times> string) \<times> model_files option) list \<Rightarrow> string \<Rightarrow> model_selection list
     \<Rightarrow> int \<Rightarrow> bool \<Rightarrow> int option" where
  "sum_selected documents role_name [] sum_bytes found = (if found then Some sum_bytes else None)"
| "sum_selected documents role_name (sel # rest) sum_bytes found =
     (case map_of documents (ms_model sel) of
        None \<Rightarrow> None
      | Some None \<Rightarrow> None
      | Some (Some files) \<Rightarrow>
          (let ids = role_files role_name sel
           in if list_ex (\<lambda>i. file_size files i = None) ids then None
              else sum_selected documents role_name rest
                (sum_bytes + sum_list (map (\<lambda>i. the (file_size files i)) ids))
                (found \<or> ids \<noteq> [])))"

text \<open>\<^verbatim>\<open>_selected_model_bytes\<close>; the selections are \<open>None\<close> when the recipe does not validate.\<close>

definition selected_model_bytes ::
  "model_selection list option \<Rightarrow> ((string \<times> string \<times> string) \<times> model_files option) list
     \<Rightarrow> string \<Rightarrow> int option" where
  "selected_model_bytes selections documents role_name =
     (if documents = [] then None
      else case selections of
        None \<Rightarrow> None
      | Some sels \<Rightarrow> sum_selected documents role_name sels 0 False)"

definition resource_evidence_of ::
  "int option \<Rightarrow> int \<Rightarrow> settings option \<Rightarrow> int option \<Rightarrow> int \<Rightarrow> int \<Rightarrow> resource_evidence" where
  "resource_evidence_of model_bytes declared_total settings observed_total load_rise minimum_swap =
     \<lparr>ev_weights = model_bytes, ev_runtime_overhead = None,
      ev_baseline_context = Option.bind settings se_context_tokens,
      ev_baseline_concurrency = Option.bind settings se_concurrency,
      ev_baseline_batch = Option.bind settings se_batch_tokens,
      ev_context_per_token = None, ev_concurrency_per_request = None, ev_batch_per_token = None,
      ev_supported_context = None, ev_supported_concurrency = None, ev_supported_batch = None,
      ev_state = (if model_bytes \<noteq> None then Declared else Unknown), ev_digest = None,
      ev_declared_total = (if model_bytes \<noteq> None then Some declared_total else None),
      ev_observed_total = observed_total, ev_declared_load_rise = load_rise,
      ev_minimum_swap = minimum_swap\<rparr>"

section \<open>The terms of the settings\<close>

type_synonym term_cost = "int option \<times> resource_reason list"

definition term_fault ::
  "resource_term \<Rightarrow> term_problem \<Rightarrow> string \<Rightarrow> string option \<Rightarrow> term_cost" where
  "term_fault name problem detail node_id =
     (None, [make_reason (resource_term_code name problem) detail Blocker node_id None])"

definition setting_term ::
  "resource_term \<Rightarrow> int option \<Rightarrow> int option \<Rightarrow> int option \<Rightarrow> (int \<times> int) option
     \<Rightarrow> string option \<Rightarrow> bool \<Rightarrow> term_cost" where
  "setting_term name setting baseline coefficient supported node_id required =
     (case setting of
        None \<Rightarrow>
          (if \<not> required then (Some 0, [])
           else term_fault name Term_unknown
             (''Effective '' @ resource_term_value name
              @ '' setting is unavailable; capacity cannot be predicted.'') node_id)
      | Some v \<Rightarrow>
          (if (case baseline of None \<Rightarrow> False | Some b \<Rightarrow> b < 0)
           then term_fault name Term_evidence_invalid
             (''Measured baseline evidence for '' @ resource_term_value name @ '' is invalid.'')
             node_id
           else if (case supported of None \<Rightarrow> False
                    | Some (lo, hi) \<Rightarrow> lo < 0 \<or> hi < 0 \<or> lo > hi)
           then term_fault name Term_evidence_invalid
             (''Declared supported range for '' @ resource_term_value name @ '' is invalid.'')
             node_id
           else if (case supported of None \<Rightarrow> False | Some (lo, hi) \<Rightarrow> v < lo \<or> v > hi)
           then term_fault name Term_unsupported
             (''Effective '' @ resource_term_value name
              @ '' setting is outside the declared supported range.'') node_id
           else case baseline of
             None \<Rightarrow> term_fault name Term_evidence_unknown
               (''No baseline evidence is declared for effective '' @ resource_term_value name
                @ ''.'') node_id
           | Some b \<Rightarrow>
               (if v = b then (Some 0, [])
                else case coefficient of
                  None \<Rightarrow> term_fault name Term_evidence_unknown
                    (''No evidence supports changing effective '' @ resource_term_value name
                     @ '' from its measured baseline.'') node_id
                | Some c \<Rightarrow>
                    (if c < 0
                     then term_fault name Term_evidence_invalid
                       (''Measured coefficient for '' @ resource_term_value name
                        @ '' is invalid.'') node_id
                     else (Some (max 0 (v - b) * c), [])))))"

section \<open>The demand\<close>

definition declared_bound :: "resource_evidence \<Rightarrow> int option" where
  "declared_bound ev =
     (case ev_declared_total ev of Some n \<Rightarrow> (if n \<ge> 0 then Some n else None) | None \<Rightarrow> None)"

definition observed_bound :: "resource_evidence \<Rightarrow> int option" where
  "observed_bound ev =
     (case ev_observed_total ev of
        Some n \<Rightarrow> (if declared_bound ev \<noteq> None \<and> n \<ge> 0 then Some n else None)
      | None \<Rightarrow> None)"

text \<open>The checks of the evidence: the blockers they add, and what becomes uncertain.\<close>

definition evidence_checks ::
  "resource_evidence \<Rightarrow> string option \<Rightarrow> resource_reason list \<times> string list" where
  "evidence_checks ev node_id =
     (let fault = (\<lambda>code detail. make_reason (resource_planning_code_value code) detail Blocker
                      node_id None);
          bound = declared_bound ev;
          declared = (if ev_declared_total ev \<noteq> None \<and> bound = None
            then [fault EVIDENCE_INVALID ''Declared recipe-role memory envelope is invalid.'']
            else []);
          doubtful = (ev_state ev = Unknown \<or> ev_state ev = Stale);
          missing = (if doubtful \<and> bound = None
            then [fault EVIDENCE_UNKNOWN (''Memory evidence is missing or stale and no declared''
                    @ '' role bound is available.'')]
            else []);
          uncertain = (if doubtful \<and> bound \<noteq> None
            then [(if ev_state ev = Unknown then ''unknown'' else ''stale'') @ '' evidence'']
            else []);
          digest = (case ev_digest ev of
              None \<Rightarrow> []
            | Some d \<Rightarrow> (if is_digest d then []
                else [fault EVIDENCE_INVALID ''Memory evidence digest is invalid.'']));
          item = (\<lambda>(name, n). case n of
              None \<Rightarrow>
                (if bound = None
                 then ([fault EVIDENCE_UNKNOWN
                          (name @ '' is missing and no declared role bound is available.'')], [])
                 else ([], [name]))
            | Some v \<Rightarrow>
                (if v < 0
                 then ([fault EVIDENCE_INVALID
                          (name @ '' is invalid; resource evidence cannot be trusted.'')], [])
                 else ([], [])));
          items = map item [(''weights_bytes'', ev_weights ev),
                            (''runtime_overhead_bytes'', ev_runtime_overhead ev)]
      in (declared @ missing @ digest @ concat (map fst items),
          uncertain @ concat (map snd items)))"

text \<open>
  One term of the sum: with a declared bound, a term whose only problem is missing evidence or
  an unsupported value counts as zero and is uncertain; any other problem is a reason.
\<close>

definition accept_term ::
  "int option \<Rightarrow> string \<times> term_cost \<Rightarrow> term_cost \<times> resource_reason list \<times> string list" where
  "accept_term bound named =
     (let (name, cost, why) = named
      in if cost = None \<and> bound \<noteq> None
            \<and> why \<noteq> [] \<and> list_all (\<lambda>r. ends_with (rr_code r) [''_unknown'', ''_unsupported'']) why
         then ((Some 0, []), [], [name @ '' estimate''])
         else ((cost, why), why, []))"

text \<open>The three terms, by name.\<close>

definition setting_terms ::
  "settings \<Rightarrow> resource_evidence \<Rightarrow> string option \<Rightarrow> (string \<times> term_cost) list" where
  "setting_terms s ev node_id =
     [(''context'', setting_term Context_term (se_context_tokens s) (ev_baseline_context ev)
         (ev_context_per_token ev) (ev_supported_context ev) node_id (se_context_tokens s \<noteq> None)),
      (''concurrency'', setting_term Concurrency_term (se_concurrency s)
         (ev_baseline_concurrency ev) (ev_concurrency_per_request ev)
         (ev_supported_concurrency ev) node_id (se_concurrency s \<noteq> None)),
      (''batch'', setting_term Batch_term (se_batch_tokens s) (ev_baseline_batch ev)
         (ev_batch_per_token ev) (ev_supported_batch ev) node_id (se_batch_tokens s \<noteq> None))]"

definition resource_demand_of ::
  "settings_resolution \<Rightarrow> resource_evidence \<Rightarrow> string option \<Rightarrow> resource_demand" where
  "resource_demand_of resolution ev node_id =
     (case sr_settings resolution of
        None \<Rightarrow>
          \<lparr>weights_bytes = None, runtime_overhead_bytes = None, context_bytes = None,
           concurrency_bytes = None, batch_bytes = None, total_bytes = None,
           demand_evidence = Unknown, demand_reasons = sr_reasons resolution,
           load_overshoot_bytes = 0, minimum_swap_bytes = 0\<rparr>
      | Some s \<Rightarrow>
          (let bound = declared_bound ev;
               (faults, doubts) = evidence_checks ev node_id;
               terms = setting_terms s ev node_id;
               accepted = map (accept_term bound) terms;
               reasons = sr_reasons resolution @ faults @ concat (map (fst \<circ> snd) accepted);
               uncertain = doubts @ concat (map (snd \<circ> snd) accepted);
               costs = map (fst \<circ> fst) accepted;
               base = (case bound of
                   Some n \<Rightarrow> Some n
                 | None \<Rightarrow>
                     (case (ev_weights ev, ev_runtime_overhead ev) of
                        (Some w, Some r) \<Rightarrow> Some (w + r)
                      | _ \<Rightarrow> None));
               sum = (if reasons = [] \<and> None \<notin> set costs
                  then map_option (\<lambda>b. b + sum_list (map the costs)) base else None);
               warning = (case (sum, bound) of
                   (Some t, Some n) \<Rightarrow>
                     (if uncertain \<noteq> []
                      then [make_reason (resource_planning_code_value ESTIMATE_UNCERTAIN)
                        (''Forecast '' @ show_int t
                         @ '' bytes from the declared recipe-role memory envelope ('' @ show_int n
                         @ '' bytes); '' @ join '', '' (fromkeys uncertain)
                         @ '' is unavailable, so actual demand may exceed this bound.'')
                        Warning node_id None]
                      else [])
                 | _ \<Rightarrow> [])
           in \<lparr>weights_bytes = ev_weights ev, runtime_overhead_bytes = ev_runtime_overhead ev,
               context_bytes = fst (snd (terms ! 0)), concurrency_bytes = fst (snd (terms ! 1)),
               batch_bytes = fst (snd (terms ! 2)), total_bytes = sum, demand_evidence = ev_state ev,
               demand_reasons = reasons @ warning,
               load_overshoot_bytes =
                 (case sum of
                    None \<Rightarrow> 0
                  | Some t \<Rightarrow> max (max (ev_declared_load_rise ev)
                      (case observed_bound ev of None \<Rightarrow> 0 | Some n \<Rightarrow> n - t)) 0),
               minimum_swap_bytes = ev_minimum_swap ev\<rparr>))"

section \<open>What a demand says\<close>

lemma setting_term_costs:
  "fst (setting_term name setting baseline coefficient supported node_id required) = Some c \<Longrightarrow> 0 \<le> c"
  by (auto simp: setting_term_def term_fault_def split: option.splits if_splits)

lemma setting_term_explained:
  "fst (setting_term name setting baseline coefficient supported node_id required) = None \<longleftrightarrow>
     snd (setting_term name setting baseline coefficient supported node_id required) \<noteq> []"
  by (auto simp: setting_term_def term_fault_def split: option.splits)

lemma setting_term_blocks:
  "r \<in> set (snd (setting_term name setting baseline coefficient supported node_id required)) \<Longrightarrow>
     rr_severity r = Blocker"
  by (auto simp: setting_term_def term_fault_def split: option.splits if_splits)

lemma evidence_checks_block: "r \<in> set (fst (evidence_checks ev node_id)) \<Longrightarrow> rr_severity r = Blocker"
  by (auto simp: evidence_checks_def Let_def split: option.splits if_splits)

text \<open>Without a declared bound, clean evidence names both parts of the base.\<close>

lemma evidence_checks_base:
  assumes "fst (evidence_checks ev node_id) = []" "declared_bound ev = None"
  shows "\<exists>w r. ev_weights ev = Some w \<and> ev_runtime_overhead ev = Some r \<and> 0 \<le> w \<and> 0 \<le> r"
  using assms
  by (cases "ev_weights ev"; cases "ev_runtime_overhead ev")
    (auto simp: evidence_checks_def Let_def split: if_splits)

lemma accept_term_cases:
  assumes "accept_term bound (name, cost, why) = ((cost', why'), reasons, doubts)"
  shows "cost' = Some 0 \<and> reasons = [] \<or> cost' = cost \<and> reasons = why"
  using assms by (auto simp: accept_term_def Let_def split: if_splits)

text \<open>What accepting a term leaves: a cost that is not negative, or a blocker.\<close>

definition sound_term :: "term_cost \<times> resource_reason list \<times> string list \<Rightarrow> bool" where
  "sound_term a \<longleftrightarrow> (\<forall>c. fst (fst a) = Some c \<longrightarrow> 0 \<le> c) \<and>
     (fst (fst a) = None \<longrightarrow> fst (snd a) \<noteq> []) \<and> (\<forall>r \<in> set (fst (snd a)). rr_severity r = Blocker)"

lemma accept_term_sound:
  "sound_term (accept_term bound (label, setting_term name setting baseline coefficient supported
     node_id required))"
proof -
  let ?t = "setting_term name setting baseline coefficient supported node_id required"
  obtain cost why where t: "?t = (cost, why)" by (cases ?t)
  have "\<forall>c. cost = Some c \<longrightarrow> 0 \<le> c" "cost = None \<longrightarrow> why \<noteq> []"
      "\<forall>r \<in> set why. rr_severity r = Blocker"
    using setting_term_costs [of name setting baseline coefficient supported node_id required]
      setting_term_explained [of name setting baseline coefficient supported node_id required]
      setting_term_blocks [of _ name setting baseline coefficient supported node_id required] t
    by auto
  then show ?thesis unfolding t by (auto simp: sound_term_def accept_term_def)
qed

lemma accepted_sound: "\<forall>a \<in> set (map (accept_term bound) (setting_terms s ev node_id)). sound_term a"
  unfolding setting_terms_def by (auto intro: accept_term_sound)

lemma sum_costs_nonneg:
  assumes "\<forall>a \<in> set accepted. sound_term a" "None \<notin> set (map (fst \<circ> fst) accepted)"
  shows "0 \<le> sum_list (map the (map (fst \<circ> fst) accepted))"
  using assms by (induction accepted) (auto simp: sound_term_def)

text \<open>The demand of resolved settings, by whether a reason was found.\<close>

lemma resource_demand_of_cases:
  assumes s: "sr_settings resolution = Some s" "sr_reasons resolution = []"
    and d: "d = resource_demand_of resolution ev node_id"
  obtains
    (refused) "total_bytes d = None" "blocked (demand_reasons d)"
  | (forecast) t base where "total_bytes d = Some t" "\<not> blocked (demand_reasons d)" "base \<le> t"
      "0 \<le> base" "declared_bound ev = None \<or> declared_bound ev = Some base"
      "load_overshoot_bytes d = max (max (ev_declared_load_rise ev)
         (case observed_bound ev of None \<Rightarrow> 0 | Some n \<Rightarrow> n - t)) 0"
proof -
  define accepted where "accepted = map (accept_term (declared_bound ev)) (setting_terms s ev node_id)"
  define faults where "faults = fst (evidence_checks ev node_id)"
  define reasons where "reasons = faults @ concat (map (fst \<circ> snd) accepted)"
  define costs where "costs = map (fst \<circ> fst) accepted"
  define base where "base = (case declared_bound ev of Some n \<Rightarrow> Some n
    | None \<Rightarrow> (case (ev_weights ev, ev_runtime_overhead ev) of
        (Some w, Some r) \<Rightarrow> Some (w + r) | _ \<Rightarrow> None))"
  note parts = accepted_def faults_def reasons_def costs_def base_def
  have sound: "\<forall>a \<in> set accepted. sound_term a" unfolding accepted_def by (rule accepted_sound)
  have total: "total_bytes d = (if reasons = [] \<and> None \<notin> set costs
      then map_option (\<lambda>b. b + sum_list (map the costs)) base else None)"
    using s unfolding d resource_demand_of_def parts by (simp add: Let_def split_beta image_image)
  have why: "\<exists>w. demand_reasons d = reasons @ w \<and> \<not> blocked w"
    using s unfolding d resource_demand_of_def parts
    by (auto simp: Let_def split_beta split: option.splits)
  show thesis
  proof (cases "reasons = []")
    case False
    then have r: "hd reasons \<in> set reasons" by simp
    then have "rr_severity (hd reasons) = Blocker"
      using evidence_checks_block [of "hd reasons" ev node_id] sound
      by (auto simp: sound_term_def reasons_def faults_def)
    with r why have "blocked (demand_reasons d)" by (auto simp: blocked_set)
    with total False show thesis by (intro refused) simp_all
  next
    case True
    then have clean: "faults = []" "\<forall>a \<in> set accepted. fst (snd a) = []"
      by (auto simp: reasons_def)
    then have costs: "None \<notin> set costs" using sound by (auto simp: costs_def sound_term_def)
    have "\<exists>b. base = Some b \<and> 0 \<le> b"
    proof (cases "declared_bound ev")
      case None
      with evidence_checks_base [of ev node_id] clean show ?thesis
        by (force simp: base_def faults_def)
    next
      case (Some n)
      then show ?thesis by (auto simp: base_def declared_bound_def split: option.splits if_splits)
    qed
    then obtain b where b: "base = Some b" "0 \<le> b" by blast
    then have t: "total_bytes d = Some (b + sum_list (map the costs))"
      using total True costs by simp
    moreover have "0 \<le> sum_list (map the costs)"
      using sum_costs_nonneg [OF sound] costs by (simp add: costs_def)
    moreover have "\<not> blocked (demand_reasons d)" using why True by auto
    moreover have "declared_bound ev = None \<or> declared_bound ev = Some b"
      using b(1) by (cases "declared_bound ev") (auto simp: base_def)
    moreover have "load_overshoot_bytes d = (case total_bytes d of None \<Rightarrow> 0
        | Some t \<Rightarrow> max (max (ev_declared_load_rise ev)
            (case observed_bound ev of None \<Rightarrow> 0 | Some n \<Rightarrow> n - t)) 0)"
      using s(1) unfolding d resource_demand_of_def by (simp add: Let_def split_beta)
    ultimately show thesis using b(2) by (intro forecast [of _ b]) simp_all
  qed
qed

end
