(* ===== verification/Capacity_Planning.thy ===== *)
theory Capacity_Planning
  imports Resource_Types
begin

text \<open>
  The capacity planner (\<^verbatim>\<open>control/src/vonk_control/resource_planning/capacity.py\<close>): whether the
  demand of each selected node fits the memory the node has left, now or after the planned
  stops, and whether the node's swap carries the rise of the load.

  The arithmetic of one admission is \<^verbatim>\<open>evaluate_memory_admission\<close> of the published contract
  package, which is not part of this repository: it is the parameter \<open>admit\<close>, and
  \<open>admission_contract\<close> states what the package documents of it.
\<close>

section \<open>The admission of one demand\<close>

text \<open>The arguments of \<^verbatim>\<open>evaluate_memory_admission\<close>; those a call leaves out are zero.\<close>

record admission_request =
  rq_demand :: int
  rq_pool :: int
  rq_occupied :: int
  rq_reserved :: int
  rq_unmaterialized :: int
  rq_unknown :: int
  rq_release :: int
  rq_floor :: int

record memory_admission =
  admissible :: bool
  free_after_bytes :: int
  commitment_headroom_bytes :: int

type_synonym admission = "admission_request \<Rightarrow> memory_admission result"

definition bare_request :: "int \<Rightarrow> int \<Rightarrow> int \<Rightarrow> admission_request" where
  "bare_request demand pool floor =
     \<lparr>rq_demand = demand, rq_pool = pool, rq_occupied = 0, rq_reserved = 0, rq_unmaterialized = 0,
      rq_unknown = 0, rq_release = 0, rq_floor = floor\<rparr>"

section \<open>Details of reasons\<close>

definition show_opt_int :: "int option \<Rightarrow> string" where
  "show_opt_int n = (case n of None \<Rightarrow> ''None'' | Some i \<Rightarrow> show_int i)"

text \<open>\<^verbatim>\<open>_minimum_known\<close> on the values of a nonempty list of parts.\<close>

definition minimum_known :: "int option list \<Rightarrow> int option" where
  "minimum_known values =
     (if None \<in> set values then None else Some (Min (set (List.map_filter id values))))"

definition resident_usage_uncertainty_detail ::
  "pool_capacity \<Rightarrow> residual list \<Rightarrow> bool \<Rightarrow> string" where
  "resident_usage_uncertainty_detail capacity residuals admitted =
     (let observed_at = (case evidence_observed_at capacity of
                           Some t \<Rightarrow> t | None \<Rightarrow> ''timestamp unavailable'');
          digest = str_or_else (evidence_digest capacity) ''digest unavailable'';
          maximum = sum_list (map maximum_bytes residuals);
          count = int (length residuals)
      in if admitted
         then ''Aggregate inventory '' @ observed_at @ '' ('' @ digest @ '') reports no per-run ''
           @ ''resident usage for '' @ show_int count @ '' exact active claim(s); their ''
           @ ''remaining commitment is in the range 0..'' @ show_int maximum
           @ '' bytes. Admission applies the full upper bound.''
         else ''Capacity is unverified by aggregate inventory '' @ observed_at @ '' ('' @ digest
           @ ''): '' @ show_int count @ '' exact active run claim(s) may retain 0..''
           @ show_int maximum
           @ '' bytes, and the safe upper bound does not fit. Reconcile the exact run ''
           @ ''claims and retry against fresh inventory.'')"

definition NAMED_CLAIMS :: nat where
  "NAMED_CLAIMS = 3"

definition charged_claims_detail :: "pool_capacity \<Rightarrow> int \<Rightarrow> string" where
  "charged_claims_detail capacity shortfall_bytes =
     (let holders = unmaterialized_holders capacity
      in if holders = [] then []
         else
           (let largest = sort_key (\<lambda>h. - holder_amount h) holders;
                named = join '', ''
                    (map (\<lambda>h. holder_owner_kind h @ '' '' @ holder_owner_id h @ '' (''
                          @ show_int (holder_amount h) @ '' bytes)'') (take NAMED_CLAIMS largest))
                  @ (if length largest > NAMED_CLAIMS
                     then '' and '' @ show_int (int (length largest - NAMED_CLAIMS)) @ '' more''
                     else [])
            in if opt_or (unmaterialized_bytes capacity) 0 \<ge> shortfall_bytes
               then '' The demand fits once these claims are released: '' @ named @ ''.''
               else '' Charged claims: '' @ named @ ''.''))"

section \<open>The idle maximum\<close>

text \<open>Python's truth of an optional count.\<close>

definition truthy :: "int option \<Rightarrow> bool" where
  "truthy n \<longleftrightarrow> n \<noteq> None \<and> n \<noteq> Some 0"

definition holds_nothing :: "pool_capacity \<Rightarrow> bool \<Rightarrow> bool" where
  "holds_nothing capacity stopping \<longleftrightarrow>
     \<not> truthy (reserved_bytes capacity) \<and> \<not> truthy (unmaterialized_bytes capacity)
     \<and> unknown_run_residuals capacity = [] \<and> kept_bytes capacity = 0
     \<and> releasing_bytes capacity = 0 \<and> \<not> stopping"

definition above_idle_maximum ::
  "admission \<Rightarrow> pool_capacity \<Rightarrow> int \<Rightarrow> int \<Rightarrow> bool \<Rightarrow> string option result" where
  "above_idle_maximum admit capacity demand_bytes memory_floor_bytes stopping =
     (case available_bytes capacity of
        None \<Rightarrow> Inr None
      | Some pool \<Rightarrow>
          res_bind (admit (bare_request demand_bytes pool memory_floor_bytes)) (\<lambda>declared.
          if \<not> admissible declared
          then Inr (Some (''The estimated demand of '' @ show_int demand_bytes @ '' bytes plus the ''
            @ show_int memory_floor_bytes @ ''-byte platform floor exceeds this Spark's ''
            @ show_int pool @ ''-byte memory pool; an idle Spark admits less''))
          else
          res_bind (admit ((bare_request demand_bytes pool memory_floor_bytes)
              \<lparr>rq_occupied := max 0 (opt_or (occupied_bytes capacity) 0 - free_upside_bytes capacity)\<rparr>))
            (\<lambda>best.
          if holds_nothing capacity stopping \<and> \<not> admissible best
          then Inr (Some (''The host itself uses '' @ show_opt_int (occupied_bytes capacity)
            @ '' of this Spark's '' @ show_int pool @ ''-byte pool, and the estimated demand of ''
            @ show_int demand_bytes @ '' bytes leaves '' @ show_int (free_after_bytes best)
            @ '' bytes before the required '' @ show_int memory_floor_bytes
            @ ''-byte floor even at the most free memory the ''
            @ ''Spark reported recently; an idle Spark admits less''))
          else Inr None)))"

section \<open>Swap for the load\<close>

definition tried_swap_need :: "resource_demand \<Rightarrow> int \<times> int \<times> bool" where
  "tried_swap_need demand =
     (let largest_setting = maximum_gib SWAP_POLICY * GIB;
          rise = min (load_overshoot_bytes demand) (usable_swap_bytes largest_setting);
          minimum = min (minimum_swap_bytes demand) largest_setting
      in (rise, minimum, rise < load_overshoot_bytes demand \<or> minimum < minimum_swap_bytes demand))"

definition swap_carries :: "resource_demand \<Rightarrow> swap_capacity \<Rightarrow> bool \<Rightarrow> bool" where
  "swap_carries demand swap in_use =
     (let (rise, minimum, clamped) = tried_swap_need demand
      in if rise < load_overshoot_bytes demand
         then held_bytes swap = 0 \<and> swap_reaches (swap_total swap) (maximum_gib SWAP_POLICY * GIB)
         else rise + held_bytes swap + (if in_use then swap_used swap else 0)
                \<le> usable_swap_bytes (swap_total swap)
              \<and> swap_reaches (swap_total swap) minimum)"

definition MAX_DATABASE_BIGINT :: int where
  "MAX_DATABASE_BIGINT = 2 ^ 63 - 1"

text \<open>The construction of a \<^verbatim>\<open>SwapShortfallEvidence\<close>: every field within a database integer.\<close>

definition make_swap_shortfall :: "swap_shortfall \<Rightarrow> swap_shortfall result" where
  "make_swap_shortfall e =
     (if list_all (\<lambda>n. 0 \<le> n \<and> n \<le> MAX_DATABASE_BIGINT)
           ([active_bytes e] @ (case desired_setting e of None \<Rightarrow> [] | Some d \<Rightarrow> [d])
            @ [used_swap e, held_swap e, usable_bytes e, rise_bytes e, needed_setting_bytes e])
      then Inr e else Inl ValueError)"

text \<open>\<^verbatim>\<open>setting\<close> of \<^verbatim>\<open>_load_swap_reason\<close>: the swap setting that admits the load.\<close>

definition needed_setting :: "int \<Rightarrow> int \<Rightarrow> swap_capacity \<Rightarrow> int" where
  "needed_setting rise minimum swap =
     min (maximum_gib SWAP_POLICY * GIB)
         (max (swap_needed_bytes (rise + swap_used swap)) (- ((- minimum) div GIB) * GIB))"

definition swap_remedy :: "swap_capacity \<Rightarrow> int \<Rightarrow> string" where
  "swap_remedy swap setting =
     (let jobs = map swap_run_id (filter swap_job_run (swap_holders swap))
      in if (case swap_desired swap of None \<Rightarrow> False | Some d \<Rightarrow> setting > d)
         then ''Raise the Spark swap setting to at least '' @ show_int (setting div GIB) @ '' GiB.''
         else if jobs \<noteq> []
         then ''It starts once job run '' @ join '', '' (take NAMED_CLAIMS jobs) @ '' here stops''
           @ (if length jobs < length (swap_holders swap)
              then '' and the other loads finish loading.'' else ''.'')
         else if held_bytes swap \<noteq> 0
         then ''It starts once the other loads here finish loading.''
         else if (case swap_desired swap of None \<Rightarrow> False
                  | Some d \<Rightarrow> \<not> swap_reaches (swap_total swap) d)
         then ''It starts once the Spark's swap reaches its setting.''
         else ''It starts once swap in use falls.'')"

definition cut_estimate_reason :: "string \<Rightarrow> resource_demand \<Rightarrow> resource_reason" where
  "cut_estimate_reason node_id demand =
     make_reason (resource_planning_code_value ESTIMATE_UNCERTAIN)
       (''The declared load rise ('' @ show_int (load_overshoot_bytes demand)
        @ '' bytes) or minimum swap ('' @ show_int (minimum_swap_bytes demand)
        @ '' bytes) is above the largest swap setting ('' @ show_int (maximum_gib SWAP_POLICY)
        @ '' GiB); it is tried with that and the host memory guard decides.'')
       Warning (Some node_id) None"

definition swap_wait_detail :: "int \<Rightarrow> int \<Rightarrow> swap_capacity \<Rightarrow> string" where
  "swap_wait_detail rise minimum swap =
     (let setting_text = (case swap_desired swap of
            None \<Rightarrow> ''no setting known'' | Some d \<Rightarrow> ''setting '' @ show_int d @ '' bytes'')
      in ''The load rises '' @ show_int rise @ '' bytes above its steady demand and needs at least ''
         @ show_int minimum @ '' bytes of swap. Swap: '' @ show_int (swap_total swap)
         @ '' bytes active ('' @ setting_text @ ''), '' @ show_int (swap_used swap)
         @ '' in use, '' @ show_int (held_bytes swap)
         @ '' held by loads still starting or job runs; ''
         @ show_int (usable_swap_bytes (swap_total swap))
         @ '' bytes are usable within the host memory guard's margins. ''
         @ swap_remedy swap (needed_setting rise minimum swap))"

definition load_swap_reason ::
  "string \<Rightarrow> resource_demand \<Rightarrow> pool_capacity option \<Rightarrow> resource_reason list result" where
  "load_swap_reason node_id demand capacity =
     (let (rise, minimum, clamped) = tried_swap_need demand;
          reasons = (if clamped then [cut_estimate_reason node_id demand] else [])
      in if rise \<le> 0 \<and> minimum \<le> 0 then Inr []
         else case capacity of
           None \<Rightarrow> Inr reasons
         | Some cap \<Rightarrow>
             (if swap_carries demand (cap_swap cap) True then Inr reasons
              else res_map (\<lambda>evidence. reasons @
                     [make_reason (resource_blocker_code_value INSUFFICIENT_SWAP)
                        (swap_wait_detail rise minimum (cap_swap cap)) Blocker (Some node_id)
                        (Some evidence)])
                   (make_swap_shortfall
                      \<lparr>active_bytes = swap_total (cap_swap cap),
                       desired_setting = swap_desired (cap_swap cap),
                       used_swap = swap_used (cap_swap cap), held_swap = held_bytes (cap_swap cap),
                       usable_bytes = usable_swap_bytes (swap_total (cap_swap cap)),
                       rise_bytes = rise,
                       needed_setting_bytes = needed_setting rise minimum (cap_swap cap)\<rparr>)))"

definition stop_can_clear_swap :: "resource_demand \<Rightarrow> swap_capacity \<Rightarrow> bool" where
  "stop_can_clear_swap demand swap = swap_carries demand swap False"

section \<open>The memory plan\<close>

text \<open>\<^verbatim>\<open>releases[key] = releases.get(key, 0) + n\<close> on the items of the dict.\<close>

fun bump :: "('k \<times> int) list \<Rightarrow> 'k \<Rightarrow> int \<Rightarrow> ('k \<times> int) list" where
  "bump [] key n = [(key, n)]"
| "bump ((k, v) # rest) key n = (if k = key then (k, v + n) # rest else (k, v) # bump rest key n)"

text \<open>A planned stop whose release is not a nonnegative count.\<close>

definition release_unknown :: "planned_stop \<Rightarrow> bool" where
  "release_unknown stop \<longleftrightarrow>
     planned stop \<and> (case release_bytes stop of None \<Rightarrow> True | Some n \<Rightarrow> n < 0)"

definition stop_reasons :: "planned_stop list \<Rightarrow> resource_reason list" where
  "stop_reasons stops =
     map (\<lambda>stop. make_reason (resource_planning_code_value STOP_RELEASE_UNKNOWN)
            ''A planned stop has no valid capacity release evidence.''
            Blocker (Some (stop_node_id stop)) None)
       (filter release_unknown stops)"

definition releases_of :: "planned_stop list \<Rightarrow> ((string \<times> string) \<times> int) list" where
  "releases_of stops =
     foldl (\<lambda>releases stop. bump releases (stop_node_id stop, stop_memory_kind stop)
                              (the (release_bytes stop)))
       [] (filter (\<lambda>stop. planned stop \<and> \<not> release_unknown stop) stops)"

text \<open>The release of a node's pool: its own kind's, or the largest of an equivalent kind.\<close>

definition release_for ::
  "((string \<times> string) \<times> int) list \<Rightarrow> string \<Rightarrow> string \<Rightarrow> int" where
  "release_for releases node_id memory_kind =
     (let own = opt_or (map_of releases (node_id, memory_kind)) 0
      in if own \<noteq> 0 then own
         else foldr max
           (map snd (filter (\<lambda>((candidate, kind), n). candidate = node_id
                               \<and> same_memory_kind kind memory_kind) releases)) 0)"

definition no_plan ::
  "string \<Rightarrow> resource_demand \<Rightarrow> resource_reason list \<Rightarrow> node_plan" where
  "no_plan node_id demand reasons =
     \<lparr>np_node_id = node_id, required_bytes = total_bytes demand, current_free_after_bytes = None,
      after_stop_free_after_bytes = None, selected_free_after_bytes = None, stop_required = False,
      np_allowed = False, np_reasons = reasons, insufficient_components = [], np_residuals = []\<rparr>"

definition capacity_missing :: "string \<Rightarrow> resource_demand \<Rightarrow> node_plan" where
  "capacity_missing node_id demand =
     no_plan node_id demand (demand_reasons demand
       @ [make_reason (resource_blocker_code_value CAPACITY_UNKNOWN)
            ''Capacity evidence is unavailable for the selected rank.''
            Blocker (Some node_id) None])"

text \<open>The blockers of evidence that is missing, negative or stale.\<close>

definition evidence_reasons :: "string \<Rightarrow> pool_capacity \<Rightarrow> resource_reason list" where
  "evidence_reasons node_id capacity =
     map (\<lambda>(name, n). make_reason (resource_blocker_code_value CAPACITY_UNKNOWN)
            (''Current '' @ name @ '' capacity evidence is missing or invalid.'')
            Blocker (Some node_id) None)
       (filter (\<lambda>(name, n). case n of None \<Rightarrow> True | Some v \<Rightarrow> v < 0)
          [(''available'', available_bytes capacity), (''occupied'', occupied_bytes capacity),
           (''reserved'', reserved_bytes capacity),
           (''unmaterialized'', unmaterialized_bytes capacity)])
     @ (if cap_evidence capacity = Unknown \<or> cap_evidence capacity = Stale
        then [make_reason (resource_blocker_code_value CAPACITY_UNKNOWN)
                ''Current capacity evidence is missing or stale.'' Blocker (Some node_id) None]
        else [])"

text \<open>An estimate claims at most the Spark less the floor.\<close>

definition charged_bytes :: "int \<Rightarrow> int \<Rightarrow> int \<Rightarrow> int" where
  "charged_bytes demand_bytes pool floor_bytes =
     (if pool \<le> floor_bytes then demand_bytes else min demand_bytes (pool - floor_bytes))"

definition pool_request ::
  "int \<Rightarrow> int \<Rightarrow> pool_capacity \<Rightarrow> int \<Rightarrow> int \<Rightarrow> admission_request" where
  "pool_request charged pool capacity release floor_bytes =
     \<lparr>rq_demand = charged, rq_pool = pool, rq_occupied = the (occupied_bytes capacity),
      rq_reserved = the (reserved_bytes capacity),
      rq_unmaterialized = the (unmaterialized_bytes capacity),
      rq_unknown = sum_list (map maximum_bytes (unknown_run_residuals capacity)),
      rq_release = release, rq_floor = floor_bytes\<rparr>"

text \<open>The reasons a node that is not tried gets for its fit, in the source's order.\<close>

definition fit_reasons ::
  "string \<Rightarrow> pool_capacity \<Rightarrow> int \<Rightarrow> int \<Rightarrow> memory_admission \<Rightarrow> memory_admission
     \<Rightarrow> resource_reason list" where
  "fit_reasons node_id capacity release floor_bytes now after =
     (let residuals = unknown_run_residuals capacity;
          current = free_after_bytes now;
          current_without_unknown = current + sum_list (map maximum_bytes residuals);
          budget_after = commitment_headroom_bytes now;
          after_stop = free_after_bytes after;
          budget_after_stop = commitment_headroom_bytes after;
          selected = (if release \<noteq> 0 then after_stop else current)
      in (if budget_after < 0 \<and> (release = 0 \<or> budget_after_stop < 0)
          then [make_reason (resource_blocker_code_value INSUFFICIENT_RESERVATION_BUDGET)
                  (''Exact memory commitments plus demand and reserve exceed the physical pool by ''
                   @ show_int (- budget_after) @ '' bytes.''
                   @ charged_claims_detail capacity (- budget_after)) Blocker (Some node_id) None]
          else [])
       @ (if current_without_unknown \<ge> floor_bytes \<and> current < floor_bytes \<and> release = 0
          then [make_reason (resource_blocker_code_value RESIDENT_USAGE_UNKNOWN)
                  (resident_usage_uncertainty_detail capacity residuals False)
                  Blocker (Some node_id) None]
          else if current_without_unknown < floor_bytes \<and> release = 0
          then [make_reason (resource_blocker_code_value INSUFFICIENT_CAPACITY)
                  (''Observed free capacity less definite claims and selected demand leaves ''
                   @ show_int current_without_unknown @ '' bytes before the required ''
                   @ show_int floor_bytes
                   @ ''-byte reserve, even if retained runs use zero bytes.''
                   @ charged_claims_detail capacity (floor_bytes - current_without_unknown))
                  Blocker (Some node_id) None]
          else if release \<noteq> 0 \<and> after_stop < floor_bytes
          then [make_reason (resource_blocker_code_value INSUFFICIENT_CAPACITY_AFTER_STOP)
                  (''Selected demand leaves '' @ show_int selected
                   @ '' bytes after planned stops; '' @ show_int floor_bytes
                   @ '' bytes must remain reserved.'') Blocker (Some node_id) None]
          else if release = 0 \<and> current \<ge> floor_bytes \<and> budget_after \<ge> 0 \<and> residuals \<noteq> []
          then [make_reason (resource_blocker_code_value RESIDENT_USAGE_UNKNOWN)
                  (resident_usage_uncertainty_detail capacity residuals True)
                  Warning (Some node_id) None]
          else []))"

definition tried_reason :: "string \<Rightarrow> string \<Rightarrow> int \<Rightarrow> resource_reason" where
  "tried_reason node_id why charged =
     make_reason (resource_planning_code_value ESTIMATE_UNCERTAIN)
       (why @ ''; it is tried as the only claim on this Spark (claim '' @ show_int charged
        @ '' bytes) and the host memory guard stops it if it runs out.'')
       Warning (Some node_id) None"

text \<open>One pool of a node: the body of the loop of \<^verbatim>\<open>_plan_memory_capacity\<close>.\<close>

definition plan_pool ::
  "admission \<Rightarrow> planned_stop list \<Rightarrow> int \<Rightarrow> string \<Rightarrow> resource_demand \<Rightarrow> pool_capacity
     \<Rightarrow> node_plan result" where
  "plan_pool admit stops floor_bytes node_id demand capacity =
     (let node_reasons = demand_reasons demand @ evidence_reasons node_id capacity
      in case (available_bytes capacity, occupied_bytes capacity, reserved_bytes capacity,
               unmaterialized_bytes capacity, total_bytes demand) of
           (Some pool, Some occupied, Some reserved, Some unmaterialized, Some demanded) \<Rightarrow>
             (if blocked node_reasons then Inr (no_plan node_id demand node_reasons)
              else
               (let release = release_for (releases_of stops) node_id (cap_memory_kind capacity);
                    charged = charged_bytes demanded pool floor_bytes;
                    residuals = unknown_run_residuals capacity;
                    stopping = list_ex (\<lambda>s. planned s \<and> stop_node_id s = node_id) stops
                in
                res_bind (admit (pool_request charged pool capacity 0 floor_bytes)) (\<lambda>now.
                res_bind (admit (pool_request charged pool capacity release floor_bytes)) (\<lambda>after.
                res_bind (above_idle_maximum admit capacity demanded floor_bytes stopping) (\<lambda>why.
                  let tried = why \<noteq> None \<and> holds_nothing capacity stopping
                        \<and> pool - occupied - floor_bytes > 0;
                      fit = (if release \<noteq> 0 then admissible after else admissible now);
                      hide = (\<lambda>n. if residuals \<noteq> [] then None else Some n)
                  in Inr
                    \<lparr>np_node_id = node_id, required_bytes = Some charged,
                     current_free_after_bytes = hide (free_after_bytes now),
                     after_stop_free_after_bytes = hide (free_after_bytes after),
                     selected_free_after_bytes =
                       hide (if release \<noteq> 0 then free_after_bytes after else free_after_bytes now),
                     stop_required = (\<not> admissible now \<and> admissible after \<and> release > 0),
                     np_allowed = ((tried \<or> fit) \<and> \<not> blocked node_reasons),
                     np_reasons = node_reasons @
                       (if tried then [tried_reason node_id (the why) charged]
                        else fit_reasons node_id capacity release floor_bytes now after),
                     insufficient_components =
                       (if tried \<or> admissible now then [] else [cap_memory_kind capacity]),
                     np_residuals = residuals\<rparr>)))))
         | _ \<Rightarrow> Inr (no_plan node_id demand node_reasons))"

text \<open>A snapshot of several pools: each must fit.\<close>

definition combine_parts :: "string \<Rightarrow> node_plan list \<Rightarrow> node_plan" where
  "combine_parts node_id parts =
     \<lparr>np_node_id = node_id, required_bytes = minimum_known (map required_bytes parts),
      current_free_after_bytes = minimum_known (map current_free_after_bytes parts),
      after_stop_free_after_bytes = minimum_known (map after_stop_free_after_bytes parts),
      selected_free_after_bytes = minimum_known (map selected_free_after_bytes parts),
      stop_required = list_ex stop_required parts, np_allowed = list_all np_allowed parts,
      np_reasons = fromkeys (concat (map np_reasons parts)),
      insufficient_components = fromkeys (concat (map insufficient_components parts)),
      np_residuals = fromkeys (concat (map np_residuals parts))\<rparr>"

fun plan_node ::
  "admission \<Rightarrow> planned_stop list \<Rightarrow> int \<Rightarrow> string \<Rightarrow> resource_demand \<Rightarrow> capacity_snapshot
     \<Rightarrow> node_plan result" where
  "plan_node admit stops floor_bytes node_id demand (Capacity pool parts) =
     (if parts = [] then plan_pool admit stops floor_bytes node_id demand pool
      else res_map (combine_parts node_id)
        (seq_results (map (\<lambda>part.
           if cap_node_id (pool_of part) = node_id
           then plan_node admit stops floor_bytes node_id demand part
           else Inr (capacity_missing node_id demand)) parts)))"

text \<open>\<^verbatim>\<open>{item.node_id: item for item in capacities}.get(node_id)\<close>: the last one wins.\<close>

definition capacity_of :: "capacity_snapshot list \<Rightarrow> string \<Rightarrow> capacity_snapshot option" where
  "capacity_of capacities node_id = find (\<lambda>c. cap_node_id (pool_of c) = node_id) (rev capacities)"

definition plan_memory_capacity ::
  "admission \<Rightarrow> (string \<times> resource_demand) list \<Rightarrow> capacity_snapshot list \<Rightarrow> planned_stop list
     \<Rightarrow> int \<Rightarrow> capacity_plan result" where
  "plan_memory_capacity admit requirements capacities stops floor_bytes =
     res_map (\<lambda>nodes.
        let reasons = stop_reasons stops @ concat (map np_reasons nodes)
        in \<lparr>cp_nodes = nodes,
            cp_allowed = (nodes \<noteq> [] \<and> list_all np_allowed nodes \<and> \<not> blocked reasons),
            stop_before_prepare = list_ex stop_required nodes, cp_reasons = reasons\<rparr>)
       (seq_results (map (\<lambda>(node_id, demand).
          case capacity_of capacities node_id of
            None \<Rightarrow> Inr (capacity_missing node_id demand)
          | Some capacity \<Rightarrow> plan_node admit stops floor_bytes node_id demand capacity) requirements))"

text \<open>\<^verbatim>\<open>plan_capacity\<close>: the steady demand against memory, then the load's rise against swap.\<close>

definition with_swap_reasons :: "node_plan \<Rightarrow> resource_reason list \<Rightarrow> node_plan" where
  "with_swap_reasons node found =
     (if found = [] then node
      else node\<lparr>np_allowed := np_allowed node \<and> \<not> blocked found,
                np_reasons := np_reasons node @ found\<rparr>)"

definition plan_capacity ::
  "admission \<Rightarrow> (string \<times> resource_demand) list \<Rightarrow> capacity_snapshot list \<Rightarrow> planned_stop list
     \<Rightarrow> int \<Rightarrow> capacity_plan result" where
  "plan_capacity admit requirements capacities stops floor_bytes =
     res_bind (plan_memory_capacity admit requirements capacities stops floor_bytes) (\<lambda>memory.
     res_map (\<lambda>found.
        \<lparr>cp_nodes = map2 with_swap_reasons (cp_nodes memory) found,
         cp_allowed = (cp_allowed memory \<and> \<not> blocked (concat found)),
         stop_before_prepare = stop_before_prepare memory,
         cp_reasons = cp_reasons memory @ concat found\<rparr>)
       (seq_results (map (\<lambda>node.
          case map_of requirements (np_node_id node) of
            None \<Rightarrow> Inl KeyError
          | Some demand \<Rightarrow> load_swap_reason (np_node_id node) demand
              (map_option pool_of (capacity_of capacities (np_node_id node)))) (cp_nodes memory))))"

end
