(* ===== verification/Capacity_Properties.thy ===== *)
theory Capacity_Properties
  imports Capacity_Planning
begin

text \<open>
  What the capacity planner promises: an allowed plan does not overcommit a node's memory, a
  plan is allowed exactly when it names no blocker, and an admitted load keeps swap within the
  host memory guard's margins.
\<close>

section \<open>The contract of one admission\<close>

text \<open>
  What the contract package documents of \<^verbatim>\<open>evaluate_memory_admission\<close>: it raises for a negative
  argument; otherwise it reports what stays free of the pool and of the commitments, and admits
  a demand that fits the pool beside the floor, leaves the floor free and keeps the commitments
  within the pool.
\<close>

definition valid_request :: "admission_request \<Rightarrow> bool" where
  "valid_request q \<longleftrightarrow> 0 \<le> rq_demand q \<and> 0 \<le> rq_pool q \<and> 0 \<le> rq_occupied q \<and> 0 \<le> rq_reserved q
     \<and> 0 \<le> rq_unmaterialized q \<and> 0 \<le> rq_unknown q \<and> 0 \<le> rq_release q \<and> 0 \<le> rq_floor q"

definition free_after :: "admission_request \<Rightarrow> int" where
  "free_after q = rq_pool q - rq_occupied q - rq_unmaterialized q - rq_unknown q - rq_demand q
     + rq_release q"

definition headroom_after :: "admission_request \<Rightarrow> int" where
  "headroom_after q = rq_pool q - rq_reserved q - rq_demand q - rq_floor q + rq_release q"

definition documented_admission :: admission where
  "documented_admission q =
     (if valid_request q
      then Inr \<lparr>admissible = (rq_demand q + rq_floor q \<le> rq_pool q \<and> rq_floor q \<le> free_after q
                 \<and> 0 \<le> headroom_after q),
                free_after_bytes = free_after q, commitment_headroom_bytes = headroom_after q\<rparr>
      else Inl ValueError)"

definition admission_contract :: "admission \<Rightarrow> bool" where
  "admission_contract admit \<longleftrightarrow>
     (\<forall>q a. admit q = Inr a \<longrightarrow> valid_request q \<and> free_after_bytes a = free_after q
        \<and> commitment_headroom_bytes a = headroom_after q
        \<and> (admissible a \<longleftrightarrow> rq_demand q + rq_floor q \<le> rq_pool q \<and> rq_floor q \<le> free_after q
             \<and> 0 \<le> headroom_after q))"

lemma documented_admission_contract: "admission_contract documented_admission"
  by (simp add: admission_contract_def documented_admission_def)

lemma admission_contractD:
  assumes "admission_contract admit" "admit q = Inr a"
  shows "valid_request q" "free_after_bytes a = free_after q"
    "commitment_headroom_bytes a = headroom_after q"
    "admissible a \<longleftrightarrow> rq_demand q + rq_floor q \<le> rq_pool q \<and> rq_floor q \<le> free_after q
       \<and> 0 \<le> headroom_after q"
  using assms by (auto simp: admission_contract_def)

section \<open>One pool\<close>

abbreviation stops_here :: "planned_stop list \<Rightarrow> string \<Rightarrow> bool" where
  "stops_here stops node_id \<equiv> list_ex (\<lambda>s. planned s \<and> stop_node_id s = node_id) stops"

abbreviation release_here :: "planned_stop list \<Rightarrow> string \<Rightarrow> pool_capacity \<Rightarrow> int" where
  "release_here stops node_id capacity \<equiv>
     release_for (releases_of stops) node_id (cap_memory_kind capacity)"

text \<open>
  When a demand fits a pool: what it is charged, together with what the node uses and what is
  promised to others, leaves the floor free; counting what the planned stops release.
\<close>

definition fits_pool :: "pool_capacity \<Rightarrow> int \<Rightarrow> int \<Rightarrow> int \<Rightarrow> bool" where
  "fits_pool capacity release floor_bytes demanded \<longleftrightarrow>
     (\<exists>pool occupied reserved unmaterialized.
        available_bytes capacity = Some pool \<and> occupied_bytes capacity = Some occupied \<and>
        reserved_bytes capacity = Some reserved \<and>
        unmaterialized_bytes capacity = Some unmaterialized \<and>
        (let charged = charged_bytes demanded pool floor_bytes
         in charged + floor_bytes \<le> pool \<and>
            occupied + unmaterialized + sum_list (map maximum_bytes (unknown_run_residuals capacity))
              + charged + floor_bytes \<le> pool + release \<and>
            reserved + charged + floor_bytes \<le> pool + release))"

text \<open>When an estimate may be tried: nothing is held on the node and the floor stays free now.\<close>

definition alone_on_pool :: "pool_capacity \<Rightarrow> bool \<Rightarrow> int \<Rightarrow> bool" where
  "alone_on_pool capacity stopping floor_bytes \<longleftrightarrow>
     holds_nothing capacity stopping \<and>
     (\<exists>pool occupied. available_bytes capacity = Some pool \<and> occupied_bytes capacity = Some occupied
        \<and> occupied + floor_bytes < pool)"

definition trusted :: "pool_capacity \<Rightarrow> bool" where
  "trusted capacity \<longleftrightarrow> cap_evidence capacity \<noteq> Unknown \<and> cap_evidence capacity \<noteq> Stale
     \<and> (\<forall>n \<in> {available_bytes capacity, occupied_bytes capacity, reserved_bytes capacity,
           unmaterialized_bytes capacity}. \<exists>v. n = Some v \<and> 0 \<le> v)"

lemma evidence_reasons_blocked: "blocked (evidence_reasons node_id capacity) \<longleftrightarrow> \<not> trusted capacity"
  by (auto simp: evidence_reasons_def trusted_def split: option.splits)

lemma plan_pool_cases:
  assumes "plan_pool admit stops floor_bytes node_id demand capacity = Inr plan"
  obtains
    (blocked) "np_allowed plan = False" "np_reasons plan =
        demand_reasons demand @ evidence_reasons node_id capacity"
      "blocked (demand_reasons demand) \<or> \<not> trusted capacity \<or> total_bytes demand = None"
      "np_node_id plan = node_id"
  | (fit) pool occupied reserved unmaterialized demanded now after why where
      "available_bytes capacity = Some pool" "occupied_bytes capacity = Some occupied"
      "reserved_bytes capacity = Some reserved" "unmaterialized_bytes capacity = Some unmaterialized"
      "total_bytes demand = Some demanded" "\<not> blocked (demand_reasons demand)" "trusted capacity"
      "admit (pool_request (charged_bytes demanded pool floor_bytes) pool capacity 0 floor_bytes)
         = Inr now"
      "admit (pool_request (charged_bytes demanded pool floor_bytes) pool capacity
         (release_here stops node_id capacity) floor_bytes) = Inr after"
      "above_idle_maximum admit capacity demanded floor_bytes (stops_here stops node_id) = Inr why"
      "np_allowed plan \<longleftrightarrow>
         (why \<noteq> None \<and> holds_nothing capacity (stops_here stops node_id)
            \<and> pool - occupied - floor_bytes > 0) \<or>
         (if release_here stops node_id capacity \<noteq> 0 then admissible after else admissible now)"
      "np_reasons plan = demand_reasons demand @ evidence_reasons node_id capacity @
         (if why \<noteq> None \<and> holds_nothing capacity (stops_here stops node_id)
            \<and> pool - occupied - floor_bytes > 0
          then [tried_reason node_id (the why) (charged_bytes demanded pool floor_bytes)]
          else fit_reasons node_id capacity (release_here stops node_id capacity) floor_bytes
                 now after)"
      "np_node_id plan = node_id"
proof -
  let ?reasons = "demand_reasons demand @ evidence_reasons node_id capacity"
  consider (none) "available_bytes capacity = None \<or> occupied_bytes capacity = None
      \<or> reserved_bytes capacity = None \<or> unmaterialized_bytes capacity = None
      \<or> total_bytes demand = None \<or> blocked ?reasons"
    | (some) pool occupied reserved unmaterialized demanded where
      "available_bytes capacity = Some pool" "occupied_bytes capacity = Some occupied"
      "reserved_bytes capacity = Some reserved" "unmaterialized_bytes capacity = Some unmaterialized"
      "total_bytes demand = Some demanded" "\<not> blocked ?reasons"
    by (metis option.exhaust)
  then show thesis
  proof cases
    case none
    then have "plan = no_plan node_id demand ?reasons"
      using assms by (auto simp: plan_pool_def Let_def split: option.splits prod.splits)
    with none show thesis
      by (intro blocked) (auto simp: no_plan_def trusted_def evidence_reasons_blocked)
  next
    case some
    then have clear: "\<not> blocked (demand_reasons demand)" "trusted capacity"
      by (auto simp: evidence_reasons_blocked)
    show thesis
      using assms some clear
      by (auto simp: plan_pool_def Let_def intro!: fit [OF some(1-5) clear])
  qed
qed

lemma fits_pool_admissible:
  assumes "admission_contract admit"
    and "available_bytes capacity = Some pool" "occupied_bytes capacity = Some occupied"
    and "reserved_bytes capacity = Some reserved"
    and "unmaterialized_bytes capacity = Some unmaterialized"
    and "admit (pool_request (charged_bytes demanded pool floor_bytes) pool capacity release
           floor_bytes) = Inr a"
  shows "admissible a \<longleftrightarrow> fits_pool capacity release floor_bytes demanded"
  using admission_contractD(4) [OF assms(1,6)] assms(2-5)
  by (auto simp: fits_pool_def pool_request_def free_after_def headroom_after_def Let_def)

lemma release_here_eq:
  "(if release_here stops node_id capacity \<noteq> 0
    then P (release_here stops node_id capacity) else P 0) = P (release_here stops node_id capacity)"
  by simp

lemma plan_pool_allowed:
  assumes c: "admission_contract admit"
    and plan: "plan_pool admit stops floor_bytes node_id demand capacity = Inr plan"
    and "np_allowed plan"
  shows "trusted capacity \<and> (\<exists>demanded. total_bytes demand = Some demanded \<and>
    (alone_on_pool capacity (stops_here stops node_id) floor_bytes \<or>
     fits_pool capacity (release_here stops node_id capacity) floor_bytes demanded))"
  using plan
proof (cases rule: plan_pool_cases)
  case blocked
  with assms show ?thesis by simp
next
  case (fit pool occupied reserved unmaterialized demanded now after why)
  note adm = fits_pool_admissible [OF c fit(1-4)]
  from fit(11) assms(3) adm [OF fit(8)] adm [OF fit(9)] have
    "alone_on_pool capacity (stops_here stops node_id) floor_bytes \<or>
     fits_pool capacity (release_here stops node_id capacity) floor_bytes demanded"
    using fit(1,2) by (auto simp: alone_on_pool_def split: if_splits)
  with fit(5,7) show ?thesis by blast
qed

section \<open>The plan\<close>

lemma plan_memory_nodes:
  assumes "plan_memory_capacity admit requirements capacities stops floor_bytes = Inr plan"
  shows "map (\<lambda>(node_id, demand).
      case capacity_of capacities node_id of
        None \<Rightarrow> Inr (capacity_missing node_id demand)
      | Some capacity \<Rightarrow> plan_node admit stops floor_bytes node_id demand capacity) requirements
    = map Inr (cp_nodes plan)"
    and "cp_reasons plan = stop_reasons stops @ concat (map np_reasons (cp_nodes plan))"
    and "cp_allowed plan \<longleftrightarrow>
      cp_nodes plan \<noteq> [] \<and> list_all np_allowed (cp_nodes plan) \<and> \<not> blocked (cp_reasons plan)"
  using assms by (auto simp: plan_memory_capacity_def Let_def seq_results_Inr)

lemma plan_memory_node:
  assumes "plan_memory_capacity admit requirements capacities stops floor_bytes = Inr plan"
    and "(node_id, demand) \<in> set requirements"
  obtains node where "node \<in> set (cp_nodes plan)"
    "(case capacity_of capacities node_id of
        None \<Rightarrow> Inr (capacity_missing node_id demand)
      | Some capacity \<Rightarrow> plan_node admit stops floor_bytes node_id demand capacity) = Inr node"
proof -
  let ?f = "\<lambda>(node_id, demand). case capacity_of capacities node_id of
        None \<Rightarrow> Inr (capacity_missing node_id demand)
      | Some capacity \<Rightarrow> plan_node admit stops floor_bytes node_id demand capacity"
  have "?f (node_id, demand) \<in> set (map ?f requirements)" 
    unfolding set_map using assms(2) by (rule imageI)
  then have "?f (node_id, demand) \<in> Inr ` set (cp_nodes plan)"
    unfolding plan_memory_nodes(1) [OF assms(1)] by simp
  then show thesis by (auto intro: that)
qed

lemma plan_capacity_memory:
  assumes "plan_capacity admit requirements capacities stops floor_bytes = Inr plan"
  obtains memory found where
    "plan_memory_capacity admit requirements capacities stops floor_bytes = Inr memory"
    "cp_allowed plan \<longleftrightarrow> cp_allowed memory \<and> \<not> blocked (concat found)"
    "cp_reasons plan = cp_reasons memory @ concat found"
    "map (\<lambda>node. case map_of requirements (np_node_id node) of
            None \<Rightarrow> Inl KeyError
          | Some demand \<Rightarrow> load_swap_reason (np_node_id node) demand
              (map_option pool_of (capacity_of capacities (np_node_id node)))) (cp_nodes memory)
       = map Inr found"
  using assms by (auto simp: plan_capacity_def seq_results_Inr)

section \<open>Examples\<close>

text \<open>A Spark of 120 GiB with 64 GiB of swap, and a load of 60 GiB that rises by 4 GiB.\<close>

definition example_demand :: resource_demand where
  "example_demand =
     \<lparr>weights_bytes = None, runtime_overhead_bytes = None, context_bytes = None,
      concurrency_bytes = None, batch_bytes = None, total_bytes = Some (60 * GIB),
      demand_evidence = Declared, demand_reasons = [], load_overshoot_bytes = 4 * GIB,
      minimum_swap_bytes = 0\<rparr>"

definition example_swap :: swap_capacity where
  "example_swap = \<lparr>swap_total = 64 * GIB, swap_used = GIB, swap_holders = [], swap_desired = None\<rparr>"

definition example_pool :: "evidence_state \<Rightarrow> pool_capacity" where
  "example_pool evidence =
     \<lparr>cap_node_id = ''n1'', cap_memory_kind = ''unified'', available_bytes = Some (120 * GIB),
      occupied_bytes = Some (10 * GIB), reserved_bytes = Some 0, cap_evidence = evidence,
      evidence_digest = None, unmaterialized_bytes = Some 0, unknown_run_residuals = [],
      evidence_observed_at = None, kept_bytes = 0, unmaterialized_holders = [],
      releasing_bytes = 0, free_upside_bytes = 0, cap_swap = example_swap\<rparr>"

abbreviation example_plan :: "evidence_state \<Rightarrow> capacity_plan result" where
  "example_plan evidence \<equiv> plan_capacity documented_admission [(''n1'', example_demand)]
     [Capacity (example_pool evidence) []] [] (2 * GIB)"

lemma example_capacity:
  "capacity_of [Capacity (example_pool evidence) []] ''n1'' = Some (Capacity (example_pool evidence) [])"
  by (simp add: capacity_of_def example_pool_def)

lemma example_swap_reason: "load_swap_reason ''n1'' example_demand (Some (example_pool evidence)) = Inr []"
proof -
  have "tried_swap_need example_demand = (4 * GIB, 0, False)" by code_simp
  moreover have "swap_carries example_demand example_swap True" by code_simp
  ultimately show ?thesis by (simp add: load_swap_reason_def example_pool_def)
qed

text \<open>With one node and no swap reason the plan is the memory plan.\<close>

lemma example_plan_memory:
  assumes "case plan_memory_capacity documented_admission [(''n1'', example_demand)]
      [Capacity (example_pool evidence) []] [] (2 * GIB) of
      Inr memory \<Rightarrow> map np_node_id (cp_nodes memory) = [''n1''] \<and> cp_allowed memory = b
    | Inl e \<Rightarrow> False"
  shows "\<exists>plan. example_plan evidence = Inr plan \<and> cp_allowed plan = b"
proof -
  obtain memory where "plan_memory_capacity documented_admission [(''n1'', example_demand)]
      [Capacity (example_pool evidence) []] [] (2 * GIB) = Inr memory"
      "map np_node_id (cp_nodes memory) = [''n1'']" "cp_allowed memory = b"
    using assms by (auto split: sum.splits)
  then show ?thesis
    by (auto simp: plan_capacity_def example_capacity example_swap_reason)
qed

lemma example_allowed: "\<exists>plan. example_plan Fresh = Inr plan \<and> cp_allowed plan"
proof -
  have "\<exists>plan. example_plan Fresh = Inr plan \<and> cp_allowed plan = True"
    by (rule example_plan_memory) code_simp
  then show ?thesis by simp
qed



section \<open>Refusals\<close>

text \<open>A demand without a total says why.\<close>

definition explained :: "resource_demand \<Rightarrow> bool" where
  "explained demand \<longleftrightarrow> total_bytes demand = None \<longrightarrow> blocked (demand_reasons demand)"

text \<open>Every pool of a snapshot is larger than the floor.\<close>

fun above_floor :: "int \<Rightarrow> capacity_snapshot \<Rightarrow> bool" where
  "above_floor floor_bytes (Capacity pool parts) =
     (if parts = [] then (case available_bytes pool of None \<Rightarrow> True | Some n \<Rightarrow> floor_bytes < n)
      else list_all (above_floor floor_bytes) parts)"

lemma charged_bytes_fits: "floor_bytes < pool \<Longrightarrow> charged_bytes demanded pool floor_bytes + floor_bytes \<le> pool"
  by (simp add: charged_bytes_def)

lemma fit_reasons_refusal:
  assumes c: "admission_contract admit" and roomy: "floor_bytes < pool"
    and now: "admit (pool_request (charged_bytes demanded pool floor_bytes) pool capacity 0
        floor_bytes) = Inr now"
    and after: "admit (pool_request (charged_bytes demanded pool floor_bytes) pool capacity release
        floor_bytes) = Inr after"
    and refused: "\<not> (if release \<noteq> 0 then admissible after else admissible now)"
  shows "blocked (fit_reasons node_id capacity release floor_bytes now after)"
proof -
  note n = admission_contractD [OF c now] and a = admission_contractD [OF c after]
  have charged: "charged_bytes demanded pool floor_bytes + floor_bytes \<le> pool"
    using roomy by (rule charged_bytes_fits)
  show ?thesis
  proof (cases "release = 0")
    case True
    with refused n(4) charged have "free_after_bytes now < floor_bytes
        \<or> commitment_headroom_bytes now < 0"
      by (auto simp: n(2,3) pool_request_def)
    with True show ?thesis by (auto simp: fit_reasons_def Let_def)
  next
    case False
    with refused a(4) charged have short: "free_after_bytes after < floor_bytes
        \<or> commitment_headroom_bytes after < 0"
      by (auto simp: a(2,3) pool_request_def)
    have "0 \<le> release" using a(1) by (simp add: valid_request_def pool_request_def)
    then have "commitment_headroom_bytes now \<le> commitment_headroom_bytes after"
      by (simp add: n(3) a(3) headroom_after_def pool_request_def)
    with False short show ?thesis by (auto simp: fit_reasons_def Let_def)
  qed
qed

lemma plan_pool_refusal:
  assumes c: "admission_contract admit" and "explained demand"
    and roomy: "case available_bytes capacity of None \<Rightarrow> True | Some n \<Rightarrow> floor_bytes < n"
    and plan: "plan_pool admit stops floor_bytes node_id demand capacity = Inr plan"
  shows "np_allowed plan \<or> blocked (np_reasons plan)"
  using plan
proof (cases rule: plan_pool_cases)
  case blocked
  then show ?thesis using assms(2) by (auto simp: explained_def evidence_reasons_blocked)
next
  case (fit pool occupied reserved unmaterialized demanded now after why)
  then have "floor_bytes < pool" using roomy by simp
  note refusal = fit_reasons_refusal [OF c this fit(8,9), where node_id = node_id]
  show ?thesis using fit(11,12) refusal by (auto simp: tried_reason_def)
qed

lemma plan_node_refusal:
  assumes c: "admission_contract admit" and e: "explained demand"
  shows "above_floor floor_bytes capacity \<Longrightarrow>
    plan_node admit stops floor_bytes node_id demand capacity = Inr plan \<Longrightarrow>
    np_allowed plan \<or> blocked (np_reasons plan)"
proof (induction capacity arbitrary: plan)
  case (Capacity pool parts)
  show ?case
  proof (cases "parts = []")
    case True
    with Capacity.prems plan_pool_refusal [OF c e] show ?thesis by simp
  next
    case False
    with Capacity.prems(2) obtain plans where plans: "plan = combine_parts node_id plans"
        "map (\<lambda>part. if cap_node_id (pool_of part) = node_id
           then plan_node admit stops floor_bytes node_id demand part
           else Inr (capacity_missing node_id demand)) parts = map Inr plans"
      by (auto simp: seq_results_Inr)
    have each: "np_allowed p \<or> blocked (np_reasons p)" if "p \<in> set plans" for p
    proof -
      have "Inr p \<in> set (map (\<lambda>part. if cap_node_id (pool_of part) = node_id
           then plan_node admit stops floor_bytes node_id demand part
           else Inr (capacity_missing node_id demand)) parts)"
        unfolding plans(2) using that by simp
      then obtain part where part: "part \<in> set parts"
          "(if cap_node_id (pool_of part) = node_id
            then plan_node admit stops floor_bytes node_id demand part
            else Inr (capacity_missing node_id demand)) = Inr p"
        by auto
      moreover have "above_floor floor_bytes part"
        using Capacity.prems(1) False part(1) by (simp add: list_all_iff)
      ultimately show ?thesis
        using Capacity.IH [of part p]
        by (auto simp: capacity_missing_def no_plan_def split: if_splits)
    qed
    show ?thesis
    proof (cases "list_all np_allowed plans")
      case True
      with plans(1) show ?thesis by (simp add: combine_parts_def)
    next
      case False
      then obtain p where "p \<in> set plans" "\<not> np_allowed p" by (auto simp: list_all_iff)
      with each have "\<exists>r \<in> set (np_reasons p). rr_severity r = Blocker" by (auto simp: blocked_set)
      with \<open>p \<in> set plans\<close> plans(1) show ?thesis by (auto simp: combine_parts_def blocked_set)
    qed
  qed
qed

lemma capacity_of_member: "capacity_of capacities node_id = Some c \<Longrightarrow> c \<in> set capacities"
  by (auto simp: capacity_of_def find_Some_iff) (metis nth_mem length_rev set_rev)

text \<open>
  No silent refusal: for demands that say why they have no total, on nodes whose pools are
  larger than the floor, a plan is allowed exactly when none of its reasons is a blocker.
\<close>

lemma plan_allowed_iff_no_blocker:
  assumes c: "admission_contract admit"
    and plan: "plan_capacity admit requirements capacities stops floor_bytes = Inr plan"
    and "requirements \<noteq> []" "\<forall>r \<in> set requirements. explained (snd r)"
    and "\<forall>s \<in> set capacities. above_floor floor_bytes s"
  shows "cp_allowed plan \<longleftrightarrow> \<not> blocked (cp_reasons plan)"
proof -
  obtain memory found where memory:
      "plan_memory_capacity admit requirements capacities stops floor_bytes = Inr memory"
    and eqs: "cp_allowed plan \<longleftrightarrow> cp_allowed memory \<and> \<not> blocked (concat found)"
      "cp_reasons plan = cp_reasons memory @ concat found"
    using plan by (elim plan_capacity_memory)
  note nodes = plan_memory_nodes [OF memory]
  have each: "np_allowed n \<or> blocked (np_reasons n)" if "n \<in> set (cp_nodes memory)" for n
  proof -
    have "(Inr n :: node_plan result) \<in> set (map Inr (cp_nodes memory))" using that by simp
    then obtain node_id demand where r: "(node_id, demand) \<in> set requirements"
        "(case capacity_of capacities node_id of
            None \<Rightarrow> Inr (capacity_missing node_id demand)
          | Some capacity \<Rightarrow> plan_node admit stops floor_bytes node_id demand capacity) = Inr n"
      unfolding nodes(1) [symmetric] by force
    have "explained demand" using r(1) assms(4) by force
    show ?thesis
    proof (cases "capacity_of capacities node_id")
      case None
      with r(2) show ?thesis by (auto simp: capacity_missing_def no_plan_def)
    next
      case (Some s)
      with r(2) plan_node_refusal [OF c \<open>explained demand\<close>, of floor_bytes s stops node_id n]
        assms(5) capacity_of_member [OF Some] show ?thesis by simp
    qed
  qed
  have "cp_nodes memory \<noteq> []" using nodes(1) assms(3) by (auto dest: map_eq_imp_length_eq)
  moreover have "list_all np_allowed (cp_nodes memory)" if "\<not> blocked (cp_reasons memory)"
    using that each by (fastforce simp: list_all_iff nodes(2) blocked_set)
  ultimately show ?thesis using eqs nodes(3) by auto
qed

section \<open>Swap\<close>

lemma plan_node_id:
  assumes "plan_node admit stops floor_bytes node_id demand s = Inr node"
  shows "np_node_id node = node_id"
proof (cases s)
  case (Capacity pool parts)
  show ?thesis
  proof (cases "parts = []")
    case True
    with assms Capacity have "plan_pool admit stops floor_bytes node_id demand pool = Inr node" by simp
    then show ?thesis by (cases rule: plan_pool_cases)
  next
    case False
    with assms Capacity show ?thesis by (auto simp: combine_parts_def)
  qed
qed

lemma cut_severity: "rr_severity (cut_estimate_reason node_id demand) = Warning"
  unfolding cut_estimate_reason_def by (rule severity_of_reason)

lemma load_swap_reason_blocked:
  assumes "load_swap_reason node_id demand (Some capacity) = Inr reasons"
    and "0 < fst (tried_swap_need demand)"
  shows "blocked reasons \<longleftrightarrow> \<not> swap_carries demand (cap_swap capacity) True"
  using assms
  by (cases "tried_swap_need demand")
    (auto simp: load_swap_reason_def Let_def cut_severity split: if_splits)

lemma swap_carries_uncut:
  assumes "load_overshoot_bytes demand \<le> usable_swap_bytes (maximum_gib SWAP_POLICY * GIB)"
  shows "swap_carries demand swap in_use \<longleftrightarrow>
    load_overshoot_bytes demand + held_bytes swap + (if in_use then swap_used swap else 0)
      \<le> usable_swap_bytes (swap_total swap) \<and>
    swap_reaches (swap_total swap) (min (minimum_swap_bytes demand) (maximum_gib SWAP_POLICY * GIB))"
  using assms by (simp add: swap_carries_def tried_swap_need_def Let_def min_def)

lemma plan_capacity_swap:
  assumes plan: "plan_capacity admit requirements capacities stops floor_bytes = Inr plan"
    and "cp_allowed plan" "(node_id, demand) \<in> set requirements" "distinct (map fst requirements)"
    and "capacity_of capacities node_id = Some s"
  obtains reasons where "load_swap_reason node_id demand (Some (pool_of s)) = Inr reasons"
    "\<not> blocked reasons"
proof -
  let ?swap = "\<lambda>node. case map_of requirements (np_node_id node) of
            None \<Rightarrow> Inl KeyError
          | Some demand \<Rightarrow> load_swap_reason (np_node_id node) demand
              (map_option pool_of (capacity_of capacities (np_node_id node)))"
  obtain memory found where memory:
      "plan_memory_capacity admit requirements capacities stops floor_bytes = Inr memory"
      "\<not> blocked (concat found)" "map ?swap (cp_nodes memory) = map Inr found"
    using plan assms(2) by (elim plan_capacity_memory) auto
  obtain node where node: "node \<in> set (cp_nodes memory)"
      "plan_node admit stops floor_bytes node_id demand s = Inr node"
    using plan_memory_node [OF memory(1) assms(3)] assms(5) by auto
  have "?swap node \<in> set (map ?swap (cp_nodes memory))" unfolding set_map using node(1) by (rule imageI)
  then obtain reasons where r: "?swap node = Inr reasons" "reasons \<in> set found"
    unfolding memory(3) by auto
  have "load_swap_reason node_id demand (Some (pool_of s)) = Inr reasons"
    using r(1) plan_node_id [OF node(2)] assms(3-5) by simp
  moreover have "\<not> blocked reasons" using r(2) memory(2) by (auto simp: blocked_set)
  ultimately show thesis by (rule that)
qed

text \<open>
  An admitted load keeps swap within the host memory guard's margins: when the whole rise
  of the load, what the other loads on the node still hold and the swap in use are filled, the
  guard's free floor and percentage stay free and no more than its filling percentage is used.
\<close>

lemma admitted_load_within_guard:
  assumes "plan_capacity admit requirements capacities stops floor_bytes = Inr plan"
    and "cp_allowed plan" "(node_id, demand) \<in> set requirements" "distinct (map fst requirements)"
    and "capacity_of capacities node_id = Some s" "swap = cap_swap (pool_of s)"
    and "0 < load_overshoot_bytes demand" "0 \<le> held_bytes swap" "0 \<le> swap_used swap"
    and "load_overshoot_bytes demand \<le> usable_swap_bytes (maximum_gib SWAP_POLICY * GIB)"
    and "filled = load_overshoot_bytes demand + held_bytes swap + swap_used swap"
  shows "exhausted_free_floor_gib SWAP_POLICY * GIB \<le> swap_total swap - filled \<and>
    swap_total swap div 100 * exhausted_free_percent SWAP_POLICY \<le> swap_total swap - filled \<and>
    filled \<le> swap_total swap div 100 * filling_used_percent SWAP_POLICY"
proof -
  obtain reasons where r: "load_swap_reason node_id demand (Some (pool_of s)) = Inr reasons"
      "\<not> blocked reasons"
    using plan_capacity_swap [OF assms(1-5)] .
  have "0 < fst (tried_swap_need demand)"
    using assms(7,10) by (simp add: tried_swap_need_def Let_def)
  with r load_swap_reason_blocked [OF r(1)] assms(6)
  have "swap_carries demand swap True" by simp
  with swap_carries_uncut [OF assms(10)] have "filled \<le> usable_swap_bytes (swap_total swap)"
    using assms(11) by simp
  then show ?thesis using assms(7-9,11)
    by (auto simp: usable_swap_bytes_def kept_free_def)
qed

lemma ceiling_GIB: "minimum \<le> - ((- minimum) div GIB) * GIB"
  by (simp add: GIB_eq)

text \<open>
  The setting a wait for swap names is enough: a Spark whose active swap has that size,
  with no other load holding swap, carries the load beside the swap in use, unless the largest
  setting was reached.
\<close>

lemma named_setting_carries_load:
  assumes "load_overshoot_bytes demand \<le> usable_swap_bytes (maximum_gib SWAP_POLICY * GIB)"
    and "0 < load_overshoot_bytes demand" "0 \<le> swap_used swap"
    and "tried_swap_need demand = (rise, minimum, clamped)"
    and "needed_setting rise minimum swap < maximum_gib SWAP_POLICY * GIB"
  shows "swap_carries demand
    (swap\<lparr>swap_total := needed_setting rise minimum swap, swap_holders := []\<rparr>) True"
proof -
  have rise: "rise = load_overshoot_bytes demand"
    and minimum: "minimum = min (minimum_swap_bytes demand) (maximum_gib SWAP_POLICY * GIB)"
    using assms(1,4) by (auto simp: tried_swap_need_def Let_def)
  let ?n = "swap_needed_bytes (rise + swap_used swap)"
  have setting: "needed_setting rise minimum swap = max ?n (- ((- minimum) div GIB) * GIB)"
    using assms(5) unfolding needed_setting_def by linarith
  have "rise + swap_used swap \<le> usable_swap_bytes ?n"
    using assms(2,3) swap_grow_holds by (simp add: swap_needed_bytes_def rise)
  also have "\<dots> \<le> usable_swap_bytes (needed_setting rise minimum swap)"
    by (rule usable_swap_mono) (simp add: setting)
  finally have "rise + swap_used swap \<le> usable_swap_bytes (needed_setting rise minimum swap)" .
  moreover have "minimum \<le> needed_setting rise minimum swap"
    using ceiling_GIB [of minimum] by (simp add: setting)
  ultimately have "rise + held_bytes (swap\<lparr>swap_total := needed_setting rise minimum swap,
        swap_holders := []\<rparr>) + swap_used swap
      \<le> usable_swap_bytes (needed_setting rise minimum swap)"
    "swap_reaches (needed_setting rise minimum swap) minimum"
    by (simp_all add: held_bytes_def swap_reaches_def SWAP_POLICY_def)
  then show ?thesis unfolding swap_carries_uncut [OF assms(1)] by (simp add: rise minimum)
qed

end
