(* ===== verification/Resource_Preflight.thy ===== *)
theory Resource_Preflight
  imports Resource_Demand Capacity_Properties
begin

text \<open>
  The preflight of a selection (\<^verbatim>\<open>resource_planning/preflight.py\<close>): settings, demand and capacity
  composed, and what the composition guarantees.
\<close>

record preflight_plan =
  pp_settings :: "settings option"
  pp_demands :: "(string \<times> resource_demand) list"
  pp_capacity :: "capacity_plan option"
  pp_reasons :: "resource_reason list"

definition preflight_allowed :: "preflight_plan \<Rightarrow> bool" where
  "preflight_allowed p \<longleftrightarrow> pp_settings p \<noteq> None \<and>
     (case pp_capacity p of None \<Rightarrow> False | Some c \<Rightarrow> cp_allowed c) \<and> \<not> blocked (pp_reasons p)"

definition plan_resource_preflight ::
  "admission \<Rightarrow> ('d \<Rightarrow> projection_outcome) \<Rightarrow> (json \<Rightarrow> string) \<Rightarrow> 'd settings_source
     \<Rightarrow> (string \<times> resource_evidence) list \<Rightarrow> capacity_snapshot list \<Rightarrow> planned_stop list \<Rightarrow> int
     \<Rightarrow> preflight_plan result" where
  "plan_resource_preflight admit project digest_of context evidence_by_node capacities stops
      floor_bytes =
     (let resolution = resolve_effective_settings project digest_of context
      in case sr_settings resolution of
           None \<Rightarrow> Inr \<lparr>pp_settings = None, pp_demands = [], pp_capacity = None,
                        pp_reasons = sr_reasons resolution\<rparr>
         | Some s \<Rightarrow>
             (let demands = map (\<lambda>(node_id, ev).
                    (node_id, resource_demand_of \<lparr>sr_settings = Some s, sr_reasons = []\<rparr> ev (Some node_id)))
                  evidence_by_node
              in res_map (\<lambda>capacity.
                   \<lparr>pp_settings = Some s, pp_demands = demands, pp_capacity = Some capacity,
                    pp_reasons = sr_reasons resolution @ cp_reasons capacity\<rparr>)
                 (plan_capacity admit demands capacities stops floor_bytes)))"

section \<open>Demands\<close>

text \<open>
  The demand of resolved settings: either it names a blocker and no total, or it forecasts
  at least what the recipe declares for the role, and the rise of its load is never negative,
  covers the declared rise and, when earlier runs of the same content were observed above the
  forecast, the whole observed peak.
\<close>

lemma resource_demand_covers:
  assumes "sr_settings resolution = Some s" "sr_reasons resolution = []"
    and "d = resource_demand_of resolution ev node_id"
  shows "if blocked (demand_reasons d) then total_bytes d = None
    else \<exists>t. total_bytes d = Some t \<and> 0 \<le> t \<and> 0 \<le> load_overshoot_bytes d \<and>
      (\<forall>n. declared_bound ev = Some n \<longrightarrow> n \<le> t) \<and>
      ev_declared_load_rise ev \<le> load_overshoot_bytes d \<and>
      (\<forall>n. observed_bound ev = Some n \<longrightarrow> n \<le> t + load_overshoot_bytes d)"
  using assms
  by (cases rule: resource_demand_of_cases) auto

text \<open>A role that declares 60 GiB and rises by 4 GiB, seen at 70 GiB in an earlier run.\<close>

definition example_evidence :: resource_evidence where
  "example_evidence = (resource_evidence_of (Some (50 * GIB)) (60 * GIB) (Some example_settings)
     (Some (70 * GIB)) (4 * GIB) 0)\<lparr>ev_runtime_overhead := Some 0\<rparr>"

section \<open>Settings\<close>

text \<open>A validation error of the contract package has at least one issue.\<close>

definition project_contract :: "('d \<Rightarrow> projection_outcome) \<Rightarrow> bool" where
  "project_contract project \<longleftrightarrow> (\<forall>d. project d \<noteq> Invalid [])"

lemma resolve_settings_cases:
  assumes "project_contract project" "r = resolve_effective_settings project digest_of v"
  shows "case sr_settings r of None \<Rightarrow> blocked (sr_reasons r) | Some s \<Rightarrow> sr_reasons r = []"
proof (cases v)
  case (Document d)
  show ?thesis
  proof (cases "project d")
    case (Invalid issues)
    then have "issues \<noteq> []" using assms(1) by (auto simp: project_contract_def)
    with Document Invalid assms(2) show ?thesis
      by (cases issues) (auto simp: resolve_effective_settings_def)
  qed (use Document assms(2) in \<open>auto simp: resolve_effective_settings_def unresolved_def
        projected_settings_def Let_def split: option.splits if_splits\<close>)
qed (use assms(2) in \<open>auto simp: resolve_effective_settings_def unresolved_def\<close>)

section \<open>The composition\<close>

lemma demands_explained:
  "explained (resource_demand_of \<lparr>sr_settings = Some s, sr_reasons = []\<rparr> ev node_id)"
  by (rule resource_demand_of_cases [of "\<lparr>sr_settings = Some s, sr_reasons = []\<rparr>" s _ ev node_id])
    (auto simp: explained_def)

text \<open>
  (C26) A preflight is refused only with a reason: for at least one selected node, on nodes whose
  pools are larger than the floor, the plan is allowed exactly when none of its reasons is a
  blocker, whatever the settings, the evidence and the planned stops are.
\<close>

theorem preflight_allowed_iff_no_blocker:
  assumes "admission_contract admit" "project_contract project"
    and "plan_resource_preflight admit project digest_of context evidence_by_node capacities stops
      floor_bytes = Inr plan"
    and "evidence_by_node \<noteq> []" "\<forall>s \<in> set capacities. above_floor floor_bytes s"
  shows "preflight_allowed plan \<longleftrightarrow> \<not> blocked (pp_reasons plan)"
proof -
  define r where "r = resolve_effective_settings project digest_of context"
  note cases = resolve_settings_cases [OF assms(2) r_def]
  show ?thesis
  proof (cases "sr_settings r")
    case None
    with cases assms(3) show ?thesis
      by (auto simp: plan_resource_preflight_def Let_def r_def [symmetric] preflight_allowed_def)
  next
    case (Some s)
    let ?demands = "map (\<lambda>(node_id, ev).
        (node_id, resource_demand_of \<lparr>sr_settings = Some s, sr_reasons = []\<rparr> ev (Some node_id)))
      evidence_by_node"
    obtain capacity where c: "plan_capacity admit ?demands capacities stops floor_bytes = Inr capacity"
      and plan: "plan = \<lparr>pp_settings = Some s, pp_demands = ?demands, pp_capacity = Some capacity,
        pp_reasons = cp_reasons capacity\<rparr>"
      using assms(3) Some cases by (auto simp: plan_resource_preflight_def Let_def r_def [symmetric])
    have "cp_allowed capacity \<longleftrightarrow> \<not> blocked (cp_reasons capacity)"
      by (rule plan_allowed_iff_no_blocker [OF assms(1) c _ _ assms(5)])
        (use assms(4) in \<open>auto simp: demands_explained\<close>)
    then show ?thesis using plan by (simp add: preflight_allowed_def)
  qed
qed

theorem preflight_allowed_iff_no_blocker_witness:
  "\<exists>plan. plan_resource_preflight documented_admission (\<lambda>_ :: unit. Unrenderable) (dumps (\<lambda>_. []))
      (Effective example_settings) [(''n1'', example_evidence\<lparr>ev_declared_load_rise := 0,
        ev_observed_total := None\<rparr>)] [Capacity (example_pool Stale) []] [] (2 * GIB) = Inr plan \<and>
    blocked (pp_reasons plan)"
proof -
  let ?plan = "plan_resource_preflight documented_admission (\<lambda>_ :: unit. Unrenderable)
      (dumps (\<lambda>_. [])) (Effective example_settings) [(''n1'', example_evidence
        \<lparr>ev_declared_load_rise := 0, ev_observed_total := None\<rparr>)]
      [Capacity (example_pool Stale) []] [] (2 * GIB)"
  have "case ?plan of Inr plan \<Rightarrow> \<not> preflight_allowed plan | Inl e \<Rightarrow> False" by code_simp
  then obtain plan where plan: "?plan = Inr plan" "\<not> preflight_allowed plan"
    by (auto split: sum.splits)
  have "above_floor (2 * GIB) (Capacity (example_pool Stale) [])"
    by (simp add: example_pool_def GIB_eq)
  then have "preflight_allowed plan \<longleftrightarrow> \<not> blocked (pp_reasons plan)"
    by (intro preflight_allowed_iff_no_blocker [OF documented_admission_contract _ plan(1)])
      (simp_all add: project_contract_def)
  with plan show ?thesis by blast
qed

end
