(* ===== verification/Memory_Snapshot.thy ===== *)
theory Memory_Snapshot
  imports Resource_Preflight
begin

text \<open>
  The capacity snapshot of one Spark (\<^verbatim>\<open>resource_planning/memory.py\<close>): the reservations of each
  kind of memory summed over the pools they draw from, what the inventory sample reports as
  used, and for a unified demand on separate hardware one component per pool. Also the memory
  requirement of a role and the disk envelope of an installation (\<^verbatim>\<open>types.py\<close>).
\<close>

section \<open>Requirements\<close>

record recipe_memory =
  peak_bytes :: int
  load_peak_bytes :: "int option"
  rm_minimum_swap :: int

record memory_requirement =
  mr_kind :: string
  mr_floor_bytes :: int
  mr_demand :: resource_demand

text \<open>
  \<^verbatim>\<open>memory_requirement\<close>. The recipe document is the source of the settings unless settings are
  given; its validated selections and the model documents give the bytes of the role's files.
\<close>

definition memory_requirement_of ::
  "('d \<Rightarrow> projection_outcome) \<Rightarrow> (json \<Rightarrow> string) \<Rightarrow> 'd settings_source \<Rightarrow> recipe_memory \<Rightarrow> string
     \<Rightarrow> model_selection list option \<Rightarrow> ((string \<times> string \<times> string) \<times> model_files option) list
     \<Rightarrow> int option \<Rightarrow> 'd settings_source option \<Rightarrow> int \<Rightarrow> memory_requirement result" where
  "memory_requirement_of project digest_of recipe memory role_name selections documents
      observed_peak settings platform_floor =
     (if platform_floor < 0 then Inl ValueError
      else
       (let selected = opt_or settings recipe;
            resolution = resolve_effective_settings project digest_of selected;
            ev = resource_evidence_of (selected_model_bytes selections documents role_name)
              (peak_bytes memory) (sr_settings resolution) observed_peak
              (case load_peak_bytes memory of None \<Rightarrow> 0 | Some n \<Rightarrow> n - peak_bytes memory)
              (rm_minimum_swap memory)
        in Inr \<lparr>mr_kind = ''unified'', mr_floor_bytes = platform_floor,
                mr_demand = resource_demand_of resolution ev None\<rparr>))"

record disk_requirement =
  dr_required_bytes :: int
  dr_floor_bytes :: int

text \<open>\<^verbatim>\<open>installation_disk_requirement\<close> of a recipe's working bytes and safety margin.\<close>

definition installation_disk_requirement ::
  "int \<Rightarrow> int \<Rightarrow> int \<Rightarrow> int \<Rightarrow> disk_requirement result" where
  "installation_disk_requirement working_bytes safety_margin required_download minimum_floor =
     (if required_download < 0 \<or> minimum_floor < 0 then Inl ValueError
      else Inr \<lparr>dr_required_bytes = required_download + working_bytes,
                dr_floor_bytes = max minimum_floor safety_margin\<rparr>)"

section \<open>Reservations\<close>

record reservation_totals =
  committed_by_kind :: "(string \<times> int) list"
  unmaterialized_by_kind :: "(string \<times> int) list"
  residuals_by_kind :: "(string \<times> residual list) list"
  released_by_kind :: "(string \<times> int) list"
  kept_by_kind :: "(string \<times> int) list"
  holders_by_kind :: "(string \<times> claim_holder list) list"
  releasing_by_kind :: "(string \<times> int) list"

definition sum_kinds :: "string list \<Rightarrow> (string \<times> int) list \<Rightarrow> int" where
  "sum_kinds kinds m = sum_list (map (\<lambda>k. opt_or (map_of m k) 0) kinds)"

definition all_kinds :: "string list \<Rightarrow> (string \<times> 'a list) list \<Rightarrow> 'a list" where
  "all_kinds kinds m = concat (map (\<lambda>k. opt_or (map_of m k) []) kinds)"

section \<open>The snapshot\<close>

text \<open>What a snapshot takes from its caller beside the pools' values.\<close>

record sample =
  sm_evidence :: evidence_state
  sm_digest :: "string option"
  sm_observed_at :: "string option"
  sm_recent_best_free :: "int option"
  sm_swap :: swap_capacity

text \<open>The kinds that draw from a pool; nothing is looked up when the pool is unknown.\<close>

definition pool_kinds :: "string \<Rightarrow> memory_pool option \<Rightarrow> string list result" where
  "pool_kinds kind pool =
     (case pool of
        None \<Rightarrow> Inr []
      | Some p \<Rightarrow> res_bind (memory_reservation_kind kind) (\<lambda>k. memory_reservation_kinds k p))"

definition pool_component ::
  "string \<Rightarrow> reservation_totals \<Rightarrow> memory_pool option \<Rightarrow> sample \<Rightarrow> string \<Rightarrow> (int \<times> int) option
     \<Rightarrow> pool_capacity result" where
  "pool_component node_id reservations pool smp kind values =
     res_map (\<lambda>kinds.
       \<lparr>cap_node_id = node_id, cap_memory_kind = kind, available_bytes = map_option fst values,
        occupied_bytes = (case values of None \<Rightarrow> None
          | Some (all, free) \<Rightarrow>
              Some (max 0 (all - free - sum_kinds kinds (released_by_kind reservations)))),
        reserved_bytes = (if pool = None then None
          else Some (sum_kinds kinds (committed_by_kind reservations))),
        cap_evidence = (if values = None then Unknown else sm_evidence smp),
        evidence_digest = sm_digest smp,
        unmaterialized_bytes = (if pool = None then None
          else Some (sum_kinds kinds (unmaterialized_by_kind reservations))),
        unknown_run_residuals = all_kinds kinds (residuals_by_kind reservations),
        evidence_observed_at = sm_observed_at smp,
        kept_bytes = sum_kinds kinds (kept_by_kind reservations),
        unmaterialized_holders = all_kinds kinds (holders_by_kind reservations),
        releasing_bytes = sum_kinds kinds (releasing_by_kind reservations),
        free_upside_bytes =
          (case (pool, sm_recent_best_free smp, values) of
             (Some Shared, Some best, Some (all, free)) \<Rightarrow> max 0 (best - free)
           | _ \<Rightarrow> 0),
        cap_swap = sm_swap smp\<rparr>) (pool_kinds kind pool)"

text \<open>The key by which the limiting component is chosen.\<close>

definition limiting_key :: "pool_capacity \<Rightarrow> int" where
  "limiting_key item =
     (case (available_bytes item, occupied_bytes item, reserved_bytes item) of
        (Some pool, Some occupied, Some reserved) \<Rightarrow>
          min (pool - reserved)
              (pool - occupied - opt_or (unmaterialized_bytes item) 0
                 - sum_list (map maximum_bytes (unknown_run_residuals item)))
      | _ \<Rightarrow> - 1)"

definition memory_capacity_snapshot ::
  "string \<Rightarrow> string \<Rightarrow> (int \<times> int) option \<Rightarrow> (int \<times> int) option \<Rightarrow> reservation_totals
     \<Rightarrow> memory_pool option \<Rightarrow> sample \<Rightarrow> capacity_snapshot result" where
  "memory_capacity_snapshot node_id kind host accelerator reservations pool smp =
     (let component = pool_component node_id reservations pool smp;
          single = res_map (\<lambda>p. Capacity p [])
      in if pool = Some Shared
         then single (component kind
           (case (host, accelerator) of
              (Some (h_all, h_free), Some (a_all, a_free)) \<Rightarrow>
                Some (min h_all a_all, min h_free a_free)
            | _ \<Rightarrow> None))
         else if kind = ''host'' then single (component ''host'' host)
         else if kind = ''accelerator'' then single (component ''accelerator'' accelerator)
         else
          res_bind (component ''host'' host) (\<lambda>h.
          res_map (\<lambda>a.
            let limiting = (if limiting_key a < limiting_key h then a else h)
            in Capacity (limiting\<lparr>cap_memory_kind := ''unified'',
                  unknown_run_residuals :=
                    fromkeys (unknown_run_residuals h @ unknown_run_residuals a)\<rparr>)
                 [Capacity h [], Capacity a []]) (component ''accelerator'' accelerator)))"

section \<open>A unified demand on separate pools\<close>

lemma pool_component_fields:
  assumes "pool_component node_id reservations pool smp kind values = Inr p"
  shows "cap_node_id p = node_id" "available_bytes p = map_option fst values"
    "cap_memory_kind p = kind"
  using assms by (auto simp: pool_component_def)

lemma plan_node_two_pools:
  assumes "plan_node admit stops floor_bytes node_id demand (Capacity pool [Capacity h [], Capacity a []])
      = Inr plan" "np_allowed plan"
    and "cap_node_id h = node_id" "cap_node_id a = node_id" "p = h \<or> p = a"
  obtains part where "plan_pool admit stops floor_bytes node_id demand p = Inr part" "np_allowed part"
  using assms by (auto simp: combine_parts_def)


definition no_reservations :: reservation_totals where
  "no_reservations =
     \<lparr>committed_by_kind = [], unmaterialized_by_kind = [], residuals_by_kind = [],
      released_by_kind = [], kept_by_kind = [], holders_by_kind = [], releasing_by_kind = []\<rparr>"

definition example_sample :: sample where
  "example_sample = \<lparr>sm_evidence = Fresh, sm_digest = None, sm_observed_at = None,
     sm_recent_best_free = None, sm_swap = NO_SWAP\<rparr>"


end
