(* ===== verification/Agent_Upgrade.thy ===== *)
theory Agent_Upgrade
  imports Jobs
begin

text \<open>
  The lifecycle adapter of an agent-upgrade rollout (\<^verbatim>\<open>lifecycle/agent_upgrade.py\<close>): a stored job
  whose work is done by its orders. The rollout has no effect of its own; it follows its orders
  and is ended by what they report. A second user of the settle loop.

  The source's sentinel \<^verbatim>\<open>KEEP\<close> for "leave the stored reason" is \<open>None\<close>, so a given reason is
  \<open>Some\<close> of an optional string.
\<close>

section \<open>Adopting a rollout\<close>

text \<open>\<^verbatim>\<open>_STORED\<close>.\<close>

fun upgrade_stored :: "lifecycle_state \<Rightarrow> string result" where
  "upgrade_stored S_QUEUED = Inr ''queued''"
| "upgrade_stored S_RUNNING = Inr ''running''"
| "upgrade_stored S_BACKOFF = Inr ''queued''"
| "upgrade_stored S_OBSERVING = Inr ''queued''"
| "upgrade_stored S_NEEDS_OPERATOR = Inr ''queued''"
| "upgrade_stored S_SUCCEEDED = Inr ''succeeded''"
| "upgrade_stored S_FAILED = Inr ''failed''"
| "upgrade_stored S_CANCELLED = Inr ''cancelled''"
| "upgrade_stored S_SUPERSEDED = Inl KeyError"

definition upgrade_state :: "string \<Rightarrow> lifecycle_state" where
  "upgrade_state stored =
     (if stored = ''queued'' then S_QUEUED
      else if stored = ''running'' then S_OBSERVING
      else if stored = ''succeeded'' then S_SUCCEEDED
      else if stored = ''failed'' then S_FAILED
      else if stored = ''cancelled'' then S_CANCELLED
      else S_NEEDS_OPERATOR)"

definition upgrade_adopt :: "job \<Rightarrow> lifecycle" where
  "upgrade_adopt stored =
     (let state = upgrade_state (jb_state stored)
      in (new_lifecycle (jb_id stored) ''agent-upgrade'')
           \<lparr>lc_state := state, lc_attempt := jb_current_attempt stored,
            lc_cancel_requested_at :=
              (if jb_superseded_by stored \<noteq> None then Some (jb_updated_at stored) else None),
            lc_cancel_request_key := jb_superseded_by stored,
            lc_effect := (if state = S_SUCCEEDED then E_ESTABLISHED
                          else if state = S_CANCELLED then E_STOPPED
                          else if jb_current_attempt stored > 0 then E_ISSUED else E_NONE),
            lc_next_action_at := wait_due (jb_wait stored) (jb_legacy_due stored),
            lc_reason := jb_status_reason stored\<rparr>)"

definition upgrade_view :: adapter where
  "upgrade_view = \<lparr>ad_irreversible = (\<lambda>_. False), ad_retry_not_before = (\<lambda>_ _. None),
     ad_recovery_deadline = (\<lambda>_. None), ad_actions = (\<lambda>_. [])\<rparr>"

definition upgrade_kind_adapter :: "job kind_adapter" where
  "upgrade_kind_adapter =
     \<lparr>ka_view = (\<lambda>_. upgrade_view),
      ka_observe = (\<lambda>_ w. (w, Some (E_UNKNOWN, Some ''the rollout follows its orders''))),
      ka_stop = (\<lambda>_ w. (w, Some Stop_CONFIRMED)),
      ka_execute = (\<lambda>_ _ w. w)\<rparr>"

section \<open>Writing a decision\<close>

definition upgrade_apply ::
  "(string \<Rightarrow> bool) \<Rightarrow> job \<Rightarrow> lifecycle \<Rightarrow> instant \<Rightarrow> string option option \<Rightarrow> job result" where
  "upgrade_apply declared job after now reason =
     res_bind (lifecycle_wait declared (jb_wait job) (jb_id job) Wok_AGENT_UPGRADE (lc_state after)
         now (lc_next_action_at after) (lc_reason after) None [] (lc_recovery_deadline after)
         (cancel_requested after) (lc_lease_deadline after) None) (\<lambda>(wait, changed).
       res_map (\<lambda>stored.
         job\<lparr>jb_wait := wait, jb_state := stored, jb_updated_at := now,
             jb_status_reason := (case reason of
                None \<Rightarrow> jb_status_reason job
              | Some r \<Rightarrow> map_option (take 512) r)\<rparr>)
         (upgrade_stored (lc_state after)))"

definition upgrade_writer ::
  "(string \<Rightarrow> bool) \<Rightarrow> instant \<Rightarrow> string option option \<Rightarrow> job row_writer" where
  "upgrade_writer declared now reason =
     \<lparr>rw_save = (\<lambda>before after job.
        res_map (\<lambda>job'. (job', True)) (upgrade_apply declared job after now reason)),
      rw_residue = (\<lambda>_ _ job. job)\<rparr>"

definition upgrade_settled ::
  "(string \<Rightarrow> string) \<Rightarrow> (string \<Rightarrow> bool) \<Rightarrow> job \<Rightarrow> event \<Rightarrow> instant \<Rightarrow> string option option
     \<Rightarrow> (job \<times> settled) result" where
  "upgrade_settled sha256 declared job ev now reason =
     settle sha256 upgrade_kind_adapter (upgrade_writer declared now reason) (upgrade_adopt job) ev
       now MAX_STEPS_PER_ROW job"

definition upgrade_decide ::
  "(string \<Rightarrow> string) \<Rightarrow> job \<Rightarrow> event \<Rightarrow> instant \<Rightarrow> decision result" where
  "upgrade_decide sha256 job ev now = transition sha256 (upgrade_adopt job) ev upgrade_view now"

section \<open>The rollout's events\<close>

definition upgrade_project ::
  "(string \<Rightarrow> bool) \<Rightarrow> job \<Rightarrow> instant \<Rightarrow> string option option \<Rightarrow> (job \<times> lifecycle) result" where
  "upgrade_project declared job now reason =
     (let before = upgrade_adopt job
      in if terminal before then Inr (job, before)
         else (let after = before\<lparr>lc_state := S_QUEUED\<rparr>
               in res_map (\<lambda>job'. (job', after)) (upgrade_apply declared job after now reason)))"

text \<open>\<^verbatim>\<open>succeed\<close>, \<^verbatim>\<open>fail\<close> and \<^verbatim>\<open>cancelled\<close> answer the settled row.\<close>

definition upgrade_succeed ::
  "(string \<Rightarrow> string) \<Rightarrow> (string \<Rightarrow> bool) \<Rightarrow> job \<Rightarrow> instant \<Rightarrow> string option
     \<Rightarrow> (job \<times> lifecycle) result" where
  "upgrade_succeed sha256 declared job now reason =
     res_map (map_prod id sd_row)
       (upgrade_settled sha256 declared job (Reported (plain_report O_DONE)) now (Some reason))"

definition upgrade_fail ::
  "(string \<Rightarrow> string) \<Rightarrow> (string \<Rightarrow> bool) \<Rightarrow> job \<Rightarrow> instant \<Rightarrow> string
     \<Rightarrow> (job \<times> lifecycle) result" where
  "upgrade_fail sha256 declared job now reason =
     res_map (map_prod id sd_row)
       (upgrade_settled sha256 declared job
          (Reported (failed_report (Cause_disposition D_FAIL) None None (Some reason) None)) now
          (Some (Some reason)))"

definition upgrade_cancelled ::
  "(string \<Rightarrow> string) \<Rightarrow> (string \<Rightarrow> bool) \<Rightarrow> job \<Rightarrow> instant \<Rightarrow> string
     \<Rightarrow> (job \<times> lifecycle) result" where
  "upgrade_cancelled sha256 declared job now reason =
     res_map (map_prod id sd_row)
       (upgrade_settled sha256 declared job
          (Reported ((plain_report O_CANCELLED)\<lparr>rp_effect := Some E_STOPPED,
                                               rp_reason := Some reason\<rparr>)) now
          (Some (Some reason)))"

definition upgrade_reopen ::
  "(string \<Rightarrow> bool) \<Rightarrow> job \<Rightarrow> instant \<Rightarrow> string option \<Rightarrow> (job \<times> lifecycle) result" where
  "upgrade_reopen declared job now reason =
     (let after = (upgrade_adopt job)\<lparr>lc_state := S_QUEUED, lc_effect := E_ISSUED\<rparr>
      in res_map (\<lambda>job'. (job', after)) (upgrade_apply declared job after now (Some reason)))"

definition expire_worker_attempt :: "job_attempt \<Rightarrow> job_attempt" where
  "expire_worker_attempt attempt = lapse attempt"

definition new_rollout :: "bool \<Rightarrow> job \<Rightarrow> job" where
  "new_rollout allowed given = given\<lparr>jb_state := (if allowed then ''queued'' else ''succeeded'')\<rparr>"

section \<open>What is written\<close>

lemma upgrade_apply_fields:
  assumes "upgrade_apply declared job after now reason = Inr job'"
  shows "upgrade_stored (lc_state after) = Inr (jb_state job')" "jb_id job' = jb_id job"
    "jb_superseded_by job' = jb_superseded_by job" "paired (jb_wait job')"
    "wo_next_action_at (jb_wait job') =
       (if waiting_state (lc_state after) (lc_next_action_at after) (lc_lease_deadline after)
        then Some (opt_or (lc_next_action_at after) now) else None)"
  using assms by (auto simp: upgrade_apply_def dest: lifecycle_wait_paired)

lemma upgrade_apply_total:
  assumes "jb_id job \<noteq> []" "length (jb_id job) \<le> 128" "lc_state after \<noteq> S_SUPERSEDED"
  obtains job' where "upgrade_apply declared job after now reason = Inr job'"
proof -
  obtain w where w: "upgrade_stored (lc_state after) = Inr w"
    using assms(3) by (cases "lc_state after") auto
  obtain o' ch where "lifecycle_wait declared (jb_wait job) (jb_id job) Wok_AGENT_UPGRADE
      (lc_state after) now (lc_next_action_at after) (lc_reason after) None []
      (lc_recovery_deadline after) (cancel_requested after) (lc_lease_deadline after) None
      = Inr (o', ch)"
    by (rule lifecycle_wait_total [OF assms(1,2)])
  with w that show ?thesis by (auto simp: upgrade_apply_def)
qed

text \<open>The stored word is the row's, as written or as adopted.\<close>

definition upgrade_displays :: "job \<Rightarrow> lifecycle \<Rightarrow> bool" where
  "upgrade_displays job row \<longleftrightarrow>
     upgrade_stored (lc_state row) = Inr (jb_state job) \<or> lc_state row = upgrade_state (jb_state job)"

interpretation rollouts: row_store upgrade_kind_adapter "upgrade_writer declared now reason"
  upgrade_displays for declared now reason
proof
  fix b a w w'
  assume "rw_save (upgrade_writer declared now reason) b a w = Inr (w', True)"
  then show "upgrade_displays w' a"
    by (auto simp: upgrade_writer_def upgrade_displays_def dest: upgrade_apply_fields(1))
next
  fix b a w w'
  assume "rw_save (upgrade_writer declared now reason) b a w = Inr (w', False)"
  then show "w' = w" by (auto simp: upgrade_writer_def)
next
  fix w row c w' answer
  assume "upgrade_displays w row"
    "run_command upgrade_kind_adapter (upgrade_writer declared now reason) row c w = (w', answer)"
  then show "upgrade_displays w' row"
    by (auto simp: run_command_def upgrade_kind_adapter_def upgrade_writer_def
        split: command.splits)
qed

lemma upgrade_adopt_fields [simp]:
  "lc_id (upgrade_adopt job) = jb_id job"
  "lc_state (upgrade_adopt job) = upgrade_state (jb_state job)"
  "lc_fence (upgrade_adopt job) = None"
  "lc_recovery_deadline (upgrade_adopt job) = None"
  by (simp_all add: upgrade_adopt_def Let_def new_lifecycle_def)

lemma rollout_settle_displays:
  assumes "upgrade_settled sha256 declared job ev now reason = Inr (job', s)"
  shows "upgrade_displays job' (sd_row s)"
  using rollouts.settled_displays [OF assms [unfolded upgrade_settled_def]]
  by (auto simp: upgrade_displays_def)

text \<open>A report that ends the core's row ends the rollout in one step.\<close>

lemma settle_one_step:
  assumes "transition sha256 row ev (ka_view ka w) now = Inr (decide row' [])" "row' \<noteq> row"
    and "rw_save rw row row' w = Inr (w', True)"
  shows "settle sha256 ka rw row ev now MAX_STEPS_PER_ROW w =
    Inr (w', \<lparr>sd_row = row', sd_changed = 1, sd_commands = 0, sd_stale = False\<rparr>)"
  using assms by (simp add: settle_def MAX_STEPS_PER_ROW_def numeral_eq_Suc)

text \<open>A rollout that has ended as \<open>word\<close>: the row is over and its job waits for nothing.\<close>

definition rollout_ended :: "string \<Rightarrow> (job \<times> lifecycle) result \<Rightarrow> bool" where
  "rollout_ended word answer =
     (case answer of
        Inl _ \<Rightarrow> False
      | Inr (job, row) \<Rightarrow>
          terminal row \<and> jb_state job = word \<and> wo_evidence (jb_wait job) = None
          \<and> wo_next_action_at (jb_wait job) = None)"

lemma upgrade_ends:
  assumes job: "jb_id job \<noteq> []" "length (jb_id job) \<le> 128" "\<not> terminal (upgrade_adopt job)"
    and r: "reported sha256 (upgrade_adopt job) r upgrade_view now = Inr (decide row' [])"
    and fence: "rp_fence r = None" and state: "terminal row'"
    and word: "upgrade_stored (lc_state row') = Inr word"
  shows "rollout_ended word (res_map (map_prod id sd_row)
    (upgrade_settled sha256 declared job (Reported r) now reason))"
proof -
  have "lc_state row' \<noteq> S_SUPERSEDED" using word by auto
  then obtain job' where job': "upgrade_apply declared job row' now reason = Inr job'"
    by (rule upgrade_apply_total [OF job(1,2)])
  have "transition sha256 (upgrade_adopt job) (Reported r) upgrade_view now = Inr (decide row' [])"
    using job(3) r fence
    by (simp add: transition_def expired_def dispatch_def upgrade_view_def)
  moreover have "row' \<noteq> upgrade_adopt job" using job(3) state(1) by auto
  ultimately have settled: "upgrade_settled sha256 declared job (Reported r) now reason =
      Inr (job', \<lparr>sd_row = row', sd_changed = 1, sd_commands = 0, sd_stale = False\<rparr>)"
    unfolding upgrade_settled_def using job'
    by (intro settle_one_step) (simp_all add: upgrade_kind_adapter_def upgrade_writer_def)
  note f = upgrade_apply_fields [OF job']
  have "\<not> waiting_state (lc_state row') (lc_next_action_at row') (lc_lease_deadline row')"
    using state(1) by (auto simp: terminal_def terminal_state_iff waiting_state_def)
  with f(5) have none: "wo_next_action_at (jb_wait job') = None" by simp
  with f(4) have "wo_evidence (jb_wait job') = None"
    by (auto simp: paired_def split: option.splits stored_evidence.splits)
  with settled f(1) none word state show ?thesis by (simp add: rollout_ended_def)
qed

lemma upgrade_reports:
  assumes "jb_id job \<noteq> []" "length (jb_id job) \<le> 128" "\<not> terminal (upgrade_adopt job)"
    and "\<exists>effect. reported sha256 (upgrade_adopt job) r upgrade_view now =
           Inr (end_row (upgrade_adopt job) state effect r)"
    and "rp_fence r = None" "terminal_state state" "upgrade_stored state = Inr word"
  shows "rollout_ended word (res_map (map_prod id sd_row)
    (upgrade_settled sha256 declared job (Reported r) now reason))"
proof -
  from assms(4) obtain row' where
    "reported sha256 (upgrade_adopt job) r upgrade_view now = Inr (decide row' [])"
    "lc_state row' = state"
    by (auto simp: end_row_def)
  with assms show ?thesis by (intro upgrade_ends) (auto simp: terminal_def)
qed

text \<open>
  A live rollout ends as its orders report, at once: succeeding, failing and cancelling it
  each end the row and store exactly that word, with nothing left to wait for, whether or not a
  newer request had superseded it.
\<close>

lemma rollout_ends_as_reported:
  assumes "jb_id job \<noteq> []" "length (jb_id job) \<le> 128" "\<not> terminal (upgrade_adopt job)"
  shows "rollout_ended ''succeeded'' (upgrade_succeed sha256 declared job now reason) \<and>
    rollout_ended ''failed'' (upgrade_fail sha256 declared job now why) \<and>
    rollout_ended ''cancelled'' (upgrade_cancelled sha256 declared job now why)"
  unfolding upgrade_succeed_def upgrade_fail_def upgrade_cancelled_def
  by (rule conjI [OF upgrade_reports [OF assms, where state = S_SUCCEEDED]
        conjI [OF upgrade_reports [OF assms, where state = S_FAILED]
          upgrade_reports [OF assms, where state = S_CANCELLED]]])
    (auto simp: reported_def plain_report_def failed_report_retryable is_definite_def
        disposition_of_def)

section \<open>Opening and projecting\<close>

text \<open>
  A projection leaves an ended rollout as it is and writes a live one as queued, a reopened rollout
  is live again, and a new one has ended exactly when there is nothing to upgrade.
\<close>

lemma project_requeues_live_rollouts:
  assumes "upgrade_project declared job now reason = Inr (job', row)"
  shows "if terminal (upgrade_adopt job) then job' = job else upgrade_state (jb_state job') = S_QUEUED"
proof (cases "terminal (upgrade_adopt job)")
  case False
  with assms have "upgrade_apply declared job ((upgrade_adopt job)\<lparr>lc_state := S_QUEUED\<rparr>) now reason = Inr job'"
    by (simp add: upgrade_project_def Let_def)
  from upgrade_apply_fields(1) [OF this] have "jb_state job' = ''queued''" by simp
  with False show ?thesis by (simp add: upgrade_state_def)
qed (use assms in \<open>simp add: upgrade_project_def\<close>)

lemma reopened_rollout_is_live:
  assumes "upgrade_reopen declared job now reason = Inr (job', row)"
  shows "\<not> terminal (upgrade_adopt job') \<and> jb_id job' = jb_id job"
  using assms upgrade_apply_fields(1,2)
  by (fastforce simp: upgrade_reopen_def Let_def upgrade_state_def terminal_def)

lemma new_rollout_ends_without_work: "terminal (upgrade_adopt (new_rollout allowed job)) \<longleftrightarrow> \<not> allowed"
  by (simp add: terminal_def upgrade_state_def new_rollout_def)

end
