(* ===== verification/Evidence.thy ===== *)
theory Evidence
  imports Lifecycle_Types
begin

text \<open>
  Damaged bookkeeping (\<^verbatim>\<open>lifecycle/evidence.py\<close>): a stored document that does not hold is rebuilt
  from evidence or retired as unknown, and what is retired or kept is logged, loudly once per
  process. The module's \<^verbatim>\<open>_REPORTED\<close> set is the state the functions pass on, a list of its
  elements; the log is the list of lines written. \<open>redact\<close> stands for \<^verbatim>\<open>redact_text\<close>.

  A \<^verbatim>\<open>read\<close> or \<^verbatim>\<open>rebuild\<close> callable is called at most once, so it is what that call answers: a
  value, for a read also \<open>Damaged\<close>, or an exception with the names of its classes, most special
  first.
\<close>

section \<open>Values\<close>

datatype bookkeeping_reason =
  PERSISTED_STATE_DAMAGED | EVIDENCE_MISMATCH | EVIDENCE_UNAVAILABLE | ROW_INCOMPLETE

primrec bookkeeping_reason_value :: "bookkeeping_reason \<Rightarrow> string" where
  "bookkeeping_reason_value PERSISTED_STATE_DAMAGED = ''persisted-state-damaged''"
| "bookkeeping_reason_value EVIDENCE_MISMATCH = ''evidence-mismatch''"
| "bookkeeping_reason_value EVIDENCE_UNAVAILABLE = ''evidence-unavailable''"
| "bookkeeping_reason_value ROW_INCOMPLETE = ''row-incomplete''"

record residue =
  rs_kind :: string
  rs_subject :: string
  rs_reason :: bookkeeping_reason
  rs_note :: string

definition unknown_observed ::
  "bookkeeping_reason \<Rightarrow> string \<Rightarrow> lifecycle_effect \<times> string option" where
  "unknown_observed reason detail =
     (E_UNKNOWN, Some (if detail \<noteq> [] then bookkeeping_reason_value reason @ '':'' @ detail
                       else bookkeeping_reason_value reason))"

definition residue_effect :: "residue \<Rightarrow> lifecycle_effect" where
  "residue_effect _ = E_UNKNOWN"

definition residue_observed :: "residue \<Rightarrow> lifecycle_effect \<times> string option" where
  "residue_observed r = unknown_observed (rs_reason r) (rs_kind r @ '':'' @ rs_subject r)"

record raised =
  ex_classes :: "string list"
  ex_message :: string

datatype 'v read_answer = Read 'v | Damaged string | Read_raised raised
datatype 'v rebuild_answer = Rebuilt "'v option" | Rebuild_raised raised
datatype 'v bookkeeping = Held 'v | Residue residue | Defect raised

definition damaged_document :: "raised \<Rightarrow> bool" where
  "damaged_document e \<longleftrightarrow>
     list_ex (\<lambda>c. c \<in> set (ex_classes e)) [''TypeError'', ''ValueError'', ''KeyError'']"

definition show_raised :: "raised \<Rightarrow> string" where
  "show_raised e = (case ex_classes e of [] \<Rightarrow> [] | c # _ \<Rightarrow> c) @ '': '' @ ex_message e"

section \<open>The log\<close>

datatype log_level = Log_DEBUG | Log_INFO | Log_WARNING

record log_line =
  ll_level :: log_level
  ll_text :: string
  ll_extra :: "(string \<times> string option) list"

type_synonym report_key = "string \<times> string \<times> string"

record book =
  bk_reported :: "report_key list"
  bk_log :: "log_line list"

definition REPORTED_LIMIT :: nat where
  "REPORTED_LIMIT = 4096"

text \<open>The lines both writers share: whether the key is new, and the set with it while it has room.\<close>

definition first_report :: "book \<Rightarrow> report_key \<Rightarrow> bool" where
  "first_report b key \<longleftrightarrow> key \<notin> set (bk_reported b)"

definition remember :: "report_key \<Rightarrow> book \<Rightarrow> book" where
  "remember key b =
     (if first_report b key \<and> length (bk_reported b) < REPORTED_LIMIT
      then b\<lparr>bk_reported := key # bk_reported b\<rparr> else b)"

definition log_write :: "log_line \<Rightarrow> book \<Rightarrow> book" where
  "log_write line b = b\<lparr>bk_log := bk_log b @ [line]\<rparr>"

section \<open>Operations\<close>

definition retire_as_unknown ::
  "(string \<Rightarrow> string) \<Rightarrow> string \<Rightarrow> string \<Rightarrow> bookkeeping_reason \<Rightarrow> string \<Rightarrow> book \<Rightarrow> residue \<times> book"
where
  "retire_as_unknown redact kind subject reason note b =
     (let key = (kind, subject, bookkeeping_reason_value reason);
          line = \<lparr>ll_level = (if first_report b key then Log_WARNING else Log_DEBUG),
            ll_text = ''bookkeeping retired as unknown: '' @ redact kind @ '':'' @ redact subject
              @ '' ('' @ bookkeeping_reason_value reason @ ''): '' @ take 200 (redact note),
            ll_extra = [(''residue_kind'', Some kind), (''residue_subject'', Some subject),
              (''residue_reason'', Some (bookkeeping_reason_value reason)),
              (''residue_note'', Some (take 200 note))]\<rparr>
      in (\<lparr>rs_kind = kind, rs_subject = subject, rs_reason = reason, rs_note = note\<rparr>,
          log_write line (remember key b)))"

text \<open>\<^verbatim>\<open>f"kept:{later}"\<close> prints a missing decision as \<^verbatim>\<open>None\<close>.\<close>

definition kept_word :: "string option \<Rightarrow> string" where
  "kept_word later = ''kept:'' @ opt_or later ''None''"

definition keep_recorded_outcome ::
  "string \<Rightarrow> string \<Rightarrow> string \<Rightarrow> string option \<Rightarrow> book \<Rightarrow> book" where
  "keep_recorded_outcome kind subject recorded later b =
     (let key = (kind, subject, kept_word later);
          line = \<lparr>ll_level = (if first_report b key then Log_INFO else Log_DEBUG),
            ll_text = ''recorded outcome kept'',
            ll_extra = [(''outcome_kind'', Some kind), (''outcome_subject'', Some subject),
              (''outcome_recorded'', Some recorded),
              (''outcome_later'', map_option (take 200) later)]\<rparr>
      in log_write line (remember key b))"

definition rebuilt_line :: "string \<Rightarrow> string \<Rightarrow> log_line" where
  "rebuilt_line kind subject =
     \<lparr>ll_level = Log_INFO, ll_text = ''bookkeeping rebuilt from evidence'',
      ll_extra = [(''residue_kind'', Some kind), (''residue_subject'', Some subject)]\<rparr>"

definition rebuild_or_retire ::
  "(string \<Rightarrow> string) \<Rightarrow> string \<Rightarrow> string \<Rightarrow> 'v rebuild_answer option \<Rightarrow> bookkeeping_reason
     \<Rightarrow> string \<Rightarrow> book \<Rightarrow> 'v bookkeeping \<times> book" where
  "rebuild_or_retire redact kind subject rebuild reason note b =
     (let retired = (\<lambda>why. map_prod Residue id (retire_as_unknown redact kind subject reason why b))
      in case rebuild of
           None \<Rightarrow> retired note
         | Some (Rebuilt None) \<Rightarrow> retired note
         | Some (Rebuilt (Some v)) \<Rightarrow> (Held v, log_write (rebuilt_line kind subject) b)
         | Some (Rebuild_raised e) \<Rightarrow>
             (if damaged_document e then retired (note @ ''; rebuild: '' @ show_raised e)
              else (Defect e, b)))"

definition read_or_rebuild ::
  "(string \<Rightarrow> string) \<Rightarrow> string \<Rightarrow> string \<Rightarrow> 'v read_answer \<Rightarrow> 'v rebuild_answer option
     \<Rightarrow> bookkeeping_reason \<Rightarrow> book \<Rightarrow> 'v bookkeeping \<times> book" where
  "read_or_rebuild redact kind subject read rebuild reason b =
     (case read of
        Read v \<Rightarrow> (Held v, b)
      | Damaged note \<Rightarrow> rebuild_or_retire redact kind subject rebuild reason note b
      | Read_raised e \<Rightarrow>
          (if damaged_document e
           then rebuild_or_retire redact kind subject rebuild reason (show_raised e) b
           else (Defect e, b)))"

section \<open>The reported set\<close>

definition book_ok :: "book \<Rightarrow> bool" where
  "book_ok b \<longleftrightarrow> distinct (bk_reported b) \<and> length (bk_reported b) \<le> REPORTED_LIMIT"

datatype book_call =
  Retire string string bookkeeping_reason string | Keep string string string "string option"

primrec book_key :: "book_call \<Rightarrow> report_key" where
  "book_key (Retire kind subject reason note) = (kind, subject, bookkeeping_reason_value reason)"
| "book_key (Keep kind subject recorded later) = (kind, subject, kept_word later)"

primrec book_step :: "(string \<Rightarrow> string) \<Rightarrow> book_call \<Rightarrow> book \<Rightarrow> book" where
  "book_step redact (Retire kind subject reason note) b =
     snd (retire_as_unknown redact kind subject reason note b)"
| "book_step redact (Keep kind subject recorded later) b =
     keep_recorded_outcome kind subject recorded later b"

definition loud :: "book \<Rightarrow> nat" where
  "loud b = length (filter (\<lambda>line. ll_level line \<noteq> Log_DEBUG) (bk_log b))"

lemma book_step_shape:
  "bk_reported (book_step redact c b) = bk_reported (remember (book_key c) b)"
  "loud (book_step redact c b) = loud b + (if first_report b (book_key c) then 1 else 0)"
  by (cases c; simp add: retire_as_unknown_def keep_recorded_outcome_def log_write_def Let_def
      loud_def remember_def)+

lemma remember_ok: "book_ok b \<Longrightarrow> book_ok (remember key b)"
  by (auto simp: book_ok_def remember_def first_report_def)

lemma book_step_ok: "book_ok b \<Longrightarrow> book_ok (book_step redact c b)"
  using remember_ok [of b "book_key c"] by (simp add: book_ok_def book_step_shape)

lemma remember_room:
  assumes "book_ok b" "card (insert key (set (bk_reported b))) \<le> REPORTED_LIMIT"
  shows "set (bk_reported (remember key b)) = insert key (set (bk_reported b))"
proof (cases "first_report b key")
  case True
  then have "card (insert key (set (bk_reported b))) = Suc (length (bk_reported b))"
    using assms(1) by (simp add: first_report_def book_ok_def distinct_card)
  with assms(2) True show ?thesis by (simp add: remember_def)
next
  case False
  then show ?thesis by (auto simp: remember_def first_report_def)
qed

lemma card_new_key:
  assumes "finite K"
  shows "card (insert k K - S) = (if k \<notin> S then 1 else 0) + card (K - insert k S)"
proof (cases "k \<in> S")
  case True
  then show ?thesis by (simp add: insert_absorb)
next
  case False
  then have "insert k K - S = insert k (K - insert k S)" by auto
  with False assms show ?thesis by simp
qed

text \<open>
  (C24) While the keys fit into the limit of 4096, whatever the order and the number of the passes
  that retire damaged rows and keep recorded outcomes, the log holds exactly one line above debug
  level for each new key.
\<close>

theorem residue_is_reported_once:
  assumes "book_ok b" "card (set (bk_reported b) \<union> book_key ` set calls) \<le> REPORTED_LIMIT"
  shows "loud (fold (book_step redact) calls b) =
    loud b + card (book_key ` set calls - set (bk_reported b))"
  using assms
proof (induction calls arbitrary: b)
  case Nil
  then show ?case by simp
next
  case (Cons c calls)
  let ?k = "book_key c" and ?b = "book_step redact c b" and ?K = "book_key ` set calls"
  have "card (insert ?k (set (bk_reported b))) \<le> card (set (bk_reported b) \<union> book_key ` set (c # calls))"
    by (rule card_mono) auto
  with Cons.prems have set: "set (bk_reported ?b) = insert ?k (set (bk_reported b))"
    by (simp add: book_step_shape remember_room)
  have "loud (fold (book_step redact) calls ?b) = loud ?b + card (?K - set (bk_reported ?b))"
    using Cons.prems by (intro Cons.IH book_step_ok) (simp_all add: set)
  then show ?case
    by (simp add: set [unfolded book_step_shape] book_step_shape card_new_key first_report_def)
qed

theorem residue_is_reported_once_witness:
  "loud (fold (book_step id)
     [Retire ''run'' ''r1'' ROW_INCOMPLETE ''a'', Keep ''run'' ''r1'' ''failed'' None,
      Retire ''run'' ''r1'' ROW_INCOMPLETE ''b''] \<lparr>bk_reported = [], bk_log = []\<rparr>) = 2"
  using residue_is_reported_once [of "\<lparr>bk_reported = [], bk_log = []\<rparr>"
    "[Retire ''run'' ''r1'' ROW_INCOMPLETE ''a'', Keep ''run'' ''r1'' ''failed'' None,
      Retire ''run'' ''r1'' ROW_INCOMPLETE ''b'']" id]
  by (simp add: book_ok_def REPORTED_LIMIT_def kept_word_def loud_def insert_commute
      card_insert_if)

text \<open>
  Once the set is full a key it does not hold is never remembered: a damaged row that is read
  again on every pass of its worker is logged above debug level on every one of them.
\<close>

lemma full_book_reports_every_pass:
  assumes "length (bk_reported b) = REPORTED_LIMIT" "first_report b (book_key call)"
  shows "loud (fold (book_step redact) (replicate n call) b) = loud b + n"
proof -
  have "bk_reported (fold (book_step redact) (replicate n call) b) = bk_reported b \<and>
    loud (fold (book_step redact) (replicate n call) b) = loud b + n"
    using assms
    by (induction n arbitrary: b) (simp_all add: book_step_shape remember_def first_report_def)
  then show ?thesis ..
qed

section \<open>Reading\<close>

text \<open>
  Damaged bookkeeping never stops its caller: a stored value that reads is returned as it is,
  one that does not is rebuilt when the evidence exists and otherwise becomes a residue whose
  effect is unknown; an exception leaves only when the read or the rebuild raised one that is not
  a damaged document.
\<close>

lemma damaged_bookkeeping_is_a_value:
  "case fst (read_or_rebuild redact kind subject read rebuild reason b) of
     Held v \<Rightarrow> read = Read v \<or> (\<forall>w. read \<noteq> Read w) \<and> rebuild = Some (Rebuilt (Some v))
   | Residue r \<Rightarrow> (\<forall>w. read \<noteq> Read w) \<and> (\<forall>w. rebuild \<noteq> Some (Rebuilt (Some w)))
       \<and> rs_kind r = kind \<and> rs_subject r = subject \<and> rs_reason r = reason
       \<and> fst (residue_observed r) = E_UNKNOWN
   | Defect e \<Rightarrow> \<not> damaged_document e \<and> (read = Read_raised e \<or> rebuild = Some (Rebuild_raised e))"
  by (auto simp: read_or_rebuild_def rebuild_or_retire_def retire_as_unknown_def Let_def
      residue_observed_def unknown_observed_def split: read_answer.splits option.splits
      rebuild_answer.splits)

end
