(* ===== verification/State_Machines.thy ===== *)
theory State_Machines
  imports Failure_Classification
begin

text \<open>
  The closed state words of the stored records that are conditions of a thing
  (\<^verbatim>\<open>agent_protocol/state_machines.py\<close>): one datatype per machine with its words, the adoption of
  a stored word on its normalized spelling, and the CHECK expression of a column. The table
  \<^verbatim>\<open>MACHINE_ALIASES\<close> of retired spellings is empty in the source; the definitions take it as an
  argument and the machines use \<open>no_aliases\<close>.
\<close>

section \<open>The machines\<close>

datatype installation_state = Inst_PLANNED | Inst_INSTALLING | Inst_INSTALLED | Inst_PARTIAL |
  Inst_FAILED | Inst_UNINSTALLED

primrec installation_state_value :: "installation_state \<Rightarrow> string" where
  "installation_state_value Inst_PLANNED = ''planned''"
| "installation_state_value Inst_INSTALLING = ''installing''"
| "installation_state_value Inst_INSTALLED = ''installed''"
| "installation_state_value Inst_PARTIAL = ''partial''"
| "installation_state_value Inst_FAILED = ''failed''"
| "installation_state_value Inst_UNINSTALLED = ''uninstalled''"

definition installation_state_members :: "installation_state list" where
  "installation_state_members = [Inst_PLANNED, Inst_INSTALLING, Inst_INSTALLED, Inst_PARTIAL,
     Inst_FAILED, Inst_UNINSTALLED]"

datatype installation_node_state = InstNode_PLANNED | InstNode_INSTALLED | InstNode_FAILED |
  InstNode_UNINSTALLED

primrec installation_node_state_value :: "installation_node_state \<Rightarrow> string" where
  "installation_node_state_value InstNode_PLANNED = ''planned''"
| "installation_node_state_value InstNode_INSTALLED = ''installed''"
| "installation_node_state_value InstNode_FAILED = ''failed''"
| "installation_node_state_value InstNode_UNINSTALLED = ''uninstalled''"

definition installation_node_state_members :: "installation_node_state list" where
  "installation_node_state_members = [InstNode_PLANNED, InstNode_INSTALLED, InstNode_FAILED,
     InstNode_UNINSTALLED]"

datatype distribution_assignment_state = Dist_ACTIVE | Dist_REVOKED | Dist_EXPIRED

primrec distribution_assignment_state_value :: "distribution_assignment_state \<Rightarrow> string" where
  "distribution_assignment_state_value Dist_ACTIVE = ''active''"
| "distribution_assignment_state_value Dist_REVOKED = ''revoked''"
| "distribution_assignment_state_value Dist_EXPIRED = ''expired''"

definition distribution_assignment_state_members :: "distribution_assignment_state list" where
  "distribution_assignment_state_members = [Dist_ACTIVE, Dist_REVOKED, Dist_EXPIRED]"

datatype run_state = Run_PLANNED | Run_STARTING | Run_RUNNING | Run_STOPPING | Run_STOPPED |
  Run_FAILED | Run_LOST

primrec run_state_value :: "run_state \<Rightarrow> string" where
  "run_state_value Run_PLANNED = ''planned''"
| "run_state_value Run_STARTING = ''starting''"
| "run_state_value Run_RUNNING = ''running''"
| "run_state_value Run_STOPPING = ''stopping''"
| "run_state_value Run_STOPPED = ''stopped''"
| "run_state_value Run_FAILED = ''failed''"
| "run_state_value Run_LOST = ''lost''"

definition run_state_members :: "run_state list" where
  "run_state_members = [Run_PLANNED, Run_STARTING, Run_RUNNING, Run_STOPPING, Run_STOPPED,
     Run_FAILED, Run_LOST]"

datatype route_state = Route_WITHDRAWN | Route_PENDING | Route_PUBLISHED | Route_FAILED

primrec route_state_value :: "route_state \<Rightarrow> string" where
  "route_state_value Route_WITHDRAWN = ''withdrawn''"
| "route_state_value Route_PENDING = ''pending''"
| "route_state_value Route_PUBLISHED = ''published''"
| "route_state_value Route_FAILED = ''failed''"

definition route_state_members :: "route_state list" where
  "route_state_members = [Route_WITHDRAWN, Route_PENDING, Route_PUBLISHED, Route_FAILED]"

datatype route_publication_state = Pub_WITHDRAWAL_PENDING | Pub_ROUTES_WITHDRAWN |
  Pub_PUBLICATION_PENDING | Pub_COMPLETED | Pub_FAILED

primrec route_publication_state_value :: "route_publication_state \<Rightarrow> string" where
  "route_publication_state_value Pub_WITHDRAWAL_PENDING = ''withdrawal-pending''"
| "route_publication_state_value Pub_ROUTES_WITHDRAWN = ''routes-withdrawn''"
| "route_publication_state_value Pub_PUBLICATION_PENDING = ''publication-pending''"
| "route_publication_state_value Pub_COMPLETED = ''completed''"
| "route_publication_state_value Pub_FAILED = ''failed''"

definition route_publication_state_members :: "route_publication_state list" where
  "route_publication_state_members = [Pub_WITHDRAWAL_PENDING, Pub_ROUTES_WITHDRAWN,
     Pub_PUBLICATION_PENDING, Pub_COMPLETED, Pub_FAILED]"

datatype certificate_state = Cert_VALID | Cert_MISSING | Cert_NOT_YET_VALID | Cert_EXPIRED |
  Cert_REVOKED | Cert_INACTIVE

primrec certificate_state_value :: "certificate_state \<Rightarrow> string" where
  "certificate_state_value Cert_VALID = ''valid''"
| "certificate_state_value Cert_MISSING = ''missing''"
| "certificate_state_value Cert_NOT_YET_VALID = ''not-yet-valid''"
| "certificate_state_value Cert_EXPIRED = ''expired''"
| "certificate_state_value Cert_REVOKED = ''revoked''"
| "certificate_state_value Cert_INACTIVE = ''inactive''"

definition certificate_state_members :: "certificate_state list" where
  "certificate_state_members = [Cert_VALID, Cert_MISSING, Cert_NOT_YET_VALID, Cert_EXPIRED,
     Cert_REVOKED, Cert_INACTIVE]"

datatype enrollment_grant_state = Grant_PENDING | Grant_EXPIRED | Grant_CONSUMED | Grant_REVOKED

primrec enrollment_grant_state_value :: "enrollment_grant_state \<Rightarrow> string" where
  "enrollment_grant_state_value Grant_PENDING = ''pending''"
| "enrollment_grant_state_value Grant_EXPIRED = ''expired''"
| "enrollment_grant_state_value Grant_CONSUMED = ''consumed''"
| "enrollment_grant_state_value Grant_REVOKED = ''revoked''"

definition enrollment_grant_state_members :: "enrollment_grant_state list" where
  "enrollment_grant_state_members = [Grant_PENDING, Grant_EXPIRED, Grant_CONSUMED, Grant_REVOKED]"

datatype model_file_state = File_PARTIAL | File_VERIFIED | File_MISSING | File_CORRUPT

primrec model_file_state_value :: "model_file_state \<Rightarrow> string" where
  "model_file_state_value File_PARTIAL = ''partial''"
| "model_file_state_value File_VERIFIED = ''verified''"
| "model_file_state_value File_MISSING = ''missing''"
| "model_file_state_value File_CORRUPT = ''corrupt''"

definition model_file_state_members :: "model_file_state list" where
  "model_file_state_members = [File_PARTIAL, File_VERIFIED, File_MISSING, File_CORRUPT]"

datatype catalog_sync_state = Sync_SYNCING | Sync_CURRENT | Sync_PARTIAL | Sync_FAILED

primrec catalog_sync_state_value :: "catalog_sync_state \<Rightarrow> string" where
  "catalog_sync_state_value Sync_SYNCING = ''syncing''"
| "catalog_sync_state_value Sync_CURRENT = ''current''"
| "catalog_sync_state_value Sync_PARTIAL = ''partial''"
| "catalog_sync_state_value Sync_FAILED = ''failed''"

definition catalog_sync_state_members :: "catalog_sync_state list" where
  "catalog_sync_state_members = [Sync_SYNCING, Sync_CURRENT, Sync_PARTIAL, Sync_FAILED]"

datatype reservation_state = Resv_ACTIVE | Resv_PROMISED | Resv_RELEASED | Resv_EXPIRED

primrec reservation_state_value :: "reservation_state \<Rightarrow> string" where
  "reservation_state_value Resv_ACTIVE = ''active''"
| "reservation_state_value Resv_PROMISED = ''promised''"
| "reservation_state_value Resv_RELEASED = ''released''"
| "reservation_state_value Resv_EXPIRED = ''expired''"

definition reservation_state_members :: "reservation_state list" where
  "reservation_state_members = [Resv_ACTIVE, Resv_PROMISED, Resv_RELEASED, Resv_EXPIRED]"

datatype gateway_route_state = Gate_PUBLISHED | Gate_MAINTENANCE | Gate_UNAVAILABLE

primrec gateway_route_state_value :: "gateway_route_state \<Rightarrow> string" where
  "gateway_route_state_value Gate_PUBLISHED = ''published''"
| "gateway_route_state_value Gate_MAINTENANCE = ''maintenance''"
| "gateway_route_state_value Gate_UNAVAILABLE = ''unavailable''"

definition gateway_route_state_members :: "gateway_route_state list" where
  "gateway_route_state_members = [Gate_PUBLISHED, Gate_MAINTENANCE, Gate_UNAVAILABLE]"

datatype desired_assignment_state = Want_INSTALLED | Want_RUNNING

primrec desired_assignment_state_value :: "desired_assignment_state \<Rightarrow> string" where
  "desired_assignment_state_value Want_INSTALLED = ''installed''"
| "desired_assignment_state_value Want_RUNNING = ''running''"

definition desired_assignment_state_members :: "desired_assignment_state list" where
  "desired_assignment_state_members = [Want_INSTALLED, Want_RUNNING]"

datatype endpoint_state = Endp_INSTALLED_ONLY | Endp_NOT_PUBLISHED_YET | Endp_PUBLISHED |
  Endp_EXPIRED | Endp_WITHDRAWN | Endp_UNAVAILABLE

primrec endpoint_state_value :: "endpoint_state \<Rightarrow> string" where
  "endpoint_state_value Endp_INSTALLED_ONLY = ''installed-only''"
| "endpoint_state_value Endp_NOT_PUBLISHED_YET = ''not-published-yet''"
| "endpoint_state_value Endp_PUBLISHED = ''published''"
| "endpoint_state_value Endp_EXPIRED = ''expired''"
| "endpoint_state_value Endp_WITHDRAWN = ''withdrawn''"
| "endpoint_state_value Endp_UNAVAILABLE = ''unavailable''"

definition endpoint_state_members :: "endpoint_state list" where
  "endpoint_state_members = [Endp_INSTALLED_ONLY, Endp_NOT_PUBLISHED_YET, Endp_PUBLISHED,
     Endp_EXPIRED, Endp_WITHDRAWN, Endp_UNAVAILABLE]"

datatype observed_assignment_state = Seen_NOT_PLACED | Seen_PLACED | Seen_INSTALLING |
  Seen_INSTALLED | Seen_RUNNING | Seen_DEGRADED

primrec observed_assignment_state_value :: "observed_assignment_state \<Rightarrow> string" where
  "observed_assignment_state_value Seen_NOT_PLACED = ''not-placed''"
| "observed_assignment_state_value Seen_PLACED = ''placed''"
| "observed_assignment_state_value Seen_INSTALLING = ''installing''"
| "observed_assignment_state_value Seen_INSTALLED = ''installed''"
| "observed_assignment_state_value Seen_RUNNING = ''running''"
| "observed_assignment_state_value Seen_DEGRADED = ''degraded''"

definition observed_assignment_state_members :: "observed_assignment_state list" where
  "observed_assignment_state_members = [Seen_NOT_PLACED, Seen_PLACED, Seen_INSTALLING,
     Seen_INSTALLED, Seen_RUNNING, Seen_DEGRADED]"

datatype asset_availability = Asset_VERIFIED | Asset_PARTIAL | Asset_MISSING | Asset_UNKNOWN

primrec asset_availability_value :: "asset_availability \<Rightarrow> string" where
  "asset_availability_value Asset_VERIFIED = ''verified''"
| "asset_availability_value Asset_PARTIAL = ''partial''"
| "asset_availability_value Asset_MISSING = ''missing''"
| "asset_availability_value Asset_UNKNOWN = ''unknown''"

definition asset_availability_members :: "asset_availability list" where
  "asset_availability_members = [Asset_VERIFIED, Asset_PARTIAL, Asset_MISSING, Asset_UNKNOWN]"

datatype placement_install_state = PlInst_COMPLETE | PlInst_PARTIAL | PlInst_NOT_PRESENT |
  PlInst_UNKNOWN

primrec placement_install_state_value :: "placement_install_state \<Rightarrow> string" where
  "placement_install_state_value PlInst_COMPLETE = ''complete''"
| "placement_install_state_value PlInst_PARTIAL = ''partial''"
| "placement_install_state_value PlInst_NOT_PRESENT = ''not_present''"
| "placement_install_state_value PlInst_UNKNOWN = ''unknown''"

definition placement_install_state_members :: "placement_install_state list" where
  "placement_install_state_members = [PlInst_COMPLETE, PlInst_PARTIAL, PlInst_NOT_PRESENT,
     PlInst_UNKNOWN]"

datatype placement_load_state = PlLoad_LOADED | PlLoad_NOT_LOADED | PlLoad_UNKNOWN

primrec placement_load_state_value :: "placement_load_state \<Rightarrow> string" where
  "placement_load_state_value PlLoad_LOADED = ''loaded''"
| "placement_load_state_value PlLoad_NOT_LOADED = ''not_loaded''"
| "placement_load_state_value PlLoad_UNKNOWN = ''unknown''"

definition placement_load_state_members :: "placement_load_state list" where
  "placement_load_state_members = [PlLoad_LOADED, PlLoad_NOT_LOADED, PlLoad_UNKNOWN]"

text \<open>\<^verbatim>\<open>MACHINES\<close>, by name, with the words of each.\<close>

definition MACHINES :: "(string \<times> string list) list" where
  "MACHINES =
     [(''installation'', map installation_state_value installation_state_members),
      (''installation-node'', map installation_node_state_value installation_node_state_members),
      (''distribution-assignment'', map distribution_assignment_state_value distribution_assignment_state_members),
      (''run'', map run_state_value run_state_members),
      (''route'', map route_state_value route_state_members),
      (''route-publication'', map route_publication_state_value route_publication_state_members),
      (''certificate'', map certificate_state_value certificate_state_members),
      (''enrollment-grant'', map enrollment_grant_state_value enrollment_grant_state_members),
      (''model-file'', map model_file_state_value model_file_state_members),
      (''catalog-sync'', map catalog_sync_state_value catalog_sync_state_members),
      (''reservation'', map reservation_state_value reservation_state_members),
      (''gateway-route'', map gateway_route_state_value gateway_route_state_members),
      (''desired-assignment'', map desired_assignment_state_value desired_assignment_state_members),
      (''endpoint'', map endpoint_state_value endpoint_state_members),
      (''observed-assignment'', map observed_assignment_state_value observed_assignment_state_members),
      (''asset-availability'', map asset_availability_value asset_availability_members),
      (''placement-install'', map placement_install_state_value placement_install_state_members),
      (''placement-load'', map placement_load_state_value placement_load_state_members)]"

section \<open>Adopting a stored word\<close>

text \<open>\<^verbatim>\<open>_normalized\<close> on ASCII words.\<close>

definition machine_spelling :: "string \<Rightarrow> string" where
  "machine_spelling word =
     map (\<lambda>c. if c = CHR ''_'' then CHR ''-'' else c) (map lower_char (strip word))"

text \<open>What a reader finds: a member already, a string, or anything else.\<close>

datatype 'e stored = Member 'e | Word string | Not_text

definition no_aliases :: "(string \<times> 'e) list" where
  "no_aliases = []"

definition adopt_machine_state ::
  "'e list \<Rightarrow> ('e \<Rightarrow> string) \<Rightarrow> (string \<times> 'e) list \<Rightarrow> 'e stored \<Rightarrow> 'e option" where
  "adopt_machine_state members val aliases stored =
     (case stored of
        Member e \<Rightarrow> Some e
      | Not_text \<Rightarrow> None
      | Word w \<Rightarrow>
          (let spelled = machine_spelling w
           in case find (\<lambda>e. machine_spelling (val e) = spelled) members of
                Some e \<Rightarrow> Some e
              | None \<Rightarrow> (case map_of aliases w of
                          Some e \<Rightarrow> Some e
                        | None \<Rightarrow> map_of aliases spelled)))"

definition machine_adopter ::
  "'e list \<Rightarrow> ('e \<Rightarrow> string) \<Rightarrow> (string \<times> 'e) list \<Rightarrow> 'e stored \<Rightarrow> 'e stored" where
  "machine_adopter members val aliases stored =
     (case adopt_machine_state members val aliases stored of Some e \<Rightarrow> Member e | None \<Rightarrow> stored)"

definition machine_words ::
  "'e list \<Rightarrow> ('e \<Rightarrow> string) \<Rightarrow> (string \<times> 'e) list \<Rightarrow> 'e list option \<Rightarrow> string list" where
  "machine_words members val aliases wanted =
     (let wants = (\<lambda>e. e \<in> set (opt_or wanted members))
      in map val (filter wants members) @ map fst (filter (\<lambda>(alias, e). wants e) aliases))"

definition machine_check ::
  "'e list \<Rightarrow> ('e \<Rightarrow> string) \<Rightarrow> (string \<times> 'e) list \<Rightarrow> string \<Rightarrow> 'e list option \<Rightarrow> string" where
  "machine_check members val aliases column wanted =
     column @ '' IN ('' @
     join '','' (map (\<lambda>w. [CHR 0x27] @ w @ [CHR 0x27]) (machine_words members val aliases wanted))
     @ '')''"

section \<open>What a machine promises\<close>

text \<open>A word is adopted exactly into the member whose word has its spelling; members pass.\<close>

definition reads_back :: "'e list \<Rightarrow> ('e \<Rightarrow> string) \<Rightarrow> bool" where
  "reads_back members val \<longleftrightarrow>
     (\<forall>e. adopt_machine_state members val no_aliases (Member e) = Some e \<and>
          adopt_machine_state members val no_aliases (Word (val e)) = Some e) \<and>
     (\<forall>w e. adopt_machine_state members val no_aliases (Word w) = Some e \<longleftrightarrow>
            machine_spelling w = machine_spelling (val e)) \<and>
     (\<forall>w. w \<in> set (machine_words members val no_aliases None) \<longleftrightarrow> (\<exists>e. w = val e))"

locale wire_machine =
  fixes members :: "'e list" and val :: "'e \<Rightarrow> string"
  assumes all: "set members = UNIV"
    and spelled: "distinct (map (\<lambda>e. machine_spelling (val e)) members)"
begin

lemma spelling_inj: "machine_spelling (val e) = machine_spelling (val f) \<longleftrightarrow> e = f"
  using spelled by (auto simp: all distinct_map inj_on_def)

lemma adopts:
  "adopt_machine_state members val no_aliases (Word w) = Some e \<longleftrightarrow>
     machine_spelling w = machine_spelling (val e)"
proof -
  have "find (\<lambda>e. machine_spelling (val e) = machine_spelling w) members = Some e \<longleftrightarrow>
      machine_spelling (val e) = machine_spelling w"
  proof (cases "find (\<lambda>e. machine_spelling (val e) = machine_spelling w) members")
    case None
    then have "machine_spelling (val e) \<noteq> machine_spelling w" by (auto simp: find_None_iff all)
    with None show ?thesis by simp
  next
    case (Some f)
    then have "machine_spelling (val f) = machine_spelling w" by (auto simp: find_Some_iff)
    with Some spelling_inj [of f e] show ?thesis by auto
  qed
  moreover have "adopt_machine_state members val no_aliases (Word w) =
      find (\<lambda>e. machine_spelling (val e) = machine_spelling w) members"
    by (simp add: adopt_machine_state_def no_aliases_def Let_def split: option.split)
  ultimately show ?thesis by metis
qed

lemma reads_back: "reads_back members val"
  by (simp add: reads_back_def adopts)
    (auto simp: adopt_machine_state_def machine_words_def no_aliases_def all)

end

lemma installation_state_all: "set installation_state_members = UNIV"
  by (auto simp: installation_state_members_def intro: installation_state.exhaust)

lemma installation_node_state_all: "set installation_node_state_members = UNIV"
  by (auto simp: installation_node_state_members_def intro: installation_node_state.exhaust)

lemma distribution_assignment_state_all: "set distribution_assignment_state_members = UNIV"
  by (auto simp: distribution_assignment_state_members_def intro: distribution_assignment_state.exhaust)

lemma run_state_all: "set run_state_members = UNIV"
  by (auto simp: run_state_members_def intro: run_state.exhaust)

lemma route_state_all: "set route_state_members = UNIV"
  by (auto simp: route_state_members_def intro: route_state.exhaust)

lemma route_publication_state_all: "set route_publication_state_members = UNIV"
  by (auto simp: route_publication_state_members_def intro: route_publication_state.exhaust)

lemma certificate_state_all: "set certificate_state_members = UNIV"
  by (auto simp: certificate_state_members_def intro: certificate_state.exhaust)

lemma enrollment_grant_state_all: "set enrollment_grant_state_members = UNIV"
  by (auto simp: enrollment_grant_state_members_def intro: enrollment_grant_state.exhaust)

lemma model_file_state_all: "set model_file_state_members = UNIV"
  by (auto simp: model_file_state_members_def intro: model_file_state.exhaust)

lemma catalog_sync_state_all: "set catalog_sync_state_members = UNIV"
  by (auto simp: catalog_sync_state_members_def intro: catalog_sync_state.exhaust)

lemma reservation_state_all: "set reservation_state_members = UNIV"
  by (auto simp: reservation_state_members_def intro: reservation_state.exhaust)

lemma gateway_route_state_all: "set gateway_route_state_members = UNIV"
  by (auto simp: gateway_route_state_members_def intro: gateway_route_state.exhaust)

lemma desired_assignment_state_all: "set desired_assignment_state_members = UNIV"
  by (auto simp: desired_assignment_state_members_def intro: desired_assignment_state.exhaust)

lemma endpoint_state_all: "set endpoint_state_members = UNIV"
  by (auto simp: endpoint_state_members_def intro: endpoint_state.exhaust)

lemma observed_assignment_state_all: "set observed_assignment_state_members = UNIV"
  by (auto simp: observed_assignment_state_members_def intro: observed_assignment_state.exhaust)

lemma asset_availability_all: "set asset_availability_members = UNIV"
  by (auto simp: asset_availability_members_def intro: asset_availability.exhaust)

lemma placement_install_state_all: "set placement_install_state_members = UNIV"
  by (auto simp: placement_install_state_members_def intro: placement_install_state.exhaust)

lemma placement_load_state_all: "set placement_load_state_members = UNIV"
  by (auto simp: placement_load_state_members_def intro: placement_load_state.exhaust)

interpretation m_installation_state: wire_machine installation_state_members installation_state_value
  by unfold_locales (rule installation_state_all, code_simp)

interpretation m_installation_node_state: wire_machine installation_node_state_members installation_node_state_value
  by unfold_locales (rule installation_node_state_all, code_simp)

interpretation m_distribution_assignment_state: wire_machine distribution_assignment_state_members distribution_assignment_state_value
  by unfold_locales (rule distribution_assignment_state_all, code_simp)

interpretation m_run_state: wire_machine run_state_members run_state_value
  by unfold_locales (rule run_state_all, code_simp)

interpretation m_route_state: wire_machine route_state_members route_state_value
  by unfold_locales (rule route_state_all, code_simp)

interpretation m_route_publication_state: wire_machine route_publication_state_members route_publication_state_value
  by unfold_locales (rule route_publication_state_all, code_simp)

interpretation m_certificate_state: wire_machine certificate_state_members certificate_state_value
  by unfold_locales (rule certificate_state_all, code_simp)

interpretation m_enrollment_grant_state: wire_machine enrollment_grant_state_members enrollment_grant_state_value
  by unfold_locales (rule enrollment_grant_state_all, code_simp)

interpretation m_model_file_state: wire_machine model_file_state_members model_file_state_value
  by unfold_locales (rule model_file_state_all, code_simp)

interpretation m_catalog_sync_state: wire_machine catalog_sync_state_members catalog_sync_state_value
  by unfold_locales (rule catalog_sync_state_all, code_simp)

interpretation m_reservation_state: wire_machine reservation_state_members reservation_state_value
  by unfold_locales (rule reservation_state_all, code_simp)

interpretation m_gateway_route_state: wire_machine gateway_route_state_members gateway_route_state_value
  by unfold_locales (rule gateway_route_state_all, code_simp)

interpretation m_desired_assignment_state: wire_machine desired_assignment_state_members desired_assignment_state_value
  by unfold_locales (rule desired_assignment_state_all, code_simp)

interpretation m_endpoint_state: wire_machine endpoint_state_members endpoint_state_value
  by unfold_locales (rule endpoint_state_all, code_simp)

interpretation m_observed_assignment_state: wire_machine observed_assignment_state_members observed_assignment_state_value
  by unfold_locales (rule observed_assignment_state_all, code_simp)

interpretation m_asset_availability: wire_machine asset_availability_members asset_availability_value
  by unfold_locales (rule asset_availability_all, code_simp)

interpretation m_placement_install_state: wire_machine placement_install_state_members placement_install_state_value
  by unfold_locales (rule placement_install_state_all, code_simp)

interpretation m_placement_load_state: wire_machine placement_load_state_members placement_load_state_value
  by unfold_locales (rule placement_load_state_all, code_simp)


end
