(* ===== verification/Strict_Json.thy ===== *)
theory Strict_Json
  imports Json
begin

text \<open>
  What the controller does to JSON documents around its Pydantic models (\<^verbatim>\<open>strict_json.py\<close>): the
  presence policy that omits an optional null, and the reading of a stored document whose retired
  fields are dropped. A model instance is the tree the policy walks: its declared fields, with
  what Pydantic knows of each; validation (\<open>validate\<close>), dumping (\<open>dump\<close>) and \<^verbatim>\<open>json.loads\<close>
  (\<open>loads\<close>) are parameters. A \<^verbatim>\<open>dict\<close> is a list of entries with distinct keys.
\<close>

section \<open>Objects\<close>

definition obj_set :: "'k \<Rightarrow> 'v \<Rightarrow> ('k \<times> 'v) list \<Rightarrow> ('k \<times> 'v) list" where
  "obj_set key v = map (\<lambda>(k, x). (k, if k = key then v else x))"

definition obj_pop :: "'k \<Rightarrow> ('k \<times> 'v) list \<Rightarrow> ('k \<times> 'v) list" where
  "obj_pop key = filter (\<lambda>(k, _). k \<noteq> key)"

lemma map_of_obj_set:
  "map_of (obj_set key v kvs) k = (if k = key \<and> map_of kvs k \<noteq> None then Some v else map_of kvs k)"
  by (induction kvs) (auto simp: obj_set_def)

lemma map_of_obj_pop: "map_of (obj_pop key kvs) k = (if k = key then None else map_of kvs k)"
  by (induction kvs) (auto simp: obj_pop_def)

lemma obj_keys [simp]: "map fst (obj_set key v kvs) = map fst kvs"
  by (induction kvs) (auto simp: obj_set_def)

section \<open>The presence policy\<close>

record field_meta =
  fm_name :: string
  fm_alias :: "string option"
  fm_serialization_alias :: "string option"
  fm_required :: bool

text \<open>
  A value the policy walks: a model with its fields, a root model, a mapping, a sequence that is
  neither text nor bytes, or a plain JSON value.
\<close>

datatype pyval =
    P_model "(field_meta \<times> pyval) list"
  | P_root pyval
  | P_map "(string \<times> pyval) list"
  | P_seq "pyval list"
  | P_leaf json

definition serialized_field_name :: "bool \<Rightarrow> field_meta \<Rightarrow> string" where
  "serialized_field_name by_alias fm =
     (if by_alias then str_or_else (str_or (fm_serialization_alias fm) (fm_alias fm)) (fm_name fm)
      else fm_name fm)"

text \<open>
  \<^verbatim>\<open>_apply_nested_value\<close> and \<^verbatim>\<open>apply_optional_none_policy\<close>, which change the document in place: the
  changed document. Their loops over the fields, the entries and the items are the functions
  below them.
\<close>

fun apply_nested_value :: "bool \<Rightarrow> pyval \<Rightarrow> json \<Rightarrow> json"
  and apply_fields :: "bool \<Rightarrow> (field_meta \<times> pyval) list \<Rightarrow> (string \<times> json) list \<Rightarrow> (string \<times> json) list"
  and apply_entries :: "bool \<Rightarrow> (string \<times> pyval) list \<Rightarrow> (string \<times> json) list \<Rightarrow> (string \<times> json) list"
  and apply_items :: "bool \<Rightarrow> pyval list \<Rightarrow> json list \<Rightarrow> json list" where
  "apply_nested_value by_alias (P_model flds) document =
     (case document of JObj kvs \<Rightarrow> JObj (apply_fields by_alias flds kvs) | _ \<Rightarrow> document)"
| "apply_nested_value by_alias (P_root inner) document = apply_nested_value by_alias inner document"
| "apply_nested_value by_alias (P_map entries) document =
     (case document of JObj kvs \<Rightarrow> JObj (apply_entries by_alias entries kvs) | _ \<Rightarrow> document)"
| "apply_nested_value by_alias (P_seq items) document =
     (case document of JList xs \<Rightarrow> JList (apply_items by_alias items xs) | _ \<Rightarrow> document)"
| "apply_nested_value by_alias (P_leaf _) document = document"
| "apply_fields by_alias [] kvs = kvs"
| "apply_fields by_alias ((fm, v) # flds) kvs =
     apply_fields by_alias flds
       (let name = serialized_field_name by_alias fm
        in case map_of kvs name of
             None \<Rightarrow> kvs
           | Some serialized \<Rightarrow>
               (if serialized = JNull then (if fm_required fm then kvs else obj_pop name kvs)
                else obj_set name (apply_nested_value by_alias v serialized) kvs))"
| "apply_entries by_alias [] kvs = kvs"
| "apply_entries by_alias ((k, v) # entries) kvs =
     apply_entries by_alias entries
       (case map_of kvs k of
          None \<Rightarrow> kvs
        | Some x \<Rightarrow> obj_set k (apply_nested_value by_alias v x) kvs)"
| "apply_items by_alias (v # items) (x # xs) =
     apply_nested_value by_alias v x # apply_items by_alias items xs"
| "apply_items by_alias _ xs = xs"

definition apply_optional_none_policy :: "bool \<Rightarrow> pyval \<Rightarrow> json \<Rightarrow> json" where
  "apply_optional_none_policy by_alias model document = apply_nested_value by_alias model document"

text \<open>\<^verbatim>\<open>serialize_json_value\<close>; \<open>dump\<close> is \<^verbatim>\<open>model_dump(mode="json")\<close> of a model.\<close>

fun serialize_json_value :: "(bool \<Rightarrow> pyval \<Rightarrow> json) \<Rightarrow> bool \<Rightarrow> pyval \<Rightarrow> json" where
  "serialize_json_value dump by_alias (P_map entries) =
     JObj (map (\<lambda>(k, v). (k, serialize_json_value dump by_alias v)) entries)"
| "serialize_json_value dump by_alias (P_seq items) =
     JList (map (serialize_json_value dump by_alias) items)"
| "serialize_json_value dump by_alias (P_leaf v) = v"
| "serialize_json_value dump by_alias model =
     apply_optional_none_policy by_alias model (dump by_alias model)"

section \<open>Reading a stored document\<close>

text \<open>A part of a Pydantic error location: a key (or the tag of a union) or an index.\<close>

datatype loc_part = Key string | Idx nat

record stored_issue =
  si_type :: string
  si_loc :: "loc_part list"

datatype 'v validation = V_ok 'v | V_invalid "stored_issue list"
datatype read_error = Validation_error "stored_issue list" | Location_error

text \<open>
  \<^verbatim>\<open>_drop_field\<close>: the document with the named key gone. A part that is missing from an object
  leads to \<^verbatim>\<open>None\<close>, from which nothing can be dropped; on a list a part that is no index of it is
  skipped. A location is never empty on an object: its last part would not exist.
\<close>

fun drop_at :: "loc_part list \<Rightarrow> json \<Rightarrow> json" where
  "drop_at [] document = document"
| "drop_at [part] document =
     (case (document, part) of (JObj kvs, Key k) \<Rightarrow> JObj (obj_pop k kvs) | _ \<Rightarrow> document)"
| "drop_at (part # next # rest) document =
     (case document of
        JObj kvs \<Rightarrow>
          (case part of
             Key k \<Rightarrow>
               (case map_of kvs k of
                  None \<Rightarrow> document
                | Some node \<Rightarrow> JObj (obj_set k (drop_at (next # rest) node) kvs))
           | Idx _ \<Rightarrow> document)
      | JList xs \<Rightarrow>
          (case part of
             Idx i \<Rightarrow> (if i < length xs then JList (xs[i := drop_at (next # rest) (xs ! i)])
                      else drop_at (next # rest) document)
           | Key _ \<Rightarrow> drop_at (next # rest) document)
      | _ \<Rightarrow> document)"

definition drop_field :: "loc_part list \<Rightarrow> json \<Rightarrow> read_error + json" where
  "drop_field location document =
     (case (location, document) of
        ([], JObj _) \<Rightarrow> Inl Location_error
      | _ \<Rightarrow> Inr (drop_at location document))"

fun drop_fields :: "stored_issue list \<Rightarrow> json \<Rightarrow> read_error + json" where
  "drop_fields [] document = Inr document"
| "drop_fields (issue # issues) document =
     (case drop_field (si_loc issue) document of
        Inl e \<Rightarrow> Inl e
      | Inr document' \<Rightarrow> drop_fields issues document')"

definition retired_fields_only :: "stored_issue list \<Rightarrow> bool" where
  "retired_fields_only issues \<longleftrightarrow>
     issues \<noteq> [] \<and> list_all (\<lambda>i. si_type i = ''extra_forbidden'') issues"

text \<open>\<^verbatim>\<open>read_stored_document\<close>: up to 64 repairs, then one last attempt.\<close>

fun read_rounds :: "nat \<Rightarrow> (json \<Rightarrow> 'v validation) \<Rightarrow> json \<Rightarrow> read_error + 'v" where
  "read_rounds 0 validate document =
     (case validate document of
        V_ok v \<Rightarrow> Inr v
      | V_invalid issues \<Rightarrow> Inl (Validation_error issues))"
| "read_rounds (Suc n) validate document =
     (case validate document of
        V_ok v \<Rightarrow> Inr v
      | V_invalid issues \<Rightarrow>
          (if \<not> retired_fields_only issues then Inl (Validation_error issues)
           else (case drop_fields issues document of
                   Inl e \<Rightarrow> Inl e
                 | Inr document' \<Rightarrow> read_rounds n validate document')))"

definition read_stored_document :: "(json \<Rightarrow> 'v validation) \<Rightarrow> json \<Rightarrow> read_error + 'v" where
  "read_stored_document validate document = read_rounds 64 validate document"

text \<open>
  \<^verbatim>\<open>read_stored_model\<close>: the document is a text or a decoded value, \<open>validate\<close> the model's own
  reading of either; the text that did not validate is decoded before it is repaired.
\<close>

datatype stored_input = Stored_text string | Stored_value json

definition read_stored_model ::
  "(string \<Rightarrow> json) \<Rightarrow> (stored_input \<Rightarrow> 'v validation) \<Rightarrow> stored_input \<Rightarrow> read_error + 'v" where
  "read_stored_model loads validate document =
     (case validate document of
        V_ok v \<Rightarrow> Inr v
      | V_invalid issues \<Rightarrow>
          (if \<not> retired_fields_only issues then Inl (Validation_error issues)
           else read_stored_document (\<lambda>d. validate (Stored_value d))
             (case document of Stored_text s \<Rightarrow> loads s | Stored_value d \<Rightarrow> d)))"

fun show_part :: "loc_part \<Rightarrow> string" where
  "show_part (Key k) = k"
| "show_part (Idx i) = show_nat i"

definition stored_document_detail :: "read_error \<Rightarrow> string option" where
  "stored_document_detail e =
     (case e of
        Location_error \<Rightarrow> None
      | Validation_error issues \<Rightarrow>
          (let loc = (case issues of [] \<Rightarrow> [] | i # _ \<Rightarrow> si_loc i);
               kind = (case issues of [] \<Rightarrow> ''invalid'' | i # _ \<Rightarrow> si_type i)
           in Some (''stored document is invalid at ''
                @ str_or_else (Some (take 140 (join ''.'' (map show_part loc)))) ''<root>''
                @ '' ('' @ kind @ '')'')))"

section \<open>The policy, key by key\<close>

text \<open>Values whose loops do not meet a key twice, as Python's dictionaries and models are.\<close>

fun well_keyed :: "bool \<Rightarrow> pyval \<Rightarrow> bool" where
  "well_keyed by_alias (P_model flds) \<longleftrightarrow>
     distinct (map (\<lambda>(fm, v). serialized_field_name by_alias fm) flds) \<and>
     list_all (\<lambda>(fm, v). well_keyed by_alias v) flds"
| "well_keyed by_alias (P_root inner) \<longleftrightarrow> well_keyed by_alias inner"
| "well_keyed by_alias (P_map entries) \<longleftrightarrow>
     distinct (map fst entries) \<and> list_all (\<lambda>(k, v). well_keyed by_alias v) entries"
| "well_keyed by_alias (P_seq items) \<longleftrightarrow> list_all (well_keyed by_alias) items"
| "well_keyed by_alias (P_leaf _) \<longleftrightarrow> True"

text \<open>What the policy makes of the value a field is serialized as.\<close>

definition kept :: "bool \<Rightarrow> field_meta \<times> pyval \<Rightarrow> json \<Rightarrow> json option" where
  "kept by_alias = (\<lambda>(fm, v) x. if x = JNull then (if fm_required fm then Some JNull else None)
                       else Some (apply_nested_value by_alias v x))"

definition field_of ::
  "bool \<Rightarrow> (field_meta \<times> pyval) list \<Rightarrow> string \<Rightarrow> (field_meta \<times> pyval) option" where
  "field_of by_alias flds name =
     find (\<lambda>(fm, v). serialized_field_name by_alias fm = name) flds"

text \<open>The loops over an object in one pass over its entries.\<close>

definition field_step ::
  "bool \<Rightarrow> (field_meta \<times> pyval) list \<Rightarrow> string \<times> json \<Rightarrow> (string \<times> json) option" where
  "field_step by_alias flds =
     (\<lambda>(k, x). case field_of by_alias flds k of
        None \<Rightarrow> Some (k, x)
      | Some f \<Rightarrow> map_option (Pair k) (kept by_alias f x))"

definition entry_step ::
  "bool \<Rightarrow> (string \<times> pyval) list \<Rightarrow> string \<times> json \<Rightarrow> string \<times> json" where
  "entry_step by_alias entries =
     (\<lambda>(k, x). case map_of entries k of
        None \<Rightarrow> (k, x)
      | Some v \<Rightarrow> (k, apply_nested_value by_alias v x))"

lemma map_filter_bind: "List.map_filter h (List.map_filter g xs) =
    List.map_filter (\<lambda>x. Option.bind (g x) h) xs"
  by (induction xs) (simp_all add: map_filter_simps split: option.splits)

lemma map_filter_cong_set:
  "(\<And>x. x \<in> set xs \<Longrightarrow> f x = g x) \<Longrightarrow> List.map_filter f xs = List.map_filter g xs"
  by (induction xs) (simp_all add: map_filter_simps split: option.split)

lemma map_filter_Some [simp]: "List.map_filter Some xs = xs"
  by (induction xs) (simp_all add: map_filter_simps)

text \<open>Changing or dropping the value of one key.\<close>

definition change_key ::
  "'k \<Rightarrow> ('v \<Rightarrow> 'v option) \<Rightarrow> 'k \<times> 'v \<Rightarrow> ('k \<times> 'v) option" where
  "change_key name g = (\<lambda>(k, x). if k = name then map_option (Pair k) (g x) else Some (k, x))"

lemma other_keys_stay:
  "name \<notin> set (map fst kvs) \<Longrightarrow> List.map_filter (change_key name g) kvs = kvs"
  "name \<notin> set (map fst kvs) \<Longrightarrow> obj_set name y kvs = kvs"
  "name \<notin> set (map fst kvs) \<Longrightarrow> obj_pop name kvs = kvs"
  by (induction kvs) (auto simp: change_key_def obj_set_def obj_pop_def map_filter_simps)

lemma change_key_loop:
  assumes "distinct (map fst kvs)"
  shows "List.map_filter (change_key name g) kvs =
    (case map_of kvs name of
       None \<Rightarrow> kvs
     | Some x \<Rightarrow> (case g x of None \<Rightarrow> obj_pop name kvs | Some y \<Rightarrow> obj_set name y kvs))"
  using assms
proof (induction kvs)
  case Nil
  then show ?case by (simp add: map_filter_simps)
next
  case (Cons kv kvs)
  obtain k x where kv: "kv = (k, x)" by (cases kv)
  show ?case
  proof (cases "k = name")
    case True
    with Cons.prems have "name \<notin> set (map fst kvs)" by (simp add: kv)
    then show ?thesis
      by (auto simp: kv True map_filter_simps change_key_def obj_pop_def obj_set_def
          other_keys_stay [unfolded change_key_def obj_pop_def obj_set_def] split: option.split)
  next
    case False
    with Cons show ?thesis
      by (auto simp: kv map_filter_simps change_key_def obj_pop_def obj_set_def split: option.splits)
  qed
qed

lemma obj_set_same: "distinct (map fst kvs) \<Longrightarrow> map_of kvs k = Some y \<Longrightarrow> obj_set k y kvs = kvs"
  by (auto simp: obj_set_def intro!: map_idI dest: map_of_SomeD eq_key_imp_eq_value)

lemma distinct_map_filter_keys:
  assumes "distinct (map fst kvs)" "\<And>k x y. g (k, x) = Some y \<Longrightarrow> fst y = k"
  shows "distinct (map fst (List.map_filter g kvs))"
proof -
  have sub: "set (map fst (List.map_filter g xs)) \<subseteq> set (map fst xs)" for xs
    using assms(2) by (induction xs) (auto simp: map_filter_simps split: option.splits)
  show ?thesis
    using assms(1)
  proof (induction kvs)
    case (Cons kv kvs)
    then show ?case
      using sub [of kvs] assms(2)
      by (cases kv) (auto simp: map_filter_simps split: option.splits)
  qed (simp add: map_filter_simps)
qed

lemma one_field:
  assumes "distinct (map fst kvs)"
  shows "apply_fields by_alias [(fm, v)] kvs =
    List.map_filter (change_key (serialized_field_name by_alias fm) (kept by_alias (fm, v))) kvs"
  using assms
  by (auto simp: change_key_loop Let_def kept_def obj_set_same split: option.split)

lemma field_step_Cons:
  assumes "field_of by_alias flds (serialized_field_name by_alias fm) = None"
  shows "field_step by_alias ((fm, v) # flds) kv =
    Option.bind (change_key (serialized_field_name by_alias fm) (kept by_alias (fm, v)) kv)
      (field_step by_alias flds)"
  using assms
  by (cases kv; cases "kept by_alias (fm, v) (snd kv)")
    (auto simp: field_step_def change_key_def field_of_def)

lemma apply_fields_step:
  assumes "distinct (map fst kvs)" "distinct (map (\<lambda>(fm, v). serialized_field_name by_alias fm) flds)"
  shows "apply_fields by_alias flds kvs = List.map_filter (field_step by_alias flds) kvs"
  using assms
proof (induction flds arbitrary: kvs)
  case Nil
  have "field_step by_alias [] = Some" by (auto simp: field_step_def field_of_def)
  then show ?case by simp
next
  case (Cons f flds)
  obtain fm v where f: "f = (fm, v)" by (cases f)
  let ?g = "change_key (serialized_field_name by_alias fm) (kept by_alias (fm, v))"
  have new: "field_of by_alias flds (serialized_field_name by_alias fm) = None"
    using Cons.prems(2) by (force simp: field_of_def find_None_iff f)
  have "apply_fields by_alias (f # flds) kvs = apply_fields by_alias flds (List.map_filter ?g kvs)"
    using one_field [OF Cons.prems(1), of by_alias fm v] by (simp add: f)
  also have "\<dots> = List.map_filter (field_step by_alias flds) (List.map_filter ?g kvs)"
    using Cons.prems
    by (intro Cons.IH distinct_map_filter_keys) (auto simp: f change_key_def split: if_splits)
  also have "\<dots> = List.map_filter (field_step by_alias (f # flds)) kvs"
    by (simp add: map_filter_bind f field_step_Cons [OF new, abs_def])
  finally show ?case .
qed

lemma apply_fields_lookup:
  assumes "distinct (map (\<lambda>(fm, v). serialized_field_name by_alias fm) flds)"
  shows "map_of (apply_fields by_alias flds kvs) name =
    (case (map_of kvs name, field_of by_alias flds name) of
       (None, _) \<Rightarrow> None
     | (Some x, None) \<Rightarrow> Some x
     | (Some x, Some f) \<Rightarrow> kept by_alias f x)"
  using assms
proof (induction flds arbitrary: kvs)
  case Nil
  then show ?case by (simp add: field_of_def split: option.split)
next
  case (Cons f flds)
  obtain fm v where f: "f = (fm, v)" by (cases f)
  have new: "field_of by_alias flds (serialized_field_name by_alias fm) = None"
    using Cons.prems by (force simp: field_of_def find_None_iff f)
  show ?case
    using Cons.prems new
    by (auto simp: Cons.IH f field_of_def kept_def Let_def map_of_obj_set map_of_obj_pop
        split: option.splits)
qed

lemma one_entry:
  assumes "distinct (map fst kvs)"
  shows "(case map_of kvs k of None \<Rightarrow> kvs | Some x \<Rightarrow> obj_set k (h x) kvs) =
    map (\<lambda>(k', x). (k', if k' = k then h x else x)) kvs"
proof -
  have "List.map_filter (change_key k (\<lambda>x. Some (h x))) kvs =
      map (\<lambda>(k', x). (k', if k' = k then h x else x)) kvs"
    by (induction kvs) (auto simp: map_filter_simps change_key_def)
  with change_key_loop [OF assms, of k "\<lambda>x. Some (h x)"] show ?thesis
    by (simp split: option.splits)
qed

lemma apply_entries_step:
  assumes "distinct (map fst kvs)" "distinct (map fst entries)"
  shows "apply_entries by_alias entries kvs = map (entry_step by_alias entries) kvs"
  using assms
proof (induction entries arbitrary: kvs)
  case Nil
  then show ?case by (auto simp: entry_step_def intro: map_idI [symmetric])
next
  case (Cons e entries)
  obtain k v where e: "e = (k, v)" by (cases e)
  have new: "map_of entries k = None" using Cons.prems(2) by (simp add: e map_of_eq_None_iff)
  have "apply_entries by_alias (e # entries) kvs = map (entry_step by_alias entries)
      (map (\<lambda>(k', x). (k', if k' = k then apply_nested_value by_alias v x else x)) kvs)"
    using Cons.prems by (simp add: e one_entry Cons.IH comp_def case_prod_beta)
  also have "\<dots> = map (entry_step by_alias (e # entries)) kvs"
    using new by (auto simp: e entry_step_def)
  finally show ?case .
qed

lemma nested_null [simp]: "apply_nested_value by_alias v x = JNull \<longleftrightarrow> x = JNull"
  by (induction v arbitrary: x) (auto split: json.splits)

section \<open>Applying the policy again\<close>

fun json_ok :: "json \<Rightarrow> bool" where
  "json_ok (JObj kvs) \<longleftrightarrow> distinct (map fst kvs) \<and> list_all (\<lambda>(k, x). json_ok x) kvs"
| "json_ok (JList xs) \<longleftrightarrow> list_all json_ok xs"
| "json_ok _ \<longleftrightarrow> True"

lemma field_of_member: "field_of by_alias flds k = Some f \<Longrightarrow> f \<in> set flds"
  by (metis field_of_def find_Some_iff nth_mem)

lemma field_steps_again:
  assumes "\<And>fm v k x. (fm, v) \<in> set flds \<Longrightarrow> (k, x) \<in> set kvs \<Longrightarrow>
    apply_nested_value by_alias v (apply_nested_value by_alias v x) = apply_nested_value by_alias v x"
  shows "List.map_filter (field_step by_alias flds) (List.map_filter (field_step by_alias flds) kvs) =
    List.map_filter (field_step by_alias flds) kvs"
proof -
  have "Option.bind (field_step by_alias flds (k, x)) (field_step by_alias flds) =
      field_step by_alias flds (k, x)" if "(k, x) \<in> set kvs" for k x
    using assms [OF field_of_member that]
    by (cases "field_of by_alias flds k") (auto simp: field_step_def kept_def)
  then show ?thesis unfolding map_filter_bind by (intro map_filter_cong_set) auto
qed

lemma items_again:
  assumes "\<And>v x. v \<in> set items \<Longrightarrow> x \<in> set xs \<Longrightarrow>
    apply_nested_value by_alias v (apply_nested_value by_alias v x) = apply_nested_value by_alias v x"
  shows "apply_items by_alias items (apply_items by_alias items xs) = apply_items by_alias items xs"
  using assms by (induction items xs rule: list_induct2') auto

lemma nested_again:
  assumes "well_keyed by_alias v" "json_ok x"
  shows "apply_nested_value by_alias v (apply_nested_value by_alias v x) = apply_nested_value by_alias v x"
  using assms
proof (induction v arbitrary: x)
  case (P_model flds)
  show ?case
  proof (cases x)
    case (JObj kvs)
    have again: "apply_nested_value by_alias v (apply_nested_value by_alias v y) =
        apply_nested_value by_alias v y" if "(fm, v) \<in> set flds" "(k, y) \<in> set kvs" for fm v k y
      using P_model.IH [OF that(1), of v y] P_model.prems that by (auto simp: JObj list_all_iff)
    have "distinct (map fst (List.map_filter (field_step by_alias flds) kvs))"
      using P_model.prems by (intro distinct_map_filter_keys)
        (auto simp: JObj field_step_def split: option.splits)
    then show ?thesis
      using P_model.prems field_steps_again [OF again]
      by (simp add: JObj apply_fields_step)
  qed simp_all
next
  case (P_map entries)
  show ?case
  proof (cases x)
    case (JObj kvs)
    have again: "entry_step by_alias entries (entry_step by_alias entries (k, y)) =
        entry_step by_alias entries (k, y)" if "(k, y) \<in> set kvs" for k y
    proof (cases "map_of entries k")
      case (Some v)
      note member = map_of_SomeD [OF Some]
      show ?thesis
        using P_map.IH [OF member, of v y] P_map.prems that member Some
        by (auto simp: JObj list_all_iff entry_step_def)
    qed (simp add: entry_step_def)
    have keys: "map fst (map (entry_step by_alias entries) kvs) = map fst kvs"
      by (auto simp: entry_step_def split: option.splits)
    have "distinct (map fst (map (entry_step by_alias entries) kvs))"
      unfolding keys using P_map.prems by (simp add: JObj)
    then show ?thesis
      using P_map.prems again
      by (simp add: JObj apply_entries_step del: map_map) (auto simp: comp_def)
  qed simp_all
next
  case (P_seq items)
  then show ?case
    by (cases x) (auto simp: list_all_iff intro!: items_again)
qed simp_all

text \<open>
  The presence policy on a model's document decides every key alone: a key of no field and a
  required null stay as they are, an optional null goes, every other value is treated by the same
  policy, and no key is added; applying it again changes nothing.
\<close>

lemma presence_policy_by_key:
  assumes "well_keyed by_alias (P_model flds)" "json_ok (JObj kvs)"
  shows "\<exists>kept_kvs.
    apply_optional_none_policy by_alias (P_model flds) (JObj kvs) = JObj kept_kvs \<and>
    (\<forall>name. map_of kept_kvs name =
      (case map_of kvs name of
         None \<Rightarrow> None
       | Some x \<Rightarrow>
           (case field_of by_alias flds name of
              None \<Rightarrow> Some x
            | Some (fm, v) \<Rightarrow>
                (if x = JNull then (if fm_required fm then Some JNull else None)
                 else Some (apply_nested_value by_alias v x))))) \<and>
    apply_optional_none_policy by_alias (P_model flds) (JObj kept_kvs) = JObj kept_kvs"
proof -
  have "apply_nested_value by_alias (P_model flds) (JObj (apply_fields by_alias flds kvs)) =
      JObj (apply_fields by_alias flds kvs)"
    using nested_again [OF assms] by simp
  moreover have "map_of (apply_fields by_alias flds kvs) name =
      (case map_of kvs name of
         None \<Rightarrow> None
       | Some x \<Rightarrow>
           (case field_of by_alias flds name of
              None \<Rightarrow> Some x
            | Some (fm, v) \<Rightarrow>
                (if x = JNull then (if fm_required fm then Some JNull else None)
                 else Some (apply_nested_value by_alias v x))))" for name
    using assms(1) by (simp add: apply_fields_lookup kept_def split: option.split)
  ultimately show ?thesis by (simp add: apply_optional_none_policy_def)
qed

section \<open>What reading drops\<close>

text \<open>The value at a path; \<open>atomic\<close> values hold no others.\<close>

fun at_path :: "loc_part list \<Rightarrow> json \<Rightarrow> json option" where
  "at_path [] document = Some document"
| "at_path (part # rest) document =
     (case (document, part) of
        (JObj kvs, Key k) \<Rightarrow> Option.bind (map_of kvs k) (at_path rest)
      | (JList xs, Idx i) \<Rightarrow> (if i < length xs then at_path rest (xs ! i) else None)
      | _ \<Rightarrow> None)"

fun atomic :: "json \<Rightarrow> bool" where
  "atomic (JObj _) = False"
| "atomic (JList _) = False"
| "atomic _ = True"

definition pruned :: "json \<Rightarrow> json \<Rightarrow> bool" where
  "pruned small big \<longleftrightarrow>
     (\<forall>path x. at_path path small = Some x \<and> atomic x \<longrightarrow> at_path path big = Some x)"

lemma pruned_refl [simp]: "pruned d d"
  by (simp add: pruned_def)

lemma pruned_trans: "pruned a b \<Longrightarrow> pruned b c \<Longrightarrow> pruned a c"
  by (simp add: pruned_def)

lemma drop_at_shape [simp]:
  "drop_at location JNull = JNull" "drop_at location (JBool b) = JBool b"
  "drop_at location (JInt i) = JInt i" "drop_at location (JFloat r) = JFloat r"
  "drop_at location (JStr s) = JStr s"
  by (cases "(location, JNull)" rule: drop_at.cases; simp)+

lemma pruned_pop: "pruned (JObj (obj_pop k kvs)) (JObj kvs)"
  unfolding pruned_def
proof (intro allI impI, elim conjE)
  fix path x
  assume "at_path path (JObj (obj_pop k kvs)) = Some x" "atomic x"
  then show "at_path path (JObj kvs) = Some x"
    by (cases path) (auto simp: map_of_obj_pop split: loc_part.splits if_splits)
qed

lemma pruned_field:
  assumes "map_of kvs k = Some node" "pruned node' node"
  shows "pruned (JObj (obj_set k node' kvs)) (JObj kvs)"
  unfolding pruned_def
proof (intro allI impI, elim conjE)
  fix path x
  assume "at_path path (JObj (obj_set k node' kvs)) = Some x" "atomic x"
  with assms show "at_path path (JObj kvs) = Some x"
    by (cases path) (auto simp: map_of_obj_set pruned_def split: loc_part.splits if_splits)
qed

lemma pruned_item:
  assumes "i < length xs" "pruned node (xs ! i)"
  shows "pruned (JList (xs[i := node])) (JList xs)"
  unfolding pruned_def
proof (intro allI impI, elim conjE)
  fix path x
  assume "at_path path (JList (xs[i := node])) = Some x" "atomic x"
  with assms show "at_path path (JList xs) = Some x"
    by (cases path) (auto simp: pruned_def nth_list_update split: loc_part.splits if_splits)
qed

lemma drop_at_pruned: "pruned (drop_at location document) document"
proof (induction location document rule: drop_at.induct)
  case (2 part document)
  then show ?case by (cases document; cases part) (simp_all add: pruned_pop)
next
  case (3 part nxt rest document)
  then show ?case
    by (cases document; cases part) (auto simp: pruned_field pruned_item split: option.split)
qed simp

lemma drop_fields_pruned: "drop_fields issues document = Inr document' \<Longrightarrow> pruned document' document"
  by (induction issues arbitrary: document)
    (auto simp: drop_field_def split: sum.splits list.splits json.splits
      intro: pruned_trans drop_at_pruned)

lemma drop_fields_Inl: "drop_fields issues document = Inl e \<Longrightarrow> e = Location_error"
  by (induction issues arbitrary: document)
    (auto simp: drop_field_def split: sum.splits list.splits json.splits)

lemma read_rounds_pruned:
  "case read_rounds n validate document of
     Inr v \<Rightarrow> \<exists>d. pruned d document \<and> validate d = V_ok v
   | Inl (Validation_error issues) \<Rightarrow> \<exists>d. pruned d document \<and> validate d = V_invalid issues
   | Inl Location_error \<Rightarrow> \<exists>d issues. pruned d document \<and> validate d = V_invalid issues"
proof (induction n arbitrary: document)
  case 0
  then show ?case by (auto split: validation.split intro: exI [of _ document])
next
  case (Suc n)
  show ?case
  proof (cases "validate document")
    case (V_ok v)
    then show ?thesis by (auto intro: exI [of _ document])
  next
    case invalid: (V_invalid issues)
    show ?thesis
    proof (cases "retired_fields_only issues")
      case False
      with invalid show ?thesis by (auto intro: exI [of _ document])
    next
      case True
      show ?thesis
      proof (cases "drop_fields issues document")
        case (Inl e)
        with invalid True drop_fields_Inl [OF Inl] show ?thesis
          by (auto intro: exI [of _ document])
      next
        case (Inr document')
        with invalid True Suc.IH [of document'] drop_fields_pruned [OF Inr] show ?thesis
          by (auto split: sum.splits read_error.splits intro: pruned_trans)
      qed
    qed
  qed
qed


text \<open>A contract with one field that has retired another, for the examples.\<close>

definition example_validate :: "json \<Rightarrow> json option validation" where
  "example_validate document =
     (case document of
        JObj kvs \<Rightarrow>
          (if map_of kvs ''old'' = None then V_ok (map_of kvs ''name'')
           else V_invalid [\<lparr>si_type = ''extra_forbidden'', si_loc = [Key ''old'']\<rparr>])
      | _ \<Rightarrow> V_ok None)"


section \<open>A retired field below a union\<close>

lemma read_rounds_unchanged:
  assumes "validate document = V_invalid issues" "drop_fields issues document = Inr document"
  shows "read_rounds n validate document = Inl (Validation_error issues)"
  using assms by (induction n) auto

lemma drop_at_missing:
  assumes "at_path path document = Some (JObj kvs)" "map_of kvs tag = None" "json_ok document"
  shows "drop_at (path @ [Key tag, Key name]) document = document"
  using assms
proof (induction path arbitrary: document)
  case Nil
  then show ?case by simp
next
  case (Cons part path)
  obtain a rest where rest: "path @ [Key tag, Key name] = a # rest" by (cases path) auto
  show ?case
  proof (cases document)
    case (JObj ms)
    with Cons.prems(1) obtain k node where "part = Key k" "map_of ms k = Some node"
      "at_path path node = Some (JObj kvs)"
      by (auto split: loc_part.splits option.splits simp: bind_eq_Some_conv)
    moreover from this(2) have "json_ok node"
      using Cons.prems(3) by (auto simp: JObj list_all_iff dest!: map_of_SomeD)
    ultimately show ?thesis
      using Cons.IH [of node] Cons.prems by (simp add: JObj rest obj_set_same)
  next
    case (JList xs)
    with Cons.prems(1) obtain i where "part = Idx i" "i < length xs"
      "at_path path (xs ! i) = Some (JObj kvs)"
      by (auto split: loc_part.splits if_splits)
    with Cons.IH [of "xs ! i"] Cons.prems show ?thesis by (simp add: JList rest list_all_length)
  qed (use Cons.prems in \<open>simp_all\<close>)
qed

text \<open>
  (C23) A location that names the member of a union is not repaired: its part is no key of the
  object there, so the retired field below it stays, every round meets the same error and the
  document is unreadable.
\<close>

theorem retired_union_field_is_not_dropped:
  assumes "json_ok document" "at_path path document = Some (JObj kvs)" "map_of kvs tag = None"
    and "validate document =
      V_invalid [\<lparr>si_type = ''extra_forbidden'', si_loc = path @ [Key tag, Key name]\<rparr>]"
  shows "read_stored_document validate document =
    Inl (Validation_error [\<lparr>si_type = ''extra_forbidden'', si_loc = path @ [Key tag, Key name]\<rparr>])"
  unfolding read_stored_document_def
  using assms(4)
proof (rule read_rounds_unchanged)
  show "drop_fields [\<lparr>si_type = ''extra_forbidden'', si_loc = path @ [Key tag, Key name]\<rparr>] document
      = Inr document"
    using drop_at_missing [OF assms(2,3,1), of name] by (cases path) (simp_all add: drop_field_def)
qed

definition union_validate :: "json \<Rightarrow> json option validation" where
  "union_validate document =
     (case at_path [Key ''settings'', Key ''old''] document of
        None \<Rightarrow> V_ok (at_path [Key ''settings''] document)
      | Some _ \<Rightarrow> V_invalid [\<lparr>si_type = ''extra_forbidden'',
                  si_loc = [Key ''settings''] @ [Key ''generation'', Key ''old'']\<rparr>])"

theorem retired_union_field_is_not_dropped_witness:
  "isl (read_stored_document union_validate
     (JObj [(''settings'', JObj [(''kind'', JStr ''generation''), (''old'', JInt 1)])]))"
proof -
  let ?d = "JObj [(''settings'', JObj [(''kind'', JStr ''generation''), (''old'', JInt 1)])]"
  have "read_stored_document union_validate ?d =
    Inl (Validation_error [\<lparr>si_type = ''extra_forbidden'',
      si_loc = [Key ''settings''] @ [Key ''generation'', Key ''old'']\<rparr>])"
    by (rule retired_union_field_is_not_dropped
        [where kvs = "[(''kind'', JStr ''generation''), (''old'', JInt 1)]"]) (simp_all add: union_validate_def)
  then show ?thesis by simp
qed

end
