(* ===== verification/Model_Cache_Ranges.thy ===== *)
theory Model_Cache_Ranges
  imports Prelude
begin

text \<open>
  Resumable downloads of one model-cache object in byte ranges (\<^verbatim>\<open>model_cache_ranges.py\<close>): the
  segments, the files an earlier attempt left, the transfer threads and the assembly.

  The threads share the counts, the flags and the probe lock; one download is a schedule, a list of
  moves each of which runs one thread up to its next point of interaction (taking the lock, the
  answer to an opened range, one chunk, the end of the body) or raises the stop event. Every
  interleaving of the threads is such a schedule. What \<^verbatim>\<open>open_range\<close> answers comes with the move;
  the object's server is the hypothesis \<open>honest\<close> on these answers. Bytes are of any type \<open>'b\<close>.
  The stream gate only delays threads and is left out. A file does not change while it is copied.
\<close>

section \<open>Segments\<close>

function range_from :: "nat \<Rightarrow> nat \<Rightarrow> nat \<Rightarrow> (nat \<times> nat) list" where
  "range_from start n width =
     (if width = 0 \<or> n \<le> start then []
      else (start, min (start + width) n - 1) # range_from (start + width) n width)"
  by pat_completeness auto

termination by (relation "measure (\<lambda>(start, n, _). n - start)") auto

declare range_from.simps [simp del]

definition segments :: "int \<Rightarrow> int \<Rightarrow> (nat \<times> nat) list result" where
  "segments expected_bytes workers =
     (if expected_bytes \<le> 0 \<or> workers \<le> 0 then Inl ValueError
      else Inr (range_from 0 (nat expected_bytes)
             (nat ((expected_bytes + workers - 1) div workers))))"

text \<open>The length of a segment and the bytes of an object in it.\<close>

fun seg_len :: "nat \<times> nat \<Rightarrow> nat" where
  "seg_len (start, stop) = stop + 1 - start"

fun piece :: "'b list \<Rightarrow> nat \<times> nat \<Rightarrow> 'b list" where
  "piece obj (start, stop) = take (stop + 1 - start) (drop start obj)"

section \<open>Files\<close>

text \<open>The target, the segment files by their position, and the symbolic links among them.\<close>

datatype 'b entry = File "'b list" | Symlink

record 'b disk =
  dk_target :: "'b entry option"
  dk_part :: "nat \<Rightarrow> 'b entry option"

fun file_bytes :: "'b entry option \<Rightarrow> 'b list" where
  "file_bytes (Some (File bs)) = bs"
| "file_bytes _ = []"

definition range_partial_bytes :: "int \<Rightarrow> int \<Rightarrow> 'b disk \<Rightarrow> nat result" where
  "range_partial_bytes expected_bytes workers dk =
     (let prefix_bytes = min (length (file_bytes (dk_target dk))) (nat expected_bytes)
      in res_map (\<lambda>segs. sum_list (map (\<lambda>(i, start, stop).
             max (min (length (file_bytes (dk_part dk i))) (stop + 1 - start))
                 (min prefix_bytes (stop + 1) - start)) (enumerate 0 segs)))
           (segments expected_bytes workers))"

text \<open>\<^verbatim>\<open>_reset_symlink\<close>: a managed link goes, what it points to stays.\<close>

definition reset_symlink :: "'b entry option \<Rightarrow> 'b entry option" where
  "reset_symlink e = (if e = Some Symlink then None else e)"

text \<open>
  What a segment file holds when the transfers start: its own bytes unless there are too many, and
  after them those of the sequential prefix.
\<close>

definition resume_part :: "'b list \<Rightarrow> nat \<times> nat \<Rightarrow> 'b list option \<Rightarrow> 'b list option" where
  "resume_part target seg part =
     (case seg of (start, stop) \<Rightarrow>
        (let kept = (case part of
               None \<Rightarrow> None
             | Some bs \<Rightarrow> (if length bs > stop + 1 - start then None else Some bs));
             size = length (opt_or kept []);
             available = min (length target) (stop + 1) - start
         in if available > size
            then Some (opt_or kept [] @ take (available - size) (drop (start + size) target))
            else kept))"

section \<open>Transfers\<close>

datatype transfer_error =
  Bad_arguments | Range_ignored | Interrupted | Range_response_error | Transport_error

text \<open>
  A response: the status, whether \<^verbatim>\<open>raise_for_status\<close> raises, the three numbers of a
  \<^verbatim>\<open>Content-Range\<close> that matches, whether the encoding is the identity, the chunks of the body and
  whether their iteration ends without an exception.
\<close>

record 'b response =
  rs_status :: nat
  rs_http_error :: bool
  rs_range :: "(nat \<times> nat \<times> nat) option"
  rs_identity :: bool
  rs_chunks :: "'b list list"
  rs_complete :: bool

datatype 'b answer = Open_raised | Response "'b response"

text \<open>\<^verbatim>\<open>_open_checked\<close>: the body of an accepted range.\<close>

definition open_checked ::
  "nat \<Rightarrow> nat \<Rightarrow> nat \<Rightarrow> 'b answer \<Rightarrow> transfer_error + 'b list list \<times> bool" where
  "open_checked n offset stop a =
     (case a of
        Open_raised \<Rightarrow> Inl Transport_error
      | Response r \<Rightarrow>
          (if rs_status r = 200 then Inl Range_ignored
           else if rs_http_error r then Inl Transport_error
           else if rs_status r \<noteq> 206 \<or> rs_range r \<noteq> Some (offset, stop, n)
           then Inl Range_response_error
           else if \<not> rs_identity r then Inl Range_response_error
           else Inr (rs_chunks r, rs_complete r)))"

text \<open>
  Where a thread is: before attempt \<open>k\<close>, about to open at an offset, holding the probe lock there,
  in a body of which \<open>remaining\<close> bytes are still due, returned, raised, or seen by the caller.
\<close>

datatype 'b phase =
    Attempt nat
  | Opening nat nat
  | Probing nat nat
  | Streaming nat nat "'b list list" bool
  | Returned
  | Raised transfer_error
  | Collected

record 'b transfers =
  tr_parts :: "nat \<Rightarrow> 'b list option"
  tr_counts :: "nat \<Rightarrow> nat"
  tr_phase :: "nat \<Rightarrow> 'b phase"
  tr_probe :: "nat option"
  tr_proven :: bool
  tr_abort :: bool
  tr_stop :: bool
  tr_fallback :: bool
  tr_ignored :: bool
  tr_failure :: "transfer_error option"
  tr_opened :: nat
  tr_progress :: "nat list"

definition interrupted :: "'b transfers \<Rightarrow> bool" where
  "interrupted t \<longleftrightarrow> tr_stop t \<or> tr_abort t"

definition fail_transfer :: "transfer_error \<Rightarrow> 'b transfers \<Rightarrow> 'b transfers" where
  "fail_transfer e t =
     t\<lparr>tr_failure := (if tr_failure t = None then Some e else tr_failure t), tr_abort := True\<rparr>"

definition goto :: "nat \<Rightarrow> 'b phase \<Rightarrow> 'b transfers \<Rightarrow> 'b transfers" where
  "goto i p t = t\<lparr>tr_phase := (tr_phase t)(i := p)\<rparr>"

text \<open>\<^verbatim>\<open>sum(counts.values())\<close> over the segments.\<close>

definition counted :: "(nat \<times> nat) list \<Rightarrow> 'b transfers \<Rightarrow> nat" where
  "counted segs t = sum_list (map (tr_counts t) [0..<length segs])"

text \<open>An accepted body: the segment file is opened for appending.\<close>

definition start_body ::
  "nat \<Rightarrow> nat \<Rightarrow> nat \<Rightarrow> nat \<Rightarrow> 'b list list \<times> bool \<Rightarrow> 'b transfers \<Rightarrow> 'b transfers" where
  "start_body i k offset stop body t =
     goto i (Streaming k (stop + 1 - offset) (fst body) (snd body))
       (t\<lparr>tr_parts := (tr_parts t)(i := Some (opt_or (tr_parts t i) []))\<rparr>)"

text \<open>\<^verbatim>\<open>_open\<close> while it holds the probe lock, and after a peer's answer was accepted.\<close>

definition probe_open ::
  "nat \<Rightarrow> nat \<Rightarrow> nat \<Rightarrow> nat \<Rightarrow> nat \<Rightarrow> 'b answer \<Rightarrow> 'b transfers \<Rightarrow> 'b transfers" where
  "probe_open n i stop k offset a t =
     (if tr_proven t then goto i (Opening k offset) (t\<lparr>tr_probe := None\<rparr>)
      else if interrupted t then goto i (Raised Interrupted) (t\<lparr>tr_probe := None\<rparr>)
      else
        (let t = t\<lparr>tr_opened := tr_opened t + 1, tr_probe := None\<rparr>
         in case open_checked n offset stop a of
              Inl Range_ignored \<Rightarrow> goto i (Raised Range_ignored) (t\<lparr>tr_abort := True\<rparr>)
            | Inl e \<Rightarrow> goto i (Raised e) (fail_transfer e t)
            | Inr body \<Rightarrow> start_body i k offset stop body (t\<lparr>tr_proven := True\<rparr>)))"

definition peer_open ::
  "nat \<Rightarrow> nat \<Rightarrow> nat \<Rightarrow> nat \<Rightarrow> nat \<Rightarrow> 'b answer \<Rightarrow> 'b transfers \<Rightarrow> 'b transfers" where
  "peer_open n i stop k offset a t =
     (if interrupted t then goto i (Raised Interrupted) t
      else
        (let t = t\<lparr>tr_opened := tr_opened t + 1\<rparr>
         in case open_checked n offset stop a of
              Inl e \<Rightarrow> goto i (Raised e) t
            | Inr body \<Rightarrow> start_body i k offset stop body t))"

text \<open>\<^verbatim>\<open>_transfer_body\<close>: one chunk, or the end of the body.\<close>

definition read_chunk ::
  "(nat \<times> nat) list \<Rightarrow> nat \<Rightarrow> nat \<Rightarrow> nat \<Rightarrow> 'b list \<Rightarrow> 'b list list \<Rightarrow> bool \<Rightarrow> 'b transfers
     \<Rightarrow> 'b transfers" where
  "read_chunk segs i k remaining chunk chunks complete t =
     (if interrupted t then goto i (Raised Interrupted) t
      else if length chunk > remaining
      then goto i (Raised Range_response_error) (t\<lparr>tr_parts := (tr_parts t)(i := None)\<rparr>)
      else
        (let t = t\<lparr>tr_parts := (tr_parts t)(i := map_option (\<lambda>bs. bs @ chunk) (tr_parts t i)),
                   tr_counts := (tr_counts t)(i := tr_counts t i + length chunk)\<rparr>
         in goto i (Streaming k (remaining - length chunk) chunks complete)
              (t\<lparr>tr_progress := tr_progress t @ [counted segs t]\<rparr>)))"

definition end_body :: "nat \<Rightarrow> nat \<Rightarrow> nat \<Rightarrow> bool \<Rightarrow> 'b transfers \<Rightarrow> 'b transfers" where
  "end_body i k remaining complete t =
     (if \<not> complete then goto i (Raised Transport_error) t
      else if remaining > 0 then goto i (Attempt (k + 1)) t
      else goto i Returned t)"

text \<open>\<^verbatim>\<open>transfer\<close>: the attempts; after the third short body the caller falls back.\<close>

definition attempt :: "nat \<Rightarrow> nat \<times> nat \<Rightarrow> nat \<Rightarrow> 'b transfers \<Rightarrow> 'b transfers" where
  "attempt i seg k t =
     (if k \<ge> 3 then goto i Returned (t\<lparr>tr_fallback := True\<rparr>)
      else if interrupted t then goto i (Raised Interrupted) t
      else if fst seg + tr_counts t i > snd seg then goto i Returned t
      else goto i (Opening k (fst seg + tr_counts t i)) t)"

text \<open>The caller's \<^verbatim>\<open>as_completed\<close> loop on one finished thread.\<close>

definition collect :: "nat \<Rightarrow> transfer_error option \<Rightarrow> 'b transfers \<Rightarrow> 'b transfers" where
  "collect i e t =
     goto i Collected
       (case e of
          None \<Rightarrow> t
        | Some Range_ignored \<Rightarrow> t\<lparr>tr_ignored := True, tr_abort := True\<rparr>
        | Some e \<Rightarrow> fail_transfer e t)"

datatype 'b move = Move nat "'b answer" | Stop_event

definition move_thread ::
  "nat \<Rightarrow> (nat \<times> nat) list \<Rightarrow> nat \<Rightarrow> 'b answer \<Rightarrow> 'b transfers \<Rightarrow> 'b transfers" where
  "move_thread n segs i a t =
     (case tr_phase t i of
        Attempt k \<Rightarrow> attempt i (segs ! i) k t
      | Opening k offset \<Rightarrow>
          (if tr_proven t then peer_open n i (snd (segs ! i)) k offset a t
           else if tr_probe t = None then goto i (Probing k offset) (t\<lparr>tr_probe := Some i\<rparr>)
           else t)
      | Probing k offset \<Rightarrow> probe_open n i (snd (segs ! i)) k offset a t
      | Streaming k remaining (chunk # chunks) complete \<Rightarrow>
          read_chunk segs i k remaining chunk chunks complete t
      | Streaming k remaining [] complete \<Rightarrow> end_body i k remaining complete t
      | Returned \<Rightarrow> collect i None t
      | Raised e \<Rightarrow> collect i (Some e) t
      | Collected \<Rightarrow> t)"

definition transfer_move ::
  "nat \<Rightarrow> (nat \<times> nat) list \<Rightarrow> 'b move \<Rightarrow> 'b transfers \<Rightarrow> 'b transfers" where
  "transfer_move n segs mv t =
     (case mv of
        Stop_event \<Rightarrow> t\<lparr>tr_stop := True\<rparr>
      | Move i a \<Rightarrow> (if i < length segs then move_thread n segs i a t else t))"

section \<open>Assembly and the whole download\<close>

text \<open>
  The segment files in order; \<open>halted i\<close> says that the stop event is seen while file \<open>i\<close> is read.
  \<open>Inr (Inr bytes)\<close> is the assembled object, \<open>Inr (Inl i)\<close> a segment that is not whole.
\<close>

fun assemble ::
  "(nat \<Rightarrow> bool) \<Rightarrow> (nat \<Rightarrow> 'b list option) \<Rightarrow> nat \<Rightarrow> (nat \<times> nat) list
     \<Rightarrow> transfer_error + (nat + 'b list)" where
  "assemble halted parts i [] = Inr (Inr [])"
| "assemble halted parts i (seg # segs) =
     (case parts i of
        None \<Rightarrow> Inr (Inl i)
      | Some bs \<Rightarrow>
          (if length bs \<noteq> seg_len seg then Inr (Inl i)
           else if halted i then Inl Interrupted
           else (case assemble halted parts (Suc i) segs of
                   Inr (Inr rest) \<Rightarrow> Inr (Inr (bs @ rest))
                 | answer \<Rightarrow> answer)))"

definition to_disk :: "'b entry option \<Rightarrow> (nat \<Rightarrow> 'b list option) \<Rightarrow> 'b disk" where
  "to_disk target parts = \<lparr>dk_target = target, dk_part = map_option File \<circ> parts\<rparr>"

text \<open>\<^verbatim>\<open>cleanup_ranges\<close>: no segment file is left beside the target.\<close>

definition cleanup_ranges :: "'b entry option \<Rightarrow> 'b disk" where
  "cleanup_ranges target = to_disk target (\<lambda>_. None)"

definition finish_download ::
  "(nat \<Rightarrow> bool) \<Rightarrow> (nat \<times> nat) list \<Rightarrow> 'b entry option \<Rightarrow> 'b transfers
     \<Rightarrow> (transfer_error + bool) \<times> 'b disk" where
  "finish_download halted segs target t =
     (if tr_ignored t then (Inr False, cleanup_ranges target)
      else case tr_failure t of
        Some e \<Rightarrow> (Inl e, to_disk target (tr_parts t))
      | None \<Rightarrow>
          (if tr_stop t then (Inl Interrupted, to_disk target (tr_parts t))
           else if tr_fallback t then (Inr False, to_disk target (tr_parts t))
           else (case assemble halted (tr_parts t) 0 segs of
                   Inl e \<Rightarrow> (Inl e, to_disk target (tr_parts t))
                 | Inr (Inl i) \<Rightarrow> (Inr False, to_disk target ((tr_parts t)(i := None)))
                 | Inr (Inr bs) \<Rightarrow> (Inr True, cleanup_ranges (Some (File bs))))))"

text \<open>The files the transfers start from.\<close>

definition first_target :: "nat \<Rightarrow> 'b disk \<Rightarrow> 'b entry option" where
  "first_target n dk =
     (let e = reset_symlink (dk_target dk)
      in if length (file_bytes e) > n then None else e)"

definition first_part ::
  "(nat \<times> nat) list \<Rightarrow> 'b entry option \<Rightarrow> 'b disk \<Rightarrow> nat \<Rightarrow> 'b list option" where
  "first_part segs target dk i =
     (if i < length segs
      then resume_part (file_bytes target) (segs ! i)
             (case reset_symlink (dk_part dk i) of Some (File bs) \<Rightarrow> Some bs | _ \<Rightarrow> None)
      else None)"

definition start_transfers ::
  "(nat \<times> nat) list \<Rightarrow> (nat \<Rightarrow> 'b list option) \<Rightarrow> 'b transfers" where
  "start_transfers segs parts =
     (let counts = (\<lambda>i. length (opt_or (parts i) []))
      in \<lparr>tr_parts = parts, tr_counts = counts, tr_phase = (\<lambda>_. Attempt 0), tr_probe = None,
          tr_proven = False, tr_abort = False, tr_stop = False, tr_fallback = False,
          tr_ignored = False, tr_failure = None, tr_opened = 0,
          tr_progress = [sum_list (map counts [0..<length segs])]\<rparr>)"

definition all_collected :: "(nat \<times> nat) list \<Rightarrow> 'b transfers \<Rightarrow> bool" where
  "all_collected segs t \<longleftrightarrow> list_all (\<lambda>i. tr_phase t i = Collected) [0..<length segs]"

text \<open>
  \<^verbatim>\<open>download_ranges\<close> under a schedule; \<open>None\<close> when the schedule ends before every thread has been
  collected.
\<close>

definition download_ranges ::
  "int \<Rightarrow> int \<Rightarrow> (nat \<Rightarrow> bool) \<Rightarrow> 'b move list \<Rightarrow> 'b disk
     \<Rightarrow> ((transfer_error + bool) \<times> 'b disk) option" where
  "download_ranges expected_bytes workers halted schedule dk =
     (case segments expected_bytes workers of
        Inl _ \<Rightarrow> Some (Inl Bad_arguments, dk)
      | Inr segs \<Rightarrow>
          (let n = nat expected_bytes;
               target = first_target n dk;
               t = fold (transfer_move n segs) schedule
                     (start_transfers segs (first_part segs target dk))
           in if all_collected segs t then Some (finish_download halted segs target t) else None))"

section \<open>The segments partition the object\<close>

lemma concat_pieces:
  "width > 0 \<Longrightarrow> concat (map (piece obj) (range_from start (length obj) width)) = drop start obj"
proof (induction start "length obj" width rule: range_from.induct)
  case (1 start width)
  show ?case
  proof (cases "length obj \<le> start")
    case True
    then show ?thesis by (simp add: range_from.simps)
  next
    case False
    then have "piece obj (start, min (start + width) (length obj) - 1) = take width (drop start obj)"
      using 1(2) by (auto simp: min_def)
    with False 1 append_take_drop_id [of width "drop start obj"] show ?thesis
      by (subst range_from.simps) (simp add: add.commute)
  qed
qed

lemma range_from_bounds: "(a, b) \<in> set (range_from start n width) \<Longrightarrow> a \<le> b \<and> b < n"
proof (induction start n width rule: range_from.induct)
  case (1 start n width)
  then show ?case by (subst (asm) (2) range_from.simps) (auto split: if_splits)
qed

lemma segments_Inr:
  assumes "segments expected_bytes workers = Inr segs"
  shows "0 < expected_bytes"
    "\<And>a b. (a, b) \<in> set segs \<Longrightarrow> a \<le> b \<and> b < nat expected_bytes"
    "length obj = nat expected_bytes \<Longrightarrow> concat (map (piece obj) segs) = obj"
proof -
  let ?width = "nat ((expected_bytes + workers - 1) div workers)"
  have pos: "0 < expected_bytes" "0 < workers" and segs: "segs = range_from 0 (nat expected_bytes) ?width"
    using assms by (auto simp: segments_def split: if_splits)
  then have "workers div workers \<le> (expected_bytes + workers - 1) div workers"
    by (intro zdiv_mono1) auto
  with pos have "0 < ?width" by simp
  then show "0 < expected_bytes"
    "\<And>a b. (a, b) \<in> set segs \<Longrightarrow> a \<le> b \<and> b < nat expected_bytes"
    "length obj = nat expected_bytes \<Longrightarrow> concat (map (piece obj) segs) = obj"
    using pos range_from_bounds concat_pieces [of ?width obj 0] by (auto simp: segs)
qed

section \<open>What a segment file holds\<close>

lemma prefix_append_drop:
  "prefix (xs @ ys) zs \<longleftrightarrow> prefix xs zs \<and> prefix ys (drop (length xs) zs)"
  by (auto simp: prefix_def)

lemma prefix_take_iff: "prefix xs (take n zs) \<longleftrightarrow> length xs \<le> n \<and> prefix xs zs"
proof
  assume "prefix xs (take n zs)"
  then show "length xs \<le> n \<and> prefix xs zs"
    using prefix_length_le [of xs "take n zs"] take_is_prefix [of n zs] by (auto intro: prefix_order.trans)
next
  assume "length xs \<le> n \<and> prefix xs zs"
  then show "prefix xs (take n zs)" by (auto simp: prefix_def)
qed

lemma prefix_piece:
  "prefix bs (piece obj seg) \<longleftrightarrow> length bs \<le> seg_len seg \<and> prefix bs (drop (fst seg) obj)"
  by (cases seg) (simp add: prefix_take_iff)

lemma prefix_full: "prefix bs zs \<Longrightarrow> length bs = length zs \<Longrightarrow> bs = zs"
  by (auto simp: prefix_def)

text \<open>
  The server sends what it says: the bytes of a range it announces are the object's at that
  place, as many as it sends of them.
\<close>

definition honest :: "'b list \<Rightarrow> 'b move \<Rightarrow> bool" where
  "honest obj mv =
     (case mv of
        Move _ (Response r) \<Rightarrow>
          (case rs_range r of
             Some (x, y, _) \<Rightarrow>
               rs_status r = 206 \<longrightarrow> prefix (take (y + 1 - x) (concat (rs_chunks r))) (drop x obj)
           | None \<Rightarrow> True)
      | _ \<Rightarrow> True)"

text \<open>A thread that has not raised knows how many bytes its file holds.\<close>

definition thread_ok :: "'b list \<Rightarrow> (nat \<times> nat) list \<Rightarrow> 'b transfers \<Rightarrow> nat \<Rightarrow> bool" where
  "thread_ok obj segs t i \<longleftrightarrow>
     (let seg = segs ! i; count = tr_counts t i
      in count \<le> seg_len seg \<and>
         (case tr_parts t i of None \<Rightarrow> True | Some bs \<Rightarrow> prefix bs (piece obj seg)) \<and>
         (case tr_phase t i of
            Raised _ \<Rightarrow> True
          | Collected \<Rightarrow> True
          | Returned \<Rightarrow> True
          | Attempt _ \<Rightarrow> count = length (opt_or (tr_parts t i) [])
          | Opening _ offset \<Rightarrow> count = length (opt_or (tr_parts t i) []) \<and> offset = fst seg + count
          | Probing _ offset \<Rightarrow> count = length (opt_or (tr_parts t i) []) \<and> offset = fst seg + count
          | Streaming _ remaining chunks _ \<Rightarrow>
              (\<exists>bs. tr_parts t i = Some bs \<and> count = length bs) \<and>
              remaining + count = seg_len seg \<and>
              prefix (take remaining (concat chunks)) (drop (fst seg + count) obj)))"

definition threads_ok :: "'b list \<Rightarrow> (nat \<times> nat) list \<Rightarrow> 'b transfers \<Rightarrow> bool" where
  "threads_ok obj segs t \<longleftrightarrow> (\<forall>i < length segs. thread_ok obj segs t i)"

lemma goto_simps [simp]:
  "tr_parts (goto i p t) = tr_parts t" "tr_counts (goto i p t) = tr_counts t"
  "tr_phase (goto i p t) = (tr_phase t)(i := p)" "tr_probe (goto i p t) = tr_probe t"
  "tr_proven (goto i p t) = tr_proven t" "tr_abort (goto i p t) = tr_abort t"
  "tr_stop (goto i p t) = tr_stop t" "tr_fallback (goto i p t) = tr_fallback t"
  "tr_ignored (goto i p t) = tr_ignored t" "tr_failure (goto i p t) = tr_failure t"
  "tr_opened (goto i p t) = tr_opened t" "tr_progress (goto i p t) = tr_progress t"
  by (simp_all add: goto_def)

lemma fail_transfer_simps [simp]:
  "tr_parts (fail_transfer e t) = tr_parts t" "tr_counts (fail_transfer e t) = tr_counts t"
  "tr_phase (fail_transfer e t) = tr_phase t" "tr_probe (fail_transfer e t) = tr_probe t"
  "tr_proven (fail_transfer e t) = tr_proven t" "tr_abort (fail_transfer e t)"
  "tr_stop (fail_transfer e t) = tr_stop t" "tr_fallback (fail_transfer e t) = tr_fallback t"
  "tr_ignored (fail_transfer e t) = tr_ignored t"
  "tr_failure (fail_transfer e t) = (if tr_failure t = None then Some e else tr_failure t)"
  "tr_opened (fail_transfer e t) = tr_opened t" "tr_progress (fail_transfer e t) = tr_progress t"
  by (simp_all add: fail_transfer_def)

text \<open>A thread's own move leaves the other segments alone.\<close>

definition others_kept :: "nat \<Rightarrow> 'b transfers \<Rightarrow> 'b transfers \<Rightarrow> bool" where
  "others_kept i t t' \<longleftrightarrow>
     (\<forall>j. j \<noteq> i \<longrightarrow> tr_parts t' j = tr_parts t j \<and> tr_counts t' j = tr_counts t j \<and>
          tr_phase t' j = tr_phase t j)"

lemmas thread_defs = attempt_def peer_open_def probe_open_def read_chunk_def end_body_def
  collect_def start_body_def Let_def

lemma move_thread_others: "others_kept i t (move_thread n segs i a t)"
  by (auto simp: move_thread_def others_kept_def thread_defs
      split: phase.split list.split sum.split transfer_error.split option.split)

lemma open_checked_Inr:
  assumes "open_checked n offset stop a = Inr (chunks, complete)" "honest obj (Move i a)"
  shows "prefix (take (stop + 1 - offset) (concat chunks)) (drop offset obj)"
  using assms by (auto simp: open_checked_def honest_def split: answer.splits if_splits)

lemma start_body_ok:
  assumes "open_checked n offset (snd (segs ! i)) a = Inr body" "honest obj (Move i a)"
    and "tr_counts t i = length (opt_or (tr_parts t i) [])" "offset = fst (segs ! i) + tr_counts t i"
    and "tr_counts t i \<le> seg_len (segs ! i)"
    and "case tr_parts t i of None \<Rightarrow> True | Some bs \<Rightarrow> prefix bs (piece obj (segs ! i))"
  shows "thread_ok obj segs (start_body i k offset (snd (segs ! i)) body t) i"
proof -
  obtain start stop where seg: "segs ! i = (start, stop)" by (cases "segs ! i")
  obtain chunks complete where body: "body = (chunks, complete)" by (cases body)
  have "prefix (take (stop + 1 - offset) (concat chunks)) (drop offset obj)"
    using open_checked_Inr [of n offset stop a chunks complete obj i] assms(1,2)
    by (simp add: seg body)
  then show ?thesis
    using assms(3-6)
    by (auto simp: thread_ok_def start_body_def seg body Let_def split: option.splits)
qed

lemma move_thread_ok:
  assumes "thread_ok obj segs t i" "honest obj (Move i a)"
  shows "thread_ok obj segs (move_thread n segs i a t) i"
proof (cases "tr_phase t i")
  case (Attempt k)
  with assms show ?thesis by (auto simp: move_thread_def attempt_def thread_ok_def Let_def)
next
  case (Opening k offset)
  show ?thesis
  proof (cases "open_checked n offset (snd (segs ! i)) a")
    case (Inl e)
    with assms Opening show ?thesis
      by (auto simp: move_thread_def peer_open_def thread_ok_def Let_def)
  next
    case (Inr body)
    have "thread_ok obj segs (start_body i k offset (snd (segs ! i)) body
        (t\<lparr>tr_opened := tr_opened t + 1\<rparr>)) i"
      using Inr assms Opening by (intro start_body_ok) (auto simp: thread_ok_def Let_def)
    moreover have "thread_ok obj segs (move_thread n segs i a t) i"
      if "\<not> tr_proven t \<or> interrupted t"
      using that assms Opening by (auto simp: move_thread_def peer_open_def thread_ok_def Let_def)
    ultimately show ?thesis
      using Inr Opening by (auto simp: move_thread_def peer_open_def Let_def)
  qed
next
  case (Probing k offset)
  show ?thesis
  proof (cases "open_checked n offset (snd (segs ! i)) a")
    case (Inl e)
    with assms Probing show ?thesis
      by (cases e) (auto simp: move_thread_def probe_open_def thread_ok_def Let_def)
  next
    case (Inr body)
    have "thread_ok obj segs (start_body i k offset (snd (segs ! i)) body
        (t\<lparr>tr_opened := tr_opened t + 1, tr_probe := None, tr_proven := True\<rparr>)) i"
      using Inr assms Probing by (intro start_body_ok) (auto simp: thread_ok_def Let_def)
    moreover have "thread_ok obj segs (move_thread n segs i a t) i"
      if "tr_proven t \<or> interrupted t"
      using that assms Probing by (auto simp: move_thread_def probe_open_def thread_ok_def Let_def)
    ultimately show ?thesis
      using Inr Probing by (auto simp: move_thread_def probe_open_def Let_def)
  qed
next
  case (Streaming k remaining chunks complete)
  obtain start stop where seg: "segs ! i = (start, stop)" by (cases "segs ! i")
  from assms(1) Streaming obtain bs where bs: "tr_parts t i = Some bs" "tr_counts t i = length bs"
    "remaining + length bs = stop + 1 - start" "prefix bs (drop start obj)"
    "prefix (take remaining (concat chunks)) (drop (start + length bs) obj)"
    by (auto simp: thread_ok_def Let_def seg prefix_take_iff)
  show ?thesis
  proof (cases chunks)
    case Nil
    with assms Streaming show ?thesis
      by (auto simp: move_thread_def end_body_def thread_ok_def Let_def)
  next
    case (Cons chunk rest)
    have "prefix (bs @ chunk) (drop start obj) \<and>
        prefix (take (remaining - length chunk) (concat rest)) (drop (start + length bs + length chunk) obj)"
      if "length chunk \<le> remaining"
      using that bs(4,5) by (simp add: Cons prefix_append_drop add.commute add.left_commute)
    with assms Streaming bs show ?thesis
      by (auto simp: move_thread_def Cons read_chunk_def thread_ok_def Let_def seg prefix_take_iff
          add.assoc)
  qed
qed (use assms in \<open>auto simp: move_thread_def collect_def thread_ok_def Let_def
      split: option.split transfer_error.split\<close>)

lemma thread_ok_cong:
  assumes "tr_parts t' j = tr_parts t j" "tr_counts t' j = tr_counts t j"
    "tr_phase t' j = tr_phase t j"
  shows "thread_ok obj segs t' j \<longleftrightarrow> thread_ok obj segs t j"
  unfolding thread_ok_def assms ..

lemma thread_ok_others:
  "others_kept i t t' \<Longrightarrow> j \<noteq> i \<Longrightarrow> thread_ok obj segs t' j \<longleftrightarrow> thread_ok obj segs t j"
  by (intro thread_ok_cong) (simp_all add: others_kept_def)

lemma transfer_move_ok:
  assumes "threads_ok obj segs t" "honest obj mv"
  shows "threads_ok obj segs (transfer_move n segs mv t)"
proof (cases mv)
  case (Move i a)
  show ?thesis
    unfolding threads_ok_def
  proof (intro allI impI)
    fix j assume j: "j < length segs"
    show "thread_ok obj segs (transfer_move n segs mv t) j"
      using assms j move_thread_ok [of obj segs t i a n]
        thread_ok_others [OF move_thread_others [of i t n segs a], of j obj segs]
      by (cases "j = i") (auto simp: threads_ok_def transfer_move_def Move)
  qed
next
  case Stop_event
  with assms show ?thesis by (simp add: threads_ok_def transfer_move_def cong: thread_ok_cong)
qed

lemma transfers_ok:
  "threads_ok obj segs t \<Longrightarrow> list_all (honest obj) schedule \<Longrightarrow>
     threads_ok obj segs (fold (transfer_move n segs) schedule t)"
  by (induction schedule arbitrary: t) (simp_all add: transfer_move_ok)

section \<open>Files before and after an attempt\<close>

text \<open>
  Every file that an attempt would reuse holds the object's bytes; one that is too long is
  dropped by the attempt and may hold anything.
\<close>

definition disk_ok :: "'b list \<Rightarrow> (nat \<times> nat) list \<Rightarrow> 'b disk \<Rightarrow> bool" where
  "disk_ok obj segs dk \<longleftrightarrow>
     (length (file_bytes (dk_target dk)) \<le> length obj \<longrightarrow> prefix (file_bytes (dk_target dk)) obj) \<and>
     (\<forall>i < length segs. length (file_bytes (dk_part dk i)) \<le> seg_len (segs ! i) \<longrightarrow>
        prefix (file_bytes (dk_part dk i)) (piece obj (segs ! i)))"

lemma prefix_drop: "prefix xs ys \<Longrightarrow> prefix (drop k xs) (drop k ys)"
  by (auto simp: prefix_def)

lemma resume_part_ok:
  assumes "prefix target obj"
    and "\<And>bs. part = Some bs \<Longrightarrow> length bs \<le> seg_len seg \<Longrightarrow> prefix bs (piece obj seg)"
    and "resume_part target seg part = Some bs"
  shows "prefix bs (piece obj seg)"
proof -
  obtain start stop where seg: "seg = (start, stop)" by (cases seg)
  define kept where "kept = (case part of
      None \<Rightarrow> None | Some bs \<Rightarrow> (if length bs > stop + 1 - start then None else Some bs))"
  let ?size = "length (opt_or kept [])" and ?available = "min (length target) (stop + 1) - start"
  have kept: "prefix (opt_or kept []) (piece obj seg)"
    using assms(2) by (auto simp: kept_def seg not_less split: option.splits)
  have "prefix (take m (drop (start + ?size) target)) (drop (start + ?size) obj)" for m
    using prefix_drop [OF assms(1), of "start + ?size"]
    by (meson prefix_order.trans take_is_prefix)
  with kept have "prefix (opt_or kept [] @ take (?available - ?size) (drop (start + ?size) target))
      (piece obj seg)"
    unfolding prefix_piece by (auto simp: prefix_append_drop seg add.commute)
  moreover have "bs = opt_or kept [] @ take (?available - ?size) (drop (start + ?size) target) \<or>
      kept = Some bs"
    using assms(3) by (auto simp: resume_part_def seg Let_def kept_def [symmetric] split: if_splits)
  ultimately show ?thesis using kept by auto
qed

lemma first_target_prefix:
  assumes "disk_ok obj segs dk"
  shows "prefix (file_bytes (first_target (length obj) dk)) obj"
  using assms by (auto simp: disk_ok_def first_target_def reset_symlink_def Let_def not_less)

lemma start_transfers_ok:
  assumes "disk_ok obj segs dk"
  shows "threads_ok obj segs
    (start_transfers segs (first_part segs (first_target (length obj) dk) dk))"
proof -
  have "prefix bs (piece obj (segs ! i))"
    if "i < length segs" "first_part segs (first_target (length obj) dk) dk i = Some bs" for i bs
  proof (rule resume_part_ok [OF first_target_prefix [OF assms]])
    show "resume_part (file_bytes (first_target (length obj) dk)) (segs ! i)
        (case reset_symlink (dk_part dk i) of Some (File bs) \<Rightarrow> Some bs | _ \<Rightarrow> None) = Some bs"
      using that by (simp add: first_part_def)
    show "prefix bs (piece obj (segs ! i))"
      if "(case reset_symlink (dk_part dk i) of Some (File bs) \<Rightarrow> Some bs | _ \<Rightarrow> None) = Some bs"
        "length bs \<le> seg_len (segs ! i)" for bs
      using that assms \<open>i < length segs\<close>
      by (auto simp: disk_ok_def reset_symlink_def split: option.splits entry.splits if_splits)
  qed
  then show ?thesis
    by (auto simp: threads_ok_def thread_ok_def start_transfers_def Let_def prefix_piece
        split: option.splits)
qed

lemma assemble_object:
  assumes "assemble halted parts k segs = Inr (Inr bs)"
    and "\<And>i b. i < length segs \<Longrightarrow> parts (k + i) = Some b \<Longrightarrow> prefix b (piece obj (segs ! i))"
    and "\<And>seg. seg \<in> set segs \<Longrightarrow> length (piece obj seg) = seg_len seg"
  shows "bs = concat (map (piece obj) segs)"
  using assms
proof (induction segs arbitrary: k bs)
  case Nil
  then show ?case by simp
next
  case (Cons seg segs)
  from Cons.prems(1) obtain b rest where b: "parts k = Some b" "length b = seg_len seg"
    "assemble halted parts (Suc k) segs = Inr (Inr rest)" "bs = b @ rest"
    by (auto split: option.splits if_splits sum.splits)
  have "b = piece obj seg"
    using Cons.prems(2) [of 0 b] Cons.prems(3) [of seg] b(1,2) by (auto intro: prefix_full)
  moreover have "rest = concat (map (piece obj) segs)"
  proof (rule Cons.IH [OF b(3)])
    show "prefix c (piece obj (segs ! i))" if "i < length segs" "parts (Suc k + i) = Some c" for i c
      using Cons.prems(2) [of "Suc i" c] that by simp
  qed (use Cons.prems(3) in auto)
  ultimately show ?case using b(4) by simp
qed

lemma piece_length:
  assumes "\<And>a b. (a, b) \<in> set segs \<Longrightarrow> a \<le> b \<and> b < length obj" "seg \<in> set segs"
  shows "length (piece obj seg) = seg_len seg"
  using assms(1) [of "fst seg" "snd seg"] assms(2) by (cases seg) auto

lemma to_disk_ok:
  assumes "prefix (file_bytes target) obj"
    and "\<And>i bs. i < length segs \<Longrightarrow> parts i = Some bs \<Longrightarrow> prefix bs (piece obj (segs ! i))"
  shows "disk_ok obj segs (to_disk target parts)"
proof -
  have "prefix (file_bytes (map_option File (parts i))) (piece obj (segs ! i))"
    if "i < length segs" for i
    using assms(2) [OF that] by (cases "parts i") auto
  with assms(1) show ?thesis by (simp add: disk_ok_def to_disk_def)
qed

lemma finish_download_ok:
  assumes ok: "threads_ok obj segs t" and target: "prefix (file_bytes target) obj"
    and segs: "\<And>a b. (a, b) \<in> set segs \<Longrightarrow> a \<le> b \<and> b < length obj"
      "concat (map (piece obj) segs) = obj"
    and finish: "finish_download halted segs target t = (outcome, dk)"
  shows "disk_ok obj segs dk"
    "outcome = Inr True \<Longrightarrow> dk_target dk = Some (File obj) \<and> (\<forall>i. dk_part dk i = None)"
proof -
  have part: "prefix bs (piece obj (segs ! i))"
    if "i < length segs" "tr_parts t i = Some bs" for i bs
    using ok that by (auto simp: threads_ok_def thread_ok_def Let_def)
  have whole: "bs = obj" if "assemble halted (tr_parts t) 0 segs = Inr (Inr bs)" for bs
  proof -
    have "bs = concat (map (piece obj) segs)"
      by (rule assemble_object [OF that]) (use part piece_length [OF segs(1)] in auto)
    with segs(2) show ?thesis by simp
  qed
  have disk: "disk_ok obj segs (to_disk e p)"
    if "prefix (file_bytes e) obj" "\<And>i bs. p i = Some bs \<Longrightarrow> tr_parts t i = Some bs" for e p
    using that part by (intro to_disk_ok) auto
  have "disk_ok obj segs (to_disk target ((tr_parts t)(i := None)))" for i
    by (rule disk [OF target]) (simp split: if_splits)
  then show "disk_ok obj segs dk"
    using finish disk [OF target, of "\<lambda>_. None"] disk [OF target, of "tr_parts t"] whole
      disk [of "Some (File obj)" "\<lambda>_. None"]
    by (auto simp: finish_download_def cleanup_ranges_def split: if_splits option.splits sum.splits)
  show "dk_target dk = Some (File obj) \<and> (\<forall>i. dk_part dk i = None)" if "outcome = Inr True"
    using finish that whole
    by (auto simp: finish_download_def cleanup_ranges_def to_disk_def
        split: if_splits option.splits sum.splits)
qed

text \<open>
  (C19) A download never corrupts the object. If the server sends what it announces and every
  file an earlier attempt left holds the object's bytes, then under every interleaving of the
  transfer threads and whatever the outcome, the files left behind hold the object's bytes again,
  so a later attempt may resume from them; and a download that reports success has replaced the
  target by exactly the object and left no segment file.
\<close>

theorem download_never_corrupts:
  assumes "segments (int (length obj)) workers = Inr segs" "disk_ok obj segs dk"
    and "list_all (honest obj) schedule"
    and "download_ranges (int (length obj)) workers halted schedule dk = Some (outcome, dk')"
  shows "disk_ok obj segs dk' \<and>
    (outcome = Inr True \<longrightarrow> dk_target dk' = Some (File obj) \<and> (\<forall>i. dk_part dk' i = None))"
proof -
  let ?target = "first_target (length obj) dk"
  let ?t = "fold (transfer_move (length obj) segs) schedule
    (start_transfers segs (first_part segs ?target dk))"
  have "finish_download halted segs ?target ?t = (outcome, dk')"
    using assms(1,4) by (auto simp: download_ranges_def Let_def split: if_splits)
  note finished = finish_download_ok [OF transfers_ok [OF start_transfers_ok [OF assms(2)] assms(3)]
      first_target_prefix [OF assms(2)] segments_Inr(2,3) [OF assms(1), simplified] this]
  then show ?thesis by simp
qed

text \<open>Two threads fetch an object of two bytes, the second after the first answer was accepted.\<close>

definition range_answer :: "'b list \<Rightarrow> nat \<Rightarrow> nat \<Rightarrow> 'b answer" where
  "range_answer obj x y =
     Response \<lparr>rs_status = 206, rs_http_error = False, rs_range = Some (x, y, length obj),
       rs_identity = True, rs_chunks = [take (y + 1 - x) (drop x obj)], rs_complete = True\<rparr>"

definition example_schedule :: "char move list" where
  "example_schedule =
     map (\<lambda>i. Move i (range_answer ''ab'' i i)) [0, 1, 0, 1, 0, 1, 1, 0, 1, 0, 1, 0, 1]"

definition empty_disk :: "'b disk" where
  "empty_disk = \<lparr>dk_target = None, dk_part = (\<lambda>_. None)\<rparr>"

theorem download_never_corrupts_witness:
  "\<exists>dk'. download_ranges 2 2 (\<lambda>_. False) example_schedule empty_disk = Some (Inr True, dk') \<and>
     dk_target dk' = Some (File ''ab'')"
proof -
  have segs: "segments (int (length ''ab'')) 2 = Inr [(0, 0), (1, 1)]" by code_simp
  have "disk_ok ''ab'' [(0, 0), (1, 1)] empty_disk" by (simp add: disk_ok_def empty_disk_def)
  moreover have "list_all (honest ''ab'') example_schedule"
    by (simp add: example_schedule_def honest_def range_answer_def)
  moreover have "map_option fst (download_ranges 2 2 (\<lambda>_. False) example_schedule empty_disk)
      = Some (Inr True)"
    by code_simp
  then obtain dk' where
    "download_ranges (int (length ''ab'')) 2 (\<lambda>_. False) example_schedule empty_disk
       = Some (Inr True, dk')"
    by auto
  ultimately show ?thesis using download_never_corrupts [OF segs] by fastforce
qed

end
