(* ===== verification/Range_Control.thy ===== *)
theory Range_Control
  imports Model_Cache_Ranges
begin

text \<open>
  The control side of a ranged download: how many requests a refusal costs, which failure is
  raised, and what the progress callback sees.
\<close>

section \<open>Refusals, failures and progress\<close>

text \<open>A thread saw the range ignored: the whole download falls back.\<close>

definition excused :: "(nat \<times> nat) list \<Rightarrow> 'b transfers \<Rightarrow> bool" where
  "excused segs t \<longleftrightarrow>
     tr_ignored t \<or> (\<exists>i < length segs. tr_phase t i = Raised Range_ignored)"

definition flags_ok :: "(nat \<times> nat) list \<Rightarrow> 'b transfers \<Rightarrow> bool" where
  "flags_ok segs t \<longleftrightarrow>
     (\<not> tr_proven t \<longrightarrow> tr_opened t \<le> (if tr_abort t then 1 else 0)) \<and>
     (tr_abort t \<longrightarrow> tr_failure t \<noteq> None \<or> excused segs t) \<and>
     (tr_failure t = Some Interrupted \<longrightarrow> tr_stop t \<or> excused segs t) \<and>
     (\<forall>i < length segs. tr_phase t i = Raised Interrupted \<longrightarrow>
        tr_stop t \<or> tr_failure t \<noteq> None \<or> excused segs t)"

lemma open_checked_error [simp]: "open_checked n offset stop a \<noteq> Inl Interrupted"
  by (auto simp: open_checked_def split: answer.splits)

lemma move_thread_probe:
  assumes "\<not> tr_proven (move_thread n segs i a t)"
  shows "\<not> tr_proven t" "tr_abort t \<Longrightarrow> tr_abort (move_thread n segs i a t)"
    "tr_opened (move_thread n segs i a t) = tr_opened t \<or>
     \<not> tr_abort t \<and> tr_abort (move_thread n segs i a t) \<and>
     tr_opened (move_thread n segs i a t) = tr_opened t + 1"
  using assms
  by (auto simp: move_thread_def thread_defs interrupted_def
      split: phase.splits list.splits sum.splits transfer_error.splits option.splits if_splits)

lemma move_thread_stop [simp]: "tr_stop (move_thread n segs i a t) = tr_stop t"
  by (auto simp: move_thread_def thread_defs
      split: phase.split list.split sum.split transfer_error.split option.split)

lemma move_thread_failure:
  assumes "tr_failure t \<noteq> None"
  shows "tr_failure (move_thread n segs i a t) = tr_failure t"
proof -
  obtain e where "tr_failure t = Some e" using assms by auto
  then have "tr_failure (move_thread n segs i a t) = Some e"
    by (auto simp: move_thread_def thread_defs
        split: phase.split list.split sum.split transfer_error.split option.split)
  with \<open>tr_failure t = Some e\<close> show ?thesis by simp
qed

lemma move_thread_new_failure:
  assumes "tr_failure t = None" "tr_phase t i \<noteq> Raised Interrupted"
  shows "tr_failure (move_thread n segs i a t) \<noteq> Some Interrupted"
proof (cases "tr_phase t i")
  case (Probing k offset)
  with assms(1) show ?thesis
    by (cases "open_checked n offset (snd (segs ! i)) a")
      (auto simp: move_thread_def thread_defs split: transfer_error.split)
qed (use assms in \<open>auto simp: move_thread_def thread_defs split: list.split sum.split
      transfer_error.split\<close>)

lemma move_thread_ignored:
  "tr_ignored t \<Longrightarrow> tr_ignored (move_thread n segs i a t)"
  "tr_phase t i = Raised Range_ignored \<Longrightarrow> tr_ignored (move_thread n segs i a t)"
  by (auto simp: move_thread_def thread_defs
      split: phase.splits list.splits sum.splits transfer_error.splits option.splits if_splits)

lemma move_thread_abort:
  "tr_abort (move_thread n segs i a t) \<Longrightarrow>
     tr_abort t \<or> tr_failure (move_thread n segs i a t) \<noteq> None \<or>
     tr_phase (move_thread n segs i a t) i = Raised Range_ignored \<or>
     tr_ignored (move_thread n segs i a t)"
  by (auto simp: move_thread_def thread_defs
      split: phase.splits list.splits sum.splits transfer_error.splits option.splits if_splits)

lemma move_thread_interrupted:
  "tr_phase (move_thread n segs i a t) i = Raised Interrupted \<Longrightarrow> interrupted t"
  by (auto simp: move_thread_def thread_defs
      split: phase.splits list.splits sum.splits transfer_error.splits option.splits if_splits)

lemma excused_stays:
  assumes "excused segs t"
  shows "excused segs (move_thread n segs i a t)"
proof (cases "tr_ignored (move_thread n segs i a t)")
  case False
  with assms obtain j where "j < length segs" "tr_phase t j = Raised Range_ignored" "j \<noteq> i"
    using move_thread_ignored(1) [of t n segs i a] move_thread_ignored(2) [of t i n segs a]
    by (auto simp: excused_def)
  with move_thread_others [of i t n segs a] show ?thesis by (auto simp: excused_def others_kept_def)
qed (simp add: excused_def)

lemma move_thread_flags:
  assumes "flags_ok segs t" "i < length segs"
  shows "flags_ok segs (move_thread n segs i a t)"
proof -
  let ?t = "move_thread n segs i a t"
  have opened: "\<not> tr_proven ?t \<longrightarrow> tr_opened ?t \<le> (if tr_abort ?t then 1 else 0)"
    using assms(1) move_thread_probe [of n segs i a t] by (auto simp: flags_ok_def split: if_splits)
  have abort: "tr_abort ?t \<longrightarrow> tr_failure ?t \<noteq> None \<or> excused segs ?t"
    using assms move_thread_abort [of n segs i a t] move_thread_failure [of t n segs i a]
      excused_stays [of segs t n i a]
    by (auto simp: flags_ok_def) (auto simp: excused_def)
  have raised: "tr_stop t \<or> tr_failure t \<noteq> None \<or> excused segs t"
    if "tr_phase t j = Raised Interrupted" "j < length segs" for j
    using assms(1) that by (auto simp: flags_ok_def)
  have failure: "tr_failure ?t = Some Interrupted \<longrightarrow> tr_stop ?t \<or> excused segs ?t"
    using assms move_thread_failure [of t n segs i a] raised [of i] excused_stays [of segs t n i a]
      move_thread_new_failure [of t i n segs a]
    by (cases "tr_failure t") (auto simp: flags_ok_def)
  have "tr_stop ?t \<or> tr_failure ?t \<noteq> None \<or> excused segs ?t"
    if j: "j < length segs" "tr_phase ?t j = Raised Interrupted" for j
  proof (cases "j = i")
    case True
    with j(2) move_thread_interrupted [of n segs i a t] have "tr_stop t \<or> tr_abort t"
      by (auto simp: interrupted_def)
    then have "tr_stop t \<or> tr_failure t \<noteq> None \<or> excused segs t"
      using assms(1) by (auto simp: flags_ok_def)
    then show ?thesis
      using move_thread_failure [of t n segs i a] excused_stays [of segs t n i a] by auto
  next
    case False
    then have "tr_phase t j = Raised Interrupted"
      using move_thread_others [of i t n segs a] j(2) by (simp add: others_kept_def)
    with raised [of j] j(1) show ?thesis
      using move_thread_failure [of t n segs i a] excused_stays [of segs t n i a] by auto
  qed
  with opened abort failure show ?thesis by (auto simp: flags_ok_def)
qed

lemma transfer_move_flags:
  assumes "flags_ok segs t"
  shows "flags_ok segs (transfer_move n segs mv t)"
proof (cases mv)
  case (Move i a)
  with assms show ?thesis by (simp add: transfer_move_def move_thread_flags)
next
  case Stop_event
  with assms show ?thesis by (auto simp: transfer_move_def flags_ok_def excused_def)
qed

lemma transfers_flags:
  "flags_ok segs t \<Longrightarrow> flags_ok segs (fold (transfer_move n segs) schedule t)"
  by (induction schedule arbitrary: t) (simp_all add: transfer_move_flags)

lemma start_transfers_flags: "flags_ok segs (start_transfers segs parts)"
  by (simp add: flags_ok_def start_transfers_def Let_def)

lemma transfer_move_stop: "tr_stop (transfer_move n segs mv t) \<longleftrightarrow> tr_stop t \<or> mv = Stop_event"
  by (cases mv) (simp_all add: transfer_move_def)

lemma stop_scheduled:
  "tr_stop (fold (transfer_move n segs) schedule t) \<longleftrightarrow> tr_stop t \<or> Stop_event \<in> set schedule"
  by (induction schedule arbitrary: t) (auto simp: transfer_move_stop)

text \<open>
  A refusal costs one request: while no range answer has been accepted, at most one request
  has been opened, however the threads interleave and whatever the server answers.
\<close>

lemma refusal_costs_one_request:
  "tr_proven (fold (transfer_move n segs) schedule (start_transfers segs parts)) \<or>
   tr_opened (fold (transfer_move n segs) schedule (start_transfers segs parts)) \<le> 1"
  using transfers_flags [OF start_transfers_flags [of segs parts], of n schedule]
  by (auto simp: flags_ok_def split: if_splits)

text \<open>
  A peer's interruption never replaces the failure that caused it: a download raises
  \<^verbatim>\<open>InterruptedError\<close> only when the stop event was set, during the transfers or the assembly.
\<close>

lemma interruption_needs_a_stop:
  assumes "download_ranges expected_bytes workers halted schedule dk = Some (Inl Interrupted, dk')"
  shows "Stop_event \<in> set schedule \<or> (\<exists>i. halted i)"
proof -
  from assms obtain segs where segs: "segments expected_bytes workers = Inr segs"
    by (auto simp: download_ranges_def split: sum.splits)
  define target where "target = first_target (nat expected_bytes) dk"
  define t where "t = fold (transfer_move (nat expected_bytes) segs) schedule
    (start_transfers segs (first_part segs target dk))"
  have collected: "all_collected segs t" and
    finish: "finish_download halted segs target t = (Inl Interrupted, dk')"
    using assms by (auto simp: download_ranges_def segs t_def target_def Let_def split: if_splits)
  have flags: "flags_ok segs t"
    unfolding t_def by (rule transfers_flags [OF start_transfers_flags])
  have stop: "Stop_event \<in> set schedule" if "tr_stop t"
    using that by (simp add: t_def stop_scheduled) (simp add: start_transfers_def Let_def)
  have "\<not> excused segs t" if "\<not> tr_ignored t"
    using that collected by (auto simp: excused_def all_collected_def list_all_iff)
  with finish flags stop have "Stop_event \<in> set schedule \<or>
      assemble halted (tr_parts t) 0 segs = Inl Interrupted"
    by (auto simp: finish_download_def flags_ok_def split: if_splits option.splits sum.splits)
  moreover have "\<exists>i. halted i" if "assemble halted (tr_parts t) k ss = Inl e" for k ss e
    using that by (induction ss arbitrary: k) (auto split: option.splits if_splits sum.splits)
  ultimately show ?thesis by blast
qed

section \<open>Progress\<close>

lemma resume_part_length:
  assumes "length (opt_or part []) \<le> seg_len (start, stop)"
  shows "length (opt_or (resume_part target (start, stop) part) []) =
    max (length (opt_or part [])) (min (length target) (stop + 1) - start)"
  using assms by (cases part) (auto simp: resume_part_def Let_def not_less)

definition progress_ok :: "(nat \<times> nat) list \<Rightarrow> 'b transfers \<Rightarrow> bool" where
  "progress_ok segs t \<longleftrightarrow> sorted (tr_progress t) \<and> list_all (\<lambda>p. p \<le> counted segs t) (tr_progress t)"

lemma counted_update:
  assumes "i < length segs" "\<And>j. j \<noteq> i \<Longrightarrow> tr_counts t' j = tr_counts t j"
    "tr_counts t i \<le> tr_counts t' i"
  shows "counted segs t \<le> counted segs t'"
  unfolding counted_def
proof (rule sum_list_mono)
  fix j
  show "tr_counts t j \<le> tr_counts t' j" using assms(2,3) by (cases "j = i") auto
qed

lemma move_thread_progress:
  assumes "i < length segs"
  shows "counted segs t \<le> counted segs (move_thread n segs i a t)"
    "tr_progress (move_thread n segs i a t) = tr_progress t \<or>
     tr_progress (move_thread n segs i a t) = tr_progress t @ [counted segs (move_thread n segs i a t)]"
proof -
  show "counted segs t \<le> counted segs (move_thread n segs i a t)"
  proof (rule counted_update [OF assms])
    show "tr_counts (move_thread n segs i a t) j = tr_counts t j" if "j \<noteq> i" for j
      using move_thread_others [of i t n segs a] that by (simp add: others_kept_def)
    show "tr_counts t i \<le> tr_counts (move_thread n segs i a t) i"
      by (auto simp: move_thread_def thread_defs
          split: phase.split list.split sum.split transfer_error.split option.split)
  qed
  show "tr_progress (move_thread n segs i a t) = tr_progress t \<or>
     tr_progress (move_thread n segs i a t) = tr_progress t @ [counted segs (move_thread n segs i a t)]"
    by (auto simp: move_thread_def thread_defs counted_def
        split: phase.split list.split sum.split transfer_error.split option.split)
qed

lemma transfer_move_progress:
  assumes "progress_ok segs t"
  shows "progress_ok segs (transfer_move n segs mv t) \<and>
    (\<exists>rest. tr_progress (transfer_move n segs mv t) = tr_progress t @ rest)"
proof (cases mv)
  case (Move i a)
  show ?thesis
  proof (cases "i < length segs")
    case True
    with assms move_thread_progress [OF True, where t = t and n = n and a = a] show ?thesis
      by (auto simp: transfer_move_def Move progress_ok_def list_all_iff sorted_append)
        (meson order_trans)+
  qed (use assms in \<open>simp add: transfer_move_def Move\<close>)
next
  case Stop_event
  with assms show ?thesis by (simp add: transfer_move_def progress_ok_def counted_def)
qed

lemma transfers_progress:
  "progress_ok segs t \<Longrightarrow> progress_ok segs (fold (transfer_move n segs) schedule t) \<and>
     (\<exists>rest. tr_progress (fold (transfer_move n segs) schedule t) = tr_progress t @ rest)"
proof (induction schedule arbitrary: t)
  case (Cons mv schedule)
  from transfer_move_progress [OF Cons.prems, of n mv] Cons.IH [of "transfer_move n segs mv t"]
  show ?case by auto
qed simp

lemma start_progress_ok: "progress_ok segs (start_transfers segs parts)"
  by (simp add: progress_ok_def start_transfers_def counted_def Let_def)

lemma counted_bound:
  assumes "threads_ok obj segs t" "\<And>a b. (a, b) \<in> set segs \<Longrightarrow> a \<le> b \<and> b < length obj"
    "concat (map (piece obj) segs) = obj"
  shows "counted segs t \<le> length obj"
proof -
  have "counted segs t \<le> sum_list (map (\<lambda>i. seg_len (segs ! i)) [0..<length segs])"
    unfolding counted_def
    using assms(1) by (intro sum_list_mono) (auto simp: threads_ok_def thread_ok_def Let_def)
  also have "map (\<lambda>i. seg_len (segs ! i)) [0..<length segs] = map (\<lambda>seg. length (piece obj seg)) segs"
    using piece_length [OF assms(2)] by (intro nth_equalityI) auto
  also have "sum_list \<dots> = length (concat (map (piece obj) segs))"
    by (simp add: length_concat comp_def)
  finally show ?thesis using assms(3) by simp
qed

lemma start_progress:
  assumes "segments expected_bytes workers = Inr segs"
    and "length (file_bytes (dk_target dk)) \<le> nat expected_bytes"
    and "\<And>i. i < length segs \<Longrightarrow> length (file_bytes (dk_part dk i)) \<le> seg_len (segs ! i)"
  shows "range_partial_bytes expected_bytes workers dk = Inr (counted segs
    (start_transfers segs (first_part segs (first_target (nat expected_bytes) dk) dk)))"
proof -
  let ?target = "first_target (nat expected_bytes) dk"
  have target: "file_bytes ?target = file_bytes (dk_target dk)"
    using assms(2) by (auto simp: first_target_def reset_symlink_def Let_def)
  have part: "opt_or (case reset_symlink (dk_part dk i) of Some (File bs) \<Rightarrow> Some bs | _ \<Rightarrow> None) [] =
      file_bytes (dk_part dk i)" for i
    by (auto simp: reset_symlink_def split: option.splits entry.splits)
  have len: "length (file_bytes (dk_part dk i)) \<le> Suc (snd (segs ! i)) - fst (segs ! i)"
    if "i < length segs" for i
    using assms(3) [OF that] by (cases "segs ! i") simp
  have "length (opt_or (first_part segs ?target dk i) []) =
      max (length (file_bytes (dk_part dk i)))
        (min (length (file_bytes (dk_target dk))) (snd (segs ! i) + 1) - fst (segs ! i))"
    if "i < length segs" for i
    using resume_part_length [of _ "fst (segs ! i)" "snd (segs ! i)" "file_bytes ?target"]
      assms(3) [OF that] that
    by (simp add: first_part_def part target)
  then have "map (\<lambda>i. length (opt_or (first_part segs ?target dk i) [])) [0..<length segs] =
      map (\<lambda>(i, start, stop).
        max (min (length (file_bytes (dk_part dk i))) (stop + 1 - start))
          (min (min (length (file_bytes (dk_target dk))) (nat expected_bytes)) (stop + 1) - start))
        (enumerate 0 segs)"
    using assms(2) len
    by (intro nth_equalityI) (auto simp: nth_enumerate_eq case_prod_beta min_absorb1)
  then show ?thesis
    using assms(1)
    by (simp add: range_partial_bytes_def counted_def start_transfers_def Let_def)
qed

text \<open>
  (C20) Progress starts at what \<^verbatim>\<open>range_partial_bytes\<close> promised, never goes back and never
  exceeds the object: when no file is longer than its place, the first call of the progress
  callback reports exactly the reusable bytes, and the counts it sees afterwards only rise, up to
  the size of the object.
\<close>

theorem progress_counts_up:
  assumes "segments (int (length obj)) workers = Inr segs" "disk_ok obj segs dk"
    and "list_all (honest obj) schedule"
    and "length (file_bytes (dk_target dk)) \<le> length obj"
    and "\<And>i. i < length segs \<Longrightarrow> length (file_bytes (dk_part dk i)) \<le> seg_len (segs ! i)"
  shows "\<exists>reused rest.
    range_partial_bytes (int (length obj)) workers dk = Inr reused \<and>
    tr_progress (fold (transfer_move (length obj) segs) schedule
      (start_transfers segs (first_part segs (first_target (length obj) dk) dk))) = reused # rest \<and>
    sorted (reused # rest) \<and> list_all (\<lambda>p. p \<le> length obj) (reused # rest)"
proof -
  let ?t = "start_transfers segs (first_part segs (first_target (length obj) dk) dk)"
  let ?u = "fold (transfer_move (length obj) segs) schedule ?t"
  have "range_partial_bytes (int (length obj)) workers dk = Inr (counted segs ?t)"
    using start_progress [OF assms(1) _ assms(5)] assms(4) by simp
  moreover have start: "tr_progress ?t = [counted segs ?t]"
    by (simp add: start_transfers_def counted_def Let_def)
  have "progress_ok segs ?u \<and> (\<exists>rest. tr_progress ?u = tr_progress ?t @ rest)"
    by (rule transfers_progress [OF start_progress_ok])
  then obtain rest where "tr_progress ?u = counted segs ?t # rest" and ok: "progress_ok segs ?u"
    by (auto simp: start)
  moreover have "counted segs ?u \<le> length obj"
    by (rule counted_bound [OF transfers_ok [OF start_transfers_ok [OF assms(2)] assms(3)]
          segments_Inr(2,3) [OF assms(1), simplified]]) simp_all
  ultimately show ?thesis using ok by (fastforce simp: progress_ok_def list_all_iff)
qed

theorem progress_counts_up_witness:
  "\<exists>reused rest.
    range_partial_bytes 2 2 (empty_disk\<lparr>dk_target := Some (File ''a'')\<rparr>) = Inr reused \<and>
    tr_progress (fold (transfer_move 2 [(0, 0), (1, 1)]) (Move 0 Open_raised # example_schedule)
      (start_transfers [(0, 0), (1, 1)] (first_part [(0, 0), (1, 1)]
         (first_target 2 (empty_disk\<lparr>dk_target := Some (File ''a'')\<rparr>))
         (empty_disk\<lparr>dk_target := Some (File ''a'')\<rparr>)))) = reused # rest \<and>
    sorted (reused # rest)"
proof -
  have segs: "segments (int (length ''ab'')) 2 = Inr [(0, 0), (1, 1)]" by code_simp
  have "disk_ok ''ab'' [(0, 0), (1, 1)] (empty_disk\<lparr>dk_target := Some (File ''a'')\<rparr>)"
    by (simp add: disk_ok_def empty_disk_def)
  moreover have "list_all (honest ''ab'') (Move 0 Open_raised # example_schedule)"
    by (simp add: example_schedule_def honest_def range_answer_def)
  ultimately show ?thesis
    using progress_counts_up [OF segs, of "empty_disk\<lparr>dk_target := Some (File ''a'')\<rparr>"]
    by (fastforce simp: empty_disk_def numeral_2_eq_2)
qed

text \<open>
  A file that is too long is not reused: \<^verbatim>\<open>range_partial_bytes\<close> counts it in full although the
  download drops it and starts from nothing.
\<close>

definition oversized_disk :: "char disk" where
  "oversized_disk = \<lparr>dk_target = None, dk_part = (\<lambda>_. Some (File ''abc''))\<rparr>"

lemma oversized_part_is_counted:
  "segments 2 1 = Inr [(0, 1)]" "range_partial_bytes 2 1 oversized_disk = Inr 2"
  "counted [(0, 1)] (start_transfers [(0, 1)]
     (first_part [(0, 1)] (first_target 2 oversized_disk) oversized_disk)) = 0"
  by code_simp+

end
