(* ===== verification/Agent_Order_Facts.thy ===== *)
theory Agent_Order_Facts
  imports Stall_Window Waits
begin

text \<open>
  The stored Spark order and its attempts, and the facts about them that the queue and the
  lifecycle adapter share (\<^verbatim>\<open>agent_operation_states.py\<close>, \<^verbatim>\<open>agent_operation_facts.py\<close>): the words
  of an attempt, the launch budget of a start, the crash-loop count and the recovery deadline.

  Of the rows the model keeps the columns this code reads or writes. A payload is what it reads as:
  the aware instant of a start deadline, the bounds of a job run; a result is whether it reads as a
  job's exit and its error code. Which wait a Spark's absence is comes from its owner as
  \<open>waiting_on\<close>.
\<close>

section \<open>Rows\<close>

text \<open>The kinds of \<^verbatim>\<open>AgentOperation\<close>.\<close>

datatype agent_operation =
    Op_RUNTIME_PREFLIGHT | Op_AGENT_UPGRADE | Op_ARTIFACT_DISTRIBUTION | Op_RECIPE_BUILD
  | Op_RECIPE_BUILD_CLEANUP | Op_RECIPE_INSTALL | Op_RECIPE_START | Op_RECIPE_JOB_RUN
  | Op_RECIPE_STOP | Op_RECIPE_UNINSTALL | Op_RECIPE_RECONCILE

primrec agent_operation_value :: "agent_operation \<Rightarrow> string" where
  "agent_operation_value Op_RUNTIME_PREFLIGHT = ''runtime.preflight.v1''"
| "agent_operation_value Op_AGENT_UPGRADE = ''agent.upgrade.v1''"
| "agent_operation_value Op_ARTIFACT_DISTRIBUTION = ''artifact.distribution.v1''"
| "agent_operation_value Op_RECIPE_BUILD = ''recipe.build.v1''"
| "agent_operation_value Op_RECIPE_BUILD_CLEANUP = ''recipe.build.cleanup.v1''"
| "agent_operation_value Op_RECIPE_INSTALL = ''recipe.install''"
| "agent_operation_value Op_RECIPE_START = ''recipe.start''"
| "agent_operation_value Op_RECIPE_JOB_RUN = ''recipe.job.run.v1''"
| "agent_operation_value Op_RECIPE_STOP = ''recipe.stop''"
| "agent_operation_value Op_RECIPE_UNINSTALL = ''recipe.uninstall''"
| "agent_operation_value Op_RECIPE_RECONCILE = ''recipe.reconcile''"

text \<open>
  \<^verbatim>\<open>ObservationCause\<close>. The column holds its words only (every writer stores one of them), so the
  model stores the member.
\<close>

datatype observation_cause = Cause_REPORTED_UNKNOWN | Cause_LEASE_LAPSED

primrec observation_cause_value :: "observation_cause \<Rightarrow> string" where
  "observation_cause_value Cause_REPORTED_UNKNOWN = ''reported-unknown''"
| "observation_cause_value Cause_LEASE_LAPSED = ''lease-lapsed''"

record attempt_result =
  ar_job_run :: "bool option"
  ar_error_code :: "string option"

record order_attempt =
  oa_attempt :: int
  oa_fence :: string
  oa_lease_deadline :: instant
  oa_state :: string
  oa_cause :: "observation_cause option"
  oa_result :: "attempt_result option"
  oa_completed_bytes :: "int option"
  oa_progressed_at :: "instant option"
  oa_serial :: string

record job_run_request =
  jr_output_delivery_only :: bool
  jr_timeout :: "int option"
  jr_stop_timeout :: int

record spark_order =
  so_id :: string
  so_kind :: string
  so_node_id :: string
  so_state :: string
  so_attempt :: int
  so_observe_count :: "int option"
  so_status_reason :: "string option"
  so_recovery_deadline :: "instant option"
  so_wait :: wait_owner
  so_retry_due_at :: "instant option"
  so_created_at :: instant
  so_updated_at :: instant
  so_parent_job_id :: string
  so_ordinal :: "int option"
  so_start_deadline :: "instant option"
  so_job_run :: "job_run_request option"

section \<open>Words\<close>

definition PARKED :: "string list" where
  "PARKED = stored_words Subject_AGENT_OPERATION [S_BACKOFF, S_OBSERVING, S_NEEDS_OPERATOR]"

definition AGGREGATE_FINAL :: "string list" where
  "AGGREGATE_FINAL =
     stored_words Subject_AGENT_OPERATION [S_SUCCEEDED, S_FAILED, S_CANCELLED, S_NEEDS_OPERATOR]"

definition order_is_parked :: "string \<Rightarrow> bool" where
  "order_is_parked stored =
     is_state Subject_AGENT_OPERATION (Some stored) [S_BACKOFF, S_OBSERVING, S_NEEDS_OPERATOR]"

definition attempt_is_observing :: "order_attempt \<Rightarrow> bool" where
  "attempt_is_observing a =
     is_state Subject_AGENT_OPERATION_ATTEMPT (Some (oa_state a)) [S_OBSERVING]"

definition attempt_cause :: "order_attempt \<Rightarrow> observation_cause option" where
  "attempt_cause a = (if attempt_is_observing a then oa_cause a else None)"

definition attempt_lapsed :: "order_attempt \<Rightarrow> bool" where
  "attempt_lapsed a \<longleftrightarrow> attempt_cause a = Some Cause_LEASE_LAPSED"

definition attempt_reported_unknown :: "order_attempt \<Rightarrow> bool" where
  "attempt_reported_unknown a \<longleftrightarrow> attempt_cause a = Some Cause_REPORTED_UNKNOWN"

definition attempt_wire_state :: "order_attempt \<Rightarrow> string" where
  "attempt_wire_state a =
     (if attempt_reported_unknown a then agent_result_state_value R_OBSERVING else oa_state a)"

definition attempt_outcome_key :: "order_attempt \<Rightarrow> string" where
  "attempt_outcome_key a =
     (case attempt_cause a of Some c \<Rightarrow> observation_cause_value c | None \<Rightarrow> oa_state a)"

definition attempt_failed_or_unknown :: "order_attempt \<Rightarrow> bool" where
  "attempt_failed_or_unknown a \<longleftrightarrow> oa_state a = ''failed'' \<or> attempt_reported_unknown a"

definition lapse_attempt :: "order_attempt \<Rightarrow> order_attempt" where
  "lapse_attempt a = a\<lparr>oa_state := ''observing'', oa_cause := Some Cause_LEASE_LAPSED\<rparr>"

text \<open>\<^verbatim>\<open>record_wire_state\<close>: reading the word adopts its retired spelling and refuses any other.\<close>

definition record_wire_state :: "order_attempt \<Rightarrow> string \<Rightarrow> order_attempt result" where
  "record_wire_state a wire =
     res_map
       (\<lambda>s. if s = R_OBSERVING
            then a\<lparr>oa_state := ''observing'', oa_cause := Some Cause_REPORTED_UNKNOWN\<rparr>
            else a\<lparr>oa_state := agent_result_state_value s, oa_cause := None\<rparr>)
       (read_agent_result_state wire)"

section \<open>Interrupted attempts\<close>

definition LIFECYCLE_RESTART_OPERATIONS :: "string list" where
  "LIFECYCLE_RESTART_OPERATIONS =
     map agent_operation_value
       [Op_RECIPE_INSTALL, Op_RECIPE_START, Op_RECIPE_STOP, Op_RECIPE_UNINSTALL, Op_RECIPE_RECONCILE]"

definition RESTART_REISSUE_OPERATIONS :: "string list" where
  "RESTART_REISSUE_OPERATIONS =
     LIFECYCLE_RESTART_OPERATIONS @
     map agent_operation_value
       [Op_ARTIFACT_DISTRIBUTION, Op_RUNTIME_PREFLIGHT, Op_RECIPE_BUILD, Op_RECIPE_BUILD_CLEANUP]"

definition STALLED_INTERRUPTION_LIMIT :: nat where
  "STALLED_INTERRUPTION_LIMIT = 3"

definition STALLED_RETRY_BASE_SECONDS :: int where
  "STALLED_RETRY_BASE_SECONDS = 30"

definition STALLED_RETRY_MAX_SECONDS :: int where
  "STALLED_RETRY_MAX_SECONDS = 600"

definition INTERRUPTION_CODES :: "string list" where
  "INTERRUPTION_CODES = [''agent_restart_interrupted'', ''operation_outcome_uncertain'']"

definition attempt_completed_bytes :: "order_attempt option \<Rightarrow> int" where
  "attempt_completed_bytes a =
     (case a of None \<Rightarrow> 0 | Some a \<Rightarrow> opt_or (oa_completed_bytes a) 0)"

text \<open>\<open>attempts\<close> are all attempts of the order.\<close>

definition advanced_bytes :: "order_attempt list \<Rightarrow> spark_order \<Rightarrow> order_attempt option \<Rightarrow> bool" where
  "advanced_bytes attempts order attempt =
     (case attempt of
        None \<Rightarrow> False
      | Some a \<Rightarrow>
          so_kind order = agent_operation_value Op_ARTIFACT_DISTRIBUTION \<and>
          attempt_completed_bytes attempt >
            (case map (\<lambda>e. attempt_completed_bytes (Some e))
                    (filter (\<lambda>e. oa_attempt e < oa_attempt a) attempts) of
               [] \<Rightarrow> 0
             | b # bs \<Rightarrow> fold max bs b))"

definition interrupted_attempt :: "order_attempt \<Rightarrow> bool" where
  "interrupted_attempt a \<longleftrightarrow>
     attempt_is_observing a \<and>
     (case oa_result a of
        None \<Rightarrow> True
      | Some r \<Rightarrow> (case ar_error_code r of None \<Rightarrow> False | Some c \<Rightarrow> c \<in> set INTERRUPTION_CODES))"

text \<open>The newest attempts first, as many as the longest slowdown can need.\<close>

fun count_stalled :: "order_attempt list \<Rightarrow> nat" where
  "count_stalled [] = 0"
| "count_stalled (a # rest) =
     (let previous = (case rest of [] \<Rightarrow> None | p # _ \<Rightarrow> Some p)
      in if \<not> interrupted_attempt a \<or> attempt_completed_bytes (Some a) > attempt_completed_bytes previous then 0
         else Suc (count_stalled rest))"

definition stalled_interruptions :: "order_attempt list \<Rightarrow> spark_order \<Rightarrow> nat" where
  "stalled_interruptions attempts order =
     (if so_attempt order < 1 then 0
      else count_stalled
        (take (nat (STALLED_RETRY_MAX_SECONDS div STALLED_RETRY_BASE_SECONDS + 2))
          (rev (sort_key oa_attempt (filter (\<lambda>a. oa_attempt a \<le> so_attempt order) attempts)))))"

section \<open>Deadlines\<close>

definition AGENT_ORDER_RECOVERY_BUDGET :: int where
  "AGENT_ORDER_RECOVERY_BUDGET = seconds 3600"

definition AGENT_UPGRADE_RECOVERY_FENCE :: int where
  "AGENT_UPGRADE_RECOVERY_FENCE = seconds 960"

definition START_STALL_WINDOW :: int where
  "START_STALL_WINDOW = seconds 3600"

definition progressed_start_deadline :: "instant \<Rightarrow> instant option \<Rightarrow> instant \<Rightarrow> instant" where
  "progressed_start_deadline accepted progressed now =
     stall_deadline (aware_at (accepted - START_STALL_WINDOW))
       (latest_progress [None, map_option aware_at progressed] (aware_at now)) START_STALL_WINDOW"

definition start_deadline :: "spark_order \<Rightarrow> order_attempt option \<Rightarrow> instant \<Rightarrow> instant option" where
  "start_deadline order attempt now =
     map_option
       (\<lambda>accepted. progressed_start_deadline accepted
          (case attempt of
             None \<Rightarrow> None
           | Some a \<Rightarrow> (if oa_attempt a = so_attempt order then oa_progressed_at a else None)) now)
       (so_start_deadline order)"

text \<open>\<open>started\<close> are the current attempts of the job's start orders.\<close>

definition job_start_deadline :: "order_attempt list \<Rightarrow> instant \<Rightarrow> instant \<Rightarrow> instant" where
  "job_start_deadline started accepted now =
     progressed_start_deadline accepted
       (case List.map_filter oa_progressed_at started of [] \<Rightarrow> None | t # ts \<Rightarrow> Some (fold max ts t))
       now"

definition lapsed_renewal_allowed :: "spark_order \<Rightarrow> order_attempt option \<Rightarrow> instant \<Rightarrow> bool" where
  "lapsed_renewal_allowed order attempt now =
     (case start_deadline order attempt now of None \<Rightarrow> False | Some d \<Rightarrow> now < d)"

definition attempt_holds_open_launch_budget ::
  "spark_order \<Rightarrow> order_attempt option \<Rightarrow> instant \<Rightarrow> bool" where
  "attempt_holds_open_launch_budget order attempt now =
     (case attempt of
        None \<Rightarrow> False
      | Some a \<Rightarrow> oa_attempt a = so_attempt order \<and> oa_state a = ''running'' \<and>
                  lapsed_renewal_allowed order attempt now)"

definition attempt_is_live :: "spark_order \<Rightarrow> order_attempt option \<Rightarrow> instant \<Rightarrow> bool" where
  "attempt_is_live order attempt now =
     (case attempt of
        None \<Rightarrow> False
      | Some a \<Rightarrow> oa_state a = ''running'' \<and>
                  (oa_lease_deadline a > now \<or> attempt_holds_open_launch_budget order attempt now))"

definition attempt_holds_order ::
  "spark_order \<Rightarrow> order_attempt option \<Rightarrow> instant \<Rightarrow> bool \<Rightarrow> bool" where
  "attempt_holds_order order attempt now superseded =
     (if \<not> superseded then attempt_is_live order attempt now
      else (case attempt of
              None \<Rightarrow> False
            | Some a \<Rightarrow> oa_state a = ''running'' \<and> oa_lease_deadline a > now))"

definition current_attempt :: "order_attempt list \<Rightarrow> spark_order \<Rightarrow> order_attempt option" where
  "current_attempt attempts order = find (\<lambda>a. oa_attempt a = so_attempt order) attempts"

definition job_run_bound :: "order_attempt list \<Rightarrow> spark_order \<Rightarrow> instant option" where
  "job_run_bound attempts order =
     (if so_kind order \<noteq> agent_operation_value Op_RECIPE_JOB_RUN then None
      else case (so_job_run order, current_attempt attempts order) of
        (Some jr, Some a) \<Rightarrow>
          Some ((case oa_progressed_at a of
                   None \<Rightarrow> oa_lease_deadline a
                 | Some p \<Rightarrow> max (oa_lease_deadline a) p)
                + seconds (opt_or (jr_timeout jr) 0 + jr_stop_timeout jr))
      | _ \<Rightarrow> None)"

definition job_output_retention_expiry :: "instant \<Rightarrow> instant" where
  "job_output_retention_expiry receipt_observed_at = receipt_observed_at + seconds (24 * 3600)"

definition order_recovery_deadline ::
  "order_attempt list \<Rightarrow> waiting_on \<Rightarrow> spark_order \<Rightarrow> instant \<Rightarrow> instant option" where
  "order_recovery_deadline attempts spark_wait order now =
     map_option
       (\<lambda>stored.
          if so_kind order = agent_operation_value Op_RECIPE_JOB_RUN \<and>
             (case so_job_run order of None \<Rightarrow> False | Some jr \<Rightarrow> jr_output_delivery_only jr)
          then stored
          else max (max stored
            (progress_deadline (aware_at (stored - AGENT_ORDER_RECOVERY_BUDGET)) None
               AGENT_ORDER_RECOVERY_BUDGET (aware_at now) spark_wait))
            (opt_or (job_run_bound attempts order) stored))
       (so_recovery_deadline order)"

section \<open>What the words and the deadlines promise\<close>

lemma is_state_word: "is_state subject (Some w) states \<longleftrightarrow> w \<in> set (stored_words subject states)"
  by (auto simp: is_state_def stored_words_def adopt_state_Some lifecycle_state_value_inj
      split: option.split)

lemma parked_words: "set PARKED = {''backoff'', ''observing'', ''needs-operator''}"
  by code_simp

lemma order_is_parked_iff: "order_is_parked s \<longleftrightarrow> s \<in> {''backoff'', ''observing'', ''needs-operator''}"
  by (simp add: order_is_parked_def is_state_word PARKED_def [symmetric] parked_words)

lemma aggregate_final_words:
  "set AGGREGATE_FINAL = {''succeeded'', ''failed'', ''cancelled'', ''needs-operator''}"
  by code_simp

lemma count_stalled_le: "count_stalled attempts \<le> length attempts"
  by (induction attempts) (auto simp: Let_def)

lemma stalled_interruptions_bound: "stalled_interruptions attempts order \<le> 22"
proof -
  have "count_stalled (take 22 xs) \<le> 22" for xs
    using count_stalled_le [of "take 22 xs"] by simp
  then show ?thesis
    by (simp add: stalled_interruptions_def STALLED_RETRY_MAX_SECONDS_def
        STALLED_RETRY_BASE_SECONDS_def)
qed

text \<open>Progress only moves a start's deadline later, at most a window past now.\<close>

lemma progressed_start_deadline_bounds:
  "accepted \<le> progressed_start_deadline accepted progressed now"
  "progressed_start_deadline accepted progressed now \<le> max accepted (now + START_STALL_WINDOW)"
  by (auto simp: progressed_start_deadline_def stall_deadline_def latest_progress_def
      map_filter_simps Let_def split: option.split)

text \<open>An order whose Spark is away never reaches its recovery deadline.\<close>

lemma absent_spark_is_not_charged:
  assumes "so_recovery_deadline order = Some stored" "list_ex live (owners spark_wait)"
    and "so_kind order \<noteq> agent_operation_value Op_RECIPE_JOB_RUN"
  shows "\<exists>d. order_recovery_deadline attempts spark_wait order now = Some d \<and>
    now + AGENT_ORDER_RECOVERY_BUDGET \<le> d \<and> stored \<le> d"
  using assms
  by (auto simp: order_recovery_deadline_def progress_deadline_def stall_deadline_def Let_def)

end
