(* ===== verification/Agent_Orders.thy ===== *)
theory Agent_Orders
  imports Agent_Order_Facts Jobs Evidence
begin

text \<open>
  The lifecycle adapter of the Spark order (\<^verbatim>\<open>lifecycle/agent_operation.py\<close>): how a stored order is a
  lifecycle row, what the kind answers the core, the one projection of a decision back onto the
  order and its attempt, the writes of a claim and of an owner's decision, and the state of the
  parent job that follows from its orders. A third user of the settle loop.

  The world is the order with all its attempts; an attempt a caller passes is named by its number.
  What is read beside them is the environment: the adapter's clock, the parent's row, the Spark's
  wait, \<^verbatim>\<open>is_deferred_stop\<close> (offline_stops.py) and the orders that the queue would resume. Calls of
  \<^verbatim>\<open>note_success\<close> (evidence_repeats.py) are recorded in the order they are made. Datetimes are in UTC.
\<close>

section \<open>Data\<close>

text \<open>The cancel request in a parent's result; its instant may be missing, damaged or naive.\<close>

record cancel_note =
  cn_requested :: bool
  cn_at :: "datetime option"
  cn_key :: "string option"

record parent_job =
  pj_id :: string
  pj_kind :: string
  pj_owner_kind :: "string option"
  pj_state :: string
  pj_status_reason :: "string option"
  pj_updated_at :: instant
  pj_result :: "cancel_note option"

record order_env =
  oe_clock :: instant
  oe_parent :: "parent_job option"
  oe_spark_wait :: waiting_on
  oe_deferred_stop :: "parent_job \<Rightarrow> spark_order \<Rightarrow> bool"
  oe_candidates :: "string list option"

record order_world =
  ow_order :: spark_order
  ow_attempts :: "order_attempt list"
  ow_successes :: "(string \<times> string \<times> instant) list"

definition IRREVERSIBLE_OPERATIONS :: "string list" where
  "IRREVERSIBLE_OPERATIONS = [agent_operation_value Op_RECIPE_JOB_RUN]"

definition ENDED_PARENT_STATES :: "string list" where
  "ENDED_PARENT_STATES = stored_words Subject_JOB [S_SUCCEEDED, S_FAILED, S_CANCELLED]"

definition OPERATOR_ACTIONS :: "string list" where
  "OPERATOR_ACTIONS = [action A_RESUME, action A_RETIRE]"

definition is_artifact_owned :: "parent_job option \<Rightarrow> bool" where
  "is_artifact_owned parent =
     (case parent of
        None \<Rightarrow> False
      | Some p \<Rightarrow> pj_kind p = agent_operation_value Op_RECIPE_JOB_RUN
                  \<and> pj_owner_kind p = Some ''artifact-job'')"

definition receipt_effect :: "order_attempt option \<Rightarrow> lifecycle_effect option" where
  "receipt_effect attempt =
     (case attempt of
        None \<Rightarrow> None
      | Some a \<Rightarrow>
          (if oa_state a = ''cancelled''
              \<or> (case oa_result a of None \<Rightarrow> False | Some r \<Rightarrow> ar_job_run r \<noteq> None)
           then Some E_STOPPED else None))"

text \<open>\<^verbatim>\<open>operation.observe_count or 0\<close>.\<close>

abbreviation looks :: "spark_order \<Rightarrow> int" where
  "looks order \<equiv> opt_or (so_observe_count order) 0"

abbreviation order_due :: "spark_order \<Rightarrow> instant option" where
  "order_due order \<equiv> wo_next_action_at (so_wait order)"

definition retry_scheduled :: "spark_order \<Rightarrow> instant option" where
  "retry_scheduled order =
     (if \<not> order_is_parked (so_state order) \<or> so_state order = ''needs-operator'' then None
      else if looks order = 0 then order_due order else None)"

definition cancel_requested_at ::
  "parent_job option \<Rightarrow> instant \<Rightarrow> instant option \<times> string option" where
  "cancel_requested_at parent now =
     (case parent of
        None \<Rightarrow> (None, None)
      | Some p \<Rightarrow>
          (case pj_result p of
             None \<Rightarrow> (None, None)
           | Some note \<Rightarrow>
               (if \<not> cn_requested note then (None, None)
                else (Some (case cn_at note of
                              None \<Rightarrow> now
                            | Some d \<Rightarrow> (if aware_flag d then at d else now)),
                      cn_key note))))"

section \<open>Adopting a stored order\<close>

definition order_state :: "spark_order \<Rightarrow> lifecycle_state" where
  "order_state order =
     (let stored = so_state order
      in if stored = ''queued'' then S_QUEUED
         else if stored = ''running'' then S_RUNNING
         else if stored = ''needs-operator'' then S_NEEDS_OPERATOR
         else if stored \<in> set PARKED
         then (if retry_scheduled order \<noteq> None then S_BACKOFF
               else if order_due order \<noteq> None then S_OBSERVING else S_NEEDS_OPERATOR)
         else if stored = ''succeeded'' then S_SUCCEEDED
         else if stored = ''failed'' then S_FAILED
         else if stored = ''cancelled'' then S_CANCELLED
         else S_NEEDS_OPERATOR)"

definition order_lease :: "spark_order \<Rightarrow> order_attempt option \<Rightarrow> instant \<Rightarrow> instant option" where
  "order_lease order attempt now =
     (case attempt of
        None \<Rightarrow> None
      | Some a \<Rightarrow>
          (if so_state order = ''running'' \<and> oa_state a = ''running''
           then Some (if attempt_holds_open_launch_budget order attempt now
                      then max (oa_lease_deadline a) (the (start_deadline order attempt now))
                      else oa_lease_deadline a)
           else None))"

definition order_lifecycle ::
  "order_env \<Rightarrow> order_world \<Rightarrow> order_attempt option \<Rightarrow> parent_job option \<Rightarrow> instant \<Rightarrow> lifecycle" where
  "order_lifecycle env w attempt parent now =
     (let order = ow_order w;
          state = order_state order;
          lease = order_lease order attempt now;
          (requested, key) = cancel_requested_at parent now;
          ended = (case parent of
            None \<Rightarrow> False
          | Some p \<Rightarrow> pj_state p \<in> set ENDED_PARENT_STATES \<and> \<not> oe_deferred_stop env p order)
      in \<lparr>lc_id = so_id order, lc_kind = so_kind order, lc_state = state,
          lc_attempt = so_attempt order, lc_fence = map_option oa_fence attempt,
          lc_lease_deadline = lease,
          lc_next_action_at =
            (if state = S_RUNNING then lease
             else if state = S_BACKOFF \<or> state = S_OBSERVING then order_due order else None),
          lc_recovery_deadline =
            order_recovery_deadline (ow_attempts w) (oe_spark_wait env) order now,
          lc_retry_count = max (so_attempt order - 1) 0, lc_observe_count = looks order,
          lc_intent_ordinal = so_ordinal order,
          lc_cancel_requested_at = (if requested = None \<and> ended then Some now else requested),
          lc_cancel_request_key = key,
          lc_effect = (if state = S_SUCCEEDED then E_ESTABLISHED
                       else if state = S_CANCELLED then E_STOPPED
                       else if so_attempt order = 0 then E_NONE
                       else if state = S_RUNNING then E_ISSUED else E_UNKNOWN),
          lc_reason = so_status_reason order, lc_owner_id = Some (so_parent_job_id order)\<rparr>)"

abbreviation attempt_of :: "order_world \<Rightarrow> order_attempt option" where
  "attempt_of w \<equiv> current_attempt (ow_attempts w) (ow_order w)"

definition order_adopt :: "order_env \<Rightarrow> order_world \<Rightarrow> lifecycle" where
  "order_adopt env w = order_lifecycle env w (attempt_of w) (oe_parent env) (oe_clock env)"

section \<open>The kind's facts\<close>

text \<open>\<^verbatim>\<open>session.get(StoredOperation, row.id)\<close>.\<close>

definition stored_order :: "order_world \<Rightarrow> string \<Rightarrow> spark_order option" where
  "stored_order w ident = (if so_id (ow_order w) = ident then Some (ow_order w) else None)"

definition retry_delay :: "nat \<Rightarrow> int" where
  "retry_delay stalled =
     min (STALLED_RETRY_BASE_SECONDS * 2 ^ (stalled - STALLED_INTERRUPTION_LIMIT))
       STALLED_RETRY_MAX_SECONDS"

definition order_retry_not_before ::
  "order_world \<Rightarrow> lifecycle \<Rightarrow> instant \<Rightarrow> instant option" where
  "order_retry_not_before w row now =
     (if lc_kind row = agent_operation_value Op_AGENT_UPGRADE
      then Some (now + AGENT_UPGRADE_RECOVERY_FENCE)
      else if lc_attempt row < int STALLED_INTERRUPTION_LIMIT then None
      else (let stalled = (case stored_order w (lc_id row) of
                  None \<Rightarrow> 0 | Some order \<Rightarrow> stalled_interruptions (ow_attempts w) order)
            in if stalled \<ge> STALLED_INTERRUPTION_LIMIT
               then Some (now + seconds (retry_delay stalled)) else None))"

definition order_observe :: "lifecycle \<Rightarrow> order_world \<Rightarrow> lifecycle_effect" where
  "order_observe row w =
     (let attempt = (case stored_order w (lc_id row) of
            None \<Rightarrow> None
          | Some order \<Rightarrow> (if so_attempt order \<noteq> lc_attempt row then None else attempt_of w));
          pending = (case attempt of
            None \<Rightarrow> False
          | Some a \<Rightarrow> (case oa_result a of None \<Rightarrow> False | Some r \<Rightarrow> ar_job_run r = Some True))
      in if pending then E_NONE else opt_or (receipt_effect attempt) E_UNKNOWN)"

definition order_stop :: "order_env \<Rightarrow> lifecycle \<Rightarrow> order_world \<Rightarrow> stop_outcome" where
  "order_stop env row w =
     (case stored_order w (lc_id row) of
        None \<Rightarrow> Stop_CONFIRMED
      | Some order \<Rightarrow>
          (if attempt_is_live order (attempt_of w) (oe_clock env)
              \<or> (so_kind order \<in> set IRREVERSIBLE_OPERATIONS \<and> so_attempt order > 0)
           then Stop_UNCONFIRMED else Stop_CONFIRMED))"

definition order_actions :: "order_env \<Rightarrow> lifecycle \<Rightarrow> string list" where
  "order_actions env row =
     (if lc_owner_id row = None then []
      else if is_artifact_owned (oe_parent env)
      then (if cancel_requested row then [] else [action A_STOP])
      else (case oe_candidates env of
              None \<Rightarrow> []
            | Some ids \<Rightarrow> (if lc_id row \<in> set ids then OPERATOR_ACTIONS else [])))"

definition order_view :: "order_env \<Rightarrow> order_world \<Rightarrow> adapter" where
  "order_view env w =
     \<lparr>ad_irreversible = (\<lambda>row. lc_kind row \<in> set IRREVERSIBLE_OPERATIONS),
      ad_retry_not_before = order_retry_not_before w,
      ad_recovery_deadline = (\<lambda>_. None), ad_actions = order_actions env\<rparr>"

definition order_kind_adapter :: "order_env \<Rightarrow> order_world kind_adapter" where
  "order_kind_adapter env =
     \<lparr>ka_view = order_view env,
      ka_observe = (\<lambda>row w. (w, Some (order_observe row w, None))),
      ka_stop = (\<lambda>row w. (w, Some (order_stop env row w))),
      ka_execute = (\<lambda>_ _ w. w)\<rparr>"

section \<open>Writing a decision\<close>

text \<open>
  \<^verbatim>\<open>datetime.isoformat\<close> of a UTC instant: the civil date of a day number and the time of day, the
  microseconds only when there are any.
\<close>

definition pad :: "nat \<Rightarrow> int \<Rightarrow> string" where
  "pad width n = (let s = show_int n in replicate (width - length s) (CHR ''0'') @ s)"

definition civil :: "int \<Rightarrow> int \<times> int \<times> int" where
  "civil days =
     (let z = days + 719468; era = z div 146097; doe = z mod 146097;
          yoe = (doe - doe div 1460 + doe div 36524 - doe div 146096) div 365;
          doy = doe - (365 * yoe + yoe div 4 - yoe div 100);
          mp = (5 * doy + 2) div 153;
          m = (if mp < 10 then mp + 3 else mp - 9)
      in (yoe + era * 400 + (if m \<le> 2 then 1 else 0), m, doy - (153 * mp + 2) div 5 + 1))"

definition isoformat :: "instant \<Rightarrow> string" where
  "isoformat t =
     (let day = seconds 86400; (y, m, d) = civil (t div day); clock = t mod day;
          s = clock div seconds 1; micro = clock mod seconds 1
      in pad 4 y @ ''-'' @ pad 2 m @ ''-'' @ pad 2 d @ ''T'' @ pad 2 (s div 3600) @ '':''
           @ pad 2 (s div 60 mod 60) @ '':'' @ pad 2 (s mod 60)
           @ (if micro = 0 then [] else ''.'' @ pad 6 micro) @ ''+00:00'')"

text \<open>\<^verbatim>\<open>_stored\<close>.\<close>

definition order_stored ::
  "spark_order \<Rightarrow> lifecycle \<Rightarrow> instant \<Rightarrow> string \<times> instant option" where
  "order_stored order after now =
     (let due_or_now = Some (opt_or (lc_next_action_at after) now)
      in case lc_state after of
           S_QUEUED \<Rightarrow> (if so_attempt order = 0 then (''queued'', None) else (''backoff'', due_or_now))
         | S_BACKOFF \<Rightarrow> (if so_attempt order = 0 then (''queued'', None) else (''backoff'', due_or_now))
         | S_OBSERVING \<Rightarrow> (''observing'', due_or_now)
         | S_NEEDS_OPERATOR \<Rightarrow> (''needs-operator'', None)
         | S_RUNNING \<Rightarrow> (''running'', None)
         | S_SUCCEEDED \<Rightarrow> (''succeeded'', None)
         | S_FAILED \<Rightarrow> (''failed'', None)
         | S_CANCELLED \<Rightarrow> (''cancelled'', None)
         | S_SUPERSEDED \<Rightarrow> (''observing'', due_or_now))"

definition scheduled_reason ::
  "order_attempt list \<Rightarrow> spark_order \<Rightarrow> lifecycle \<Rightarrow> string option \<Rightarrow> string" where
  "scheduled_reason attempts order after event_reason =
     (case lc_next_action_at after of
        None \<Rightarrow> str_or_else event_reason ''exact effect awaiting bounded observation''
      | Some t \<Rightarrow>
          (let stalled = stalled_interruptions attempts order;
               note = (if so_kind order = agent_operation_value Op_AGENT_UPGRADE
                 then ''agent upgrade retries automatically after '' @ isoformat t
                 else if stalled \<ge> STALLED_INTERRUPTION_LIMIT
                 then so_kind order @ '' was interrupted '' @ show_int (int stalled)
                   @ '' times in a row (agent restart or lapsed lease) without copying new bytes; ''
                   @ ''retry slowed to '' @ isoformat t
                 else ''exact '' @ so_kind order @ '' interrupted; retry scheduled at ''
                   @ isoformat t);
               full = note @ (case so_recovery_deadline order of
                 None \<Rightarrow> [] | Some d \<Rightarrow> ''; recovery deadline '' @ isoformat d)
           in case event_reason of
                None \<Rightarrow> full
              | Some r \<Rightarrow> (if r = [] then full else r @ ''; '' @ full)))"

text \<open>\<^verbatim>\<open>_fence_upgrade_attempt\<close>.\<close>

definition fence_upgrade_attempt ::
  "spark_order \<Rightarrow> order_attempt \<Rightarrow> instant option \<Rightarrow> order_attempt \<times> bool" where
  "fence_upgrade_attempt order a not_before =
     (case not_before of
        None \<Rightarrow> (a, False)
      | Some t \<Rightarrow>
          (if so_kind order \<noteq> agent_operation_value Op_AGENT_UPGRADE then (a, False)
           else
             (let (b, changed) =
                (if oa_state a = ''running'' then (lapse_attempt a, True)
                 else if \<not> (oa_state a = ''failed'' \<or> attempt_is_observing a)
                 then (a\<lparr>oa_state := ''observing'', oa_cause := Some Cause_REPORTED_UNKNOWN\<rparr>, True)
                 else (a, False))
              in if oa_lease_deadline b < t then (b\<lparr>oa_lease_deadline := t\<rparr>, True)
                 else (b, changed))))"

text \<open>The order's identity as a wait owner, and \<^verbatim>\<open>schedule_wait\<close> on it.\<close>

definition schedule_order :: "spark_order \<Rightarrow> instant option \<Rightarrow> spark_order result" where
  "schedule_order order next_check =
     (case next_check of
        None \<Rightarrow> Inr (order\<lparr>so_wait := fst (clear_wait (so_wait order))\<rparr>)
      | Some _ \<Rightarrow>
          res_bind (blocking_operation_of (so_id order) (wait_owner_kind_value Wok_AGENT_OPERATION))
            (\<lambda>ident. res_map (\<lambda>(wait, _). order\<lparr>so_wait := wait\<rparr>)
               (schedule_wait (so_wait order) ident Wok_AGENT_OPERATION (Some (so_updated_at order))
                  next_check None [] None None)))"

definition begin_recovery :: "spark_order \<Rightarrow> instant \<Rightarrow> spark_order" where
  "begin_recovery order now =
     order\<lparr>so_recovery_deadline :=
       Some (stall_deadline (aware_at now) None AGENT_ORDER_RECOVERY_BUDGET)\<rparr>"

text \<open>A missing or damaged receipt is also a first uncertainty.\<close>

definition doubted_order :: "spark_order \<Rightarrow> lifecycle \<Rightarrow> instant \<Rightarrow> spark_order" where
  "doubted_order order after now =
     (if so_recovery_deadline order = None \<and> so_attempt order > 0
         \<and> lc_state after \<in> {S_OBSERVING, S_BACKOFF}
      then begin_recovery order now else order)"

definition applied_reason ::
  "order_attempt list \<Rightarrow> spark_order \<Rightarrow> lifecycle \<Rightarrow> lifecycle \<Rightarrow> string option" where
  "applied_reason attempts order before after =
     map_option (take 512)
       (if lc_state after = S_BACKOFF \<and> so_attempt order = 0
        then str_or (lc_reason after) (Some ''queued again; it never ran'')
        else if lc_state after = S_BACKOFF \<and>
          (lc_state before \<noteq> S_BACKOFF \<or> lc_next_action_at after \<noteq> lc_next_action_at before)
        then Some (scheduled_reason attempts order after (lc_reason after))
        else lc_reason after)"

text \<open>The rewrite of the order's own columns.\<close>

definition write_order ::
  "spark_order \<Rightarrow> string \<Rightarrow> instant option \<Rightarrow> int \<Rightarrow> string option \<Rightarrow> instant
     \<Rightarrow> (spark_order \<times> bool) result" where
  "write_order order state next_action seen reason now =
     (if so_state order \<noteq> state \<or> order_due order \<noteq> next_action \<or> looks order \<noteq> seen
         \<or> (reason \<noteq> None \<and> so_status_reason order \<noteq> reason)
      then res_map
        (\<lambda>o'. (o'\<lparr>so_observe_count := Some seen,
                  so_status_reason := (case reason of None \<Rightarrow> so_status_reason order | Some r \<Rightarrow> Some r),
                  so_retry_due_at := None, so_updated_at := now\<rparr>, True))
        (schedule_order (order\<lparr>so_state := state\<rparr>) next_action)
      else Inr (order, False))"

text \<open>The attempt as a decision leaves it, first before and then after the order is written.\<close>

definition leave_running ::
  "order_attempt option \<Rightarrow> lifecycle \<Rightarrow> lifecycle \<Rightarrow> order_attempt option \<times> bool" where
  "leave_running attempt before after =
     (case attempt of
        None \<Rightarrow> (None, False)
      | Some a \<Rightarrow>
          (if lc_state before = S_RUNNING \<and> lc_state after \<notin> {S_RUNNING, S_SUCCEEDED, S_FAILED}
              \<and> oa_state a = ''running''
           then (Some (lapse_attempt a), True) else (Some a, False)))"

definition close_attempt ::
  "spark_order \<Rightarrow> order_attempt option \<Rightarrow> lifecycle \<Rightarrow> instant option
     \<Rightarrow> order_attempt option \<times> bool" where
  "close_attempt order attempt after next_action =
     (case attempt of
        None \<Rightarrow> (None, False)
      | Some a \<Rightarrow>
          (if lc_state after \<in> {S_SUCCEEDED, S_FAILED, S_CANCELLED}
              \<and> attempt_is_observing a \<and> \<not> attempt_lapsed a
           then (Some (lapse_attempt a), True)
           else if lc_state after = S_BACKOFF
           then map_prod Some id (fence_upgrade_attempt order a next_action)
           else (Some a, False)))"

definition order_apply ::
  "(string \<Rightarrow> bool) \<Rightarrow> order_attempt list \<Rightarrow> spark_order \<Rightarrow> order_attempt option \<Rightarrow> lifecycle
     \<Rightarrow> lifecycle \<Rightarrow> instant
     \<Rightarrow> (spark_order \<times> order_attempt option \<times> bool \<times> bool) result" where
  "order_apply declared attempts given attempt before after now =
     (let order = doubted_order given after now;
          (state, next_action) = order_stored order after now;
          reason = applied_reason attempts order before after;
          (a1, left) = leave_running attempt before after;
          seen = (if lc_state after = S_OBSERVING then lc_observe_count after else 0)
      in res_bind (write_order order state next_action seen reason now) (\<lambda>(o1, written).
           let (a2, closed) = close_attempt o1 a1 after next_action;
               cleared = (lc_state after = S_SUCCEEDED \<and> lc_state before \<noteq> S_SUCCEEDED)
           in res_map
                (\<lambda>(wait, waited).
                   (o1\<lparr>so_wait := wait\<rparr>, a2, left \<or> written \<or> closed \<or> waited, cleared))
                (lifecycle_wait declared (so_wait o1) (so_id o1) Wok_AGENT_OPERATION
                   (lc_state after) now next_action (lc_reason after) None []
                   (lc_recovery_deadline after) (cancel_requested after)
                   (lc_lease_deadline after) None)))"

text \<open>The attempt row with its number is replaced; the other attempts stay.\<close>

definition put_attempt :: "order_attempt option \<Rightarrow> order_attempt list \<Rightarrow> order_attempt list" where
  "put_attempt a attempts =
     (case a of
        None \<Rightarrow> attempts
      | Some a \<Rightarrow> map (\<lambda>b. if oa_attempt b = oa_attempt a then a else b) attempts)"

abbreviation attempt_row :: "order_attempt list \<Rightarrow> int option \<Rightarrow> order_attempt option" where
  "attempt_row attempts n \<equiv>
     (case n of None \<Rightarrow> None | Some k \<Rightarrow> find (\<lambda>a. oa_attempt a = k) attempts)"

definition apply_order ::
  "(string \<Rightarrow> bool) \<Rightarrow> int option \<Rightarrow> lifecycle \<Rightarrow> lifecycle \<Rightarrow> instant \<Rightarrow> order_world
     \<Rightarrow> (order_world \<times> bool) result" where
  "apply_order declared n before after now w =
     res_map
       (\<lambda>(order, a, changed, cleared).
          (w\<lparr>ow_order := order, ow_attempts := put_attempt a (ow_attempts w),
             ow_successes := ow_successes w @
               (if cleared then [(so_kind order, so_node_id order, now)] else [])\<rparr>, changed))
       (order_apply declared (ow_attempts w) (ow_order w) (attempt_row (ow_attempts w) n)
          before after now)"

definition order_writer ::
  "(string \<Rightarrow> bool) \<Rightarrow> int option \<Rightarrow> instant \<Rightarrow> order_world row_writer" where
  "order_writer declared n now =
     \<lparr>rw_save = (\<lambda>before after w.
        res_map (\<lambda>(w', _). (w', True)) (apply_order declared n before after now w)),
      rw_residue = (\<lambda>_ reason w.
        w\<lparr>ow_order := (ow_order w)\<lparr>so_status_reason := Some (take 512 reason)\<rparr>\<rparr>)\<rparr>"

section \<open>Settle\<close>

definition first_uncertainty :: "event \<Rightarrow> bool" where
  "first_uncertainty ev =
     (case ev of
        LeaseLapsed _ \<Rightarrow> True
      | Reported r \<Rightarrow> rp_outcome r = O_UNKNOWN \<or> (rp_outcome r = O_FAILED \<and> rp_retryable r)
      | _ \<Rightarrow> False)"

definition execution_event :: "event \<Rightarrow> bool" where
  "execution_event ev = (case ev of LeaseLapsed _ \<Rightarrow> True | Reported _ \<Rightarrow> True | _ \<Rightarrow> False)"

definition charge_recovery ::
  "order_env \<Rightarrow> order_world \<Rightarrow> order_attempt option \<Rightarrow> event \<Rightarrow> instant \<Rightarrow> spark_order" where
  "charge_recovery env w attempt ev now =
     (let order = ow_order w
      in if so_recovery_deadline order = None
         then (if first_uncertainty ev then begin_recovery order now else order)
         else if execution_event ev \<and> advanced_bytes (ow_attempts w) order attempt
         then begin_recovery order now
         else order\<lparr>so_recovery_deadline :=
                order_recovery_deadline (ow_attempts w) (oe_spark_wait env) order now\<rparr>)"

definition order_settle ::
  "(string \<Rightarrow> string) \<Rightarrow> (string \<Rightarrow> bool) \<Rightarrow> order_env \<Rightarrow> int option \<Rightarrow> parent_job option \<Rightarrow> event
     \<Rightarrow> instant \<Rightarrow> order_world \<Rightarrow> (order_world \<times> settled) result" where
  "order_settle sha256 declared env given parent ev now w =
     (let n = (case given of
            Some k \<Rightarrow> Some k
          | None \<Rightarrow> (if so_attempt (ow_order w) > 0 then Some (so_attempt (ow_order w)) else None));
          attempt = attempt_row (ow_attempts w) n;
          owner = (case parent of Some p \<Rightarrow> Some p | None \<Rightarrow> oe_parent env);
          w1 = w\<lparr>ow_order := charge_recovery env w attempt ev now\<rparr>
      in settle sha256 (order_kind_adapter env) (order_writer declared n now)
           (order_lifecycle env w1 attempt owner now) ev now MAX_STEPS_PER_ROW w1)"

definition order_decide ::
  "(string \<Rightarrow> string) \<Rightarrow> order_env \<Rightarrow> order_attempt option \<Rightarrow> parent_job option \<Rightarrow> event
     \<Rightarrow> instant \<Rightarrow> order_world \<Rightarrow> decision result" where
  "order_decide sha256 env attempt parent ev now w =
     transition sha256 (order_lifecycle env w attempt parent now) ev (order_view env w) now"

section \<open>Claim writes\<close>

text \<open>\<open>progress\<close> is what the claim's first sample reads as: its bytes and its last progress.\<close>

definition issue_attempt ::
  "string \<Rightarrow> string \<Rightarrow> instant \<Rightarrow> instant \<Rightarrow> (int option \<times> instant option) option \<Rightarrow> order_world
     \<Rightarrow> order_world \<times> order_attempt" where
  "issue_attempt serial fence deadline now progress w =
     (let order = ow_order w;
          attempt =
            \<lparr>oa_attempt = so_attempt order + 1, oa_fence = fence, oa_lease_deadline = deadline,
             oa_state = ''running'', oa_cause = None, oa_result = None,
             oa_completed_bytes = (case progress of None \<Rightarrow> None | Some (b, _) \<Rightarrow> b),
             oa_progressed_at = (case progress of None \<Rightarrow> None | Some (_, t) \<Rightarrow> t),
             oa_serial = serial\<rparr>
      in (w\<lparr>ow_order := order\<lparr>so_attempt := so_attempt order + 1, so_state := ''running'',
              so_wait := fst (clear_wait (so_wait order)), so_observe_count := Some 0,
              so_retry_due_at := None, so_status_reason := None, so_updated_at := now\<rparr>,
            ow_attempts := ow_attempts w @ [attempt]\<rparr>, attempt))"

definition start_attempt ::
  "(string \<Rightarrow> string) \<Rightarrow> (string \<Rightarrow> bool) \<Rightarrow> order_env \<Rightarrow> parent_job option \<Rightarrow> string \<Rightarrow> string
     \<Rightarrow> instant \<Rightarrow> instant \<Rightarrow> (int option \<times> instant option) option \<Rightarrow> order_world
     \<Rightarrow> (order_world \<times> order_attempt option) result" where
  "start_attempt sha256 declared env parent serial fence deadline now progress w =
     (if (case order_recovery_deadline (ow_attempts w) (oe_spark_wait env) (ow_order w) now of
            None \<Rightarrow> False | Some d \<Rightarrow> d \<le> now)
      then res_map (\<lambda>(w', _). (w', None))
             (order_settle sha256 declared env (map_option oa_attempt (attempt_of w)) parent Tick now w)
      else
        (let row = order_lifecycle env w (attempt_of w) parent now
         in res_map
              (\<lambda>d. if lc_state (d_row d) \<noteq> S_RUNNING then (w, None)
                   else map_prod id Some (issue_attempt serial fence deadline now progress w))
              (transition sha256 row (Claimed (lc_attempt row + 1) fence deadline)
                 (order_view env w) now)))"

definition reject_attempt ::
  "string \<Rightarrow> string \<Rightarrow> instant \<Rightarrow> attempt_result \<Rightarrow> order_world \<Rightarrow> order_world \<times> order_attempt" where
  "reject_attempt serial fence now outcome w =
     (let order = ow_order w;
          attempt =
            \<lparr>oa_attempt = so_attempt order + 1, oa_fence = fence, oa_lease_deadline = now,
             oa_state = ''failed'', oa_cause = None, oa_result = Some outcome,
             oa_completed_bytes = None, oa_progressed_at = None, oa_serial = serial\<rparr>
      in (w\<lparr>ow_order := order\<lparr>so_attempt := so_attempt order + 1, so_state := ''failed'',
              so_wait := fst (clear_wait (so_wait order)), so_updated_at := now\<rparr>,
            ow_attempts := ow_attempts w @ [attempt]\<rparr>, attempt))"

text \<open>\<^verbatim>\<open>new_order\<close> with \<^verbatim>\<open>initialize_wait\<close>; \<open>given\<close> has its identity.\<close>

definition new_order :: "(string \<Rightarrow> bool) \<Rightarrow> spark_order \<Rightarrow> spark_order result" where
  "new_order declared given =
     (let order = given\<lparr>so_state := ''queued''\<rparr>
      in res_map (\<lambda>(wait, _). order\<lparr>so_wait := wait\<rparr>)
           (lifecycle_wait declared (so_wait order) (so_id order) Wok_AGENT_OPERATION S_QUEUED
              (so_created_at order) (order_due order) None None [] None False None None))"

section \<open>An owner's decision\<close>

definition reopen :: "instant \<Rightarrow> spark_order \<Rightarrow> spark_order" where
  "reopen now order =
     order\<lparr>so_state := ''observing'', so_wait := fst (clear_wait (so_wait order)),
           so_observe_count := Some 0, so_retry_due_at := None, so_updated_at := now\<rparr>"

definition owner_report :: "outcome_kind \<Rightarrow> string option \<Rightarrow> report" where
  "owner_report outcome reason =
     (case outcome of
        O_FAILED \<Rightarrow> failed_report (Cause_disposition D_FAIL) None None reason None
      | O_CANCELLED \<Rightarrow> (plain_report O_CANCELLED)\<lparr>rp_reason := reason\<rparr>
      | O_UNKNOWN \<Rightarrow> (plain_report O_UNKNOWN)\<lparr>rp_reason := reason\<rparr>
      | O_DONE \<Rightarrow> (plain_report O_DONE)\<lparr>rp_reason := reason\<rparr>)"

definition record_outcome ::
  "(string \<Rightarrow> string) \<Rightarrow> (string \<Rightarrow> bool) \<Rightarrow> order_env \<Rightarrow> int option \<Rightarrow> parent_job option
     \<Rightarrow> outcome_kind \<Rightarrow> instant \<Rightarrow> string option \<Rightarrow> bool \<Rightarrow> order_world \<times> book
     \<Rightarrow> (order_world \<times> book) result" where
  "record_outcome sha256 declared env given parent outcome now reason replaces_report wb =
     (let (w, b) = wb;
          order = ow_order w;
          ended = so_state order \<in> {''succeeded'', ''failed'', ''cancelled''}
      in if ended \<and> \<not> replaces_report
         then Inr (w, keep_recorded_outcome ''agent-operation'' (so_id order) (so_state order)
                        (Some (outcome_kind_value outcome)) b)
         else res_map (\<lambda>(w', _). (w', b))
                (order_settle sha256 declared env given parent
                   (Reported (owner_report outcome reason)) now
                   (if ended then w\<lparr>ow_order := reopen now order\<rparr> else w)))"

definition withdraw_retry :: "spark_order \<Rightarrow> spark_order" where
  "withdraw_retry order =
     (let o1 = order\<lparr>so_retry_due_at := None\<rparr>
      in if looks order \<noteq> 0 then o1
         else o1\<lparr>so_wait := fst (clear_wait (so_wait order)), so_observe_count := Some 0\<rparr>)"

definition end_unobserved_attempt :: "instant \<Rightarrow> order_attempt \<Rightarrow> order_attempt" where
  "end_unobserved_attempt now a =
     (if oa_state a = ''running'' \<or> attempt_is_observing a
      then a\<lparr>oa_state := ''failed'', oa_cause := None, oa_lease_deadline := now\<rparr> else a)"

definition expire_attempt :: "order_attempt \<Rightarrow> order_attempt" where
  "expire_attempt a =
     (if oa_state a = ''running'' \<or> attempt_reported_unknown a then lapse_attempt a else a)"

definition record_report :: "string \<Rightarrow> attempt_result \<Rightarrow> order_attempt \<Rightarrow> order_attempt result" where
  "record_report state outcome a = record_wire_state (a\<lparr>oa_result := Some outcome\<rparr>) state"

section \<open>The parent job\<close>

text \<open>A child is its stored state and whether a retry is scheduled.\<close>

definition aggregate_word :: "string \<times> bool \<Rightarrow> string \<times> bool" where
  "aggregate_word child =
     (case adopt_state Subject_AGENT_OPERATION (fst child) of
        None \<Rightarrow> child
      | Some s \<Rightarrow> (if snd child then ''backoff'' else lifecycle_state_value s, snd child))"

definition aggregate_parent_state :: "(string \<times> bool) list \<Rightarrow> bool \<Rightarrow> string option" where
  "aggregate_parent_state given cancelling_parent =
     (let children = map aggregate_word given;
          retrying = (\<lambda>c. fst c \<in> set PARKED \<and> snd c);
          states = map fst children
      in if list_ex retrying children
            \<and> list_all (\<lambda>c. fst c = ''succeeded'' \<or> retrying c) children
            \<and> \<not> cancelling_parent
         then Some ''queued''
         else if ''failed'' \<in> set states
            \<and> list_all (\<lambda>s. s \<in> set AGGREGATE_FINAL \<or> s \<in> set PARKED) states
         then Some ''failed''
         else if children = [] \<or> list_ex (\<lambda>s. s \<notin> set AGGREGATE_FINAL) states then None
         else if ''failed'' \<in> set states then Some ''failed''
         else if ''needs-operator'' \<in> set states then Some WAITING
         else if ''cancelled'' \<in> set states then Some ''cancelled''
         else Some ''succeeded'')"

definition same_order :: "lifecycle \<Rightarrow> lifecycle \<Rightarrow> bool" where
  "same_order l r \<longleftrightarrow>
     lc_state l = lc_state r \<and> lc_attempt l = lc_attempt r \<and> lc_fence l = lc_fence r
     \<and> lc_next_action_at l = lc_next_action_at r
     \<and> lc_recovery_deadline l = lc_recovery_deadline r
     \<and> lc_observe_count l = lc_observe_count r \<and> cancel_requested l = cancel_requested r
     \<and> lc_effect l = lc_effect r"

definition set_parent_state ::
  "string \<Rightarrow> string option \<Rightarrow> instant \<Rightarrow> bool \<Rightarrow> parent_job \<times> book \<Rightarrow> parent_job \<times> book" where
  "set_parent_state state reason now keep_reason pb =
     (let (p, b) = pb
      in if (case job_core (pj_state p) of None \<Rightarrow> False | Some s \<Rightarrow> terminal_state s)
         then (p, if state \<noteq> pj_state p \<or> \<not> (keep_reason \<or> reason = pj_status_reason p)
                  then keep_recorded_outcome ''job'' (pj_id p) (pj_state p) (Some state) b else b)
         else (p\<lparr>pj_state := state,
                 pj_status_reason := (if keep_reason then pj_status_reason p
                                      else map_option (take 1024) reason),
                 pj_updated_at := now\<rparr>, b))"

section \<open>What the sweeps select\<close>

text \<open>A comparison with a missing value selects nothing.\<close>

definition lapsed_running_orders :: "instant \<Rightarrow> order_world \<Rightarrow> bool" where
  "lapsed_running_orders now w \<longleftrightarrow>
     so_state (ow_order w) = ''running'' \<and>
     \<not> list_ex (\<lambda>a. oa_attempt a = so_attempt (ow_order w) \<and> oa_state a = ''running''
                     \<and> oa_lease_deadline a > now) (ow_attempts w)"

definition parked_orders :: "instant \<Rightarrow> spark_order \<Rightarrow> bool" where
  "parked_orders now order \<longleftrightarrow>
     so_state order \<in> set PARKED \<and>
     (order_due order = None
      \<or> (case so_recovery_deadline order of None \<Rightarrow> False | Some d \<Rightarrow> d \<le> now) \<and> looks order = 0
      \<or> (case so_observe_count order of None \<Rightarrow> False | Some n \<Rightarrow> n > 0)
        \<and> (case order_due order of None \<Rightarrow> False | Some t \<Rightarrow> t \<le> now))"

section \<open>What is written\<close>

lemma lapse_attempt_fields [simp]:
  "oa_attempt (lapse_attempt a) = oa_attempt a" "oa_result (lapse_attempt a) = oa_result a"
  "oa_state (lapse_attempt a) = ''observing''"
  by (simp_all add: lapse_attempt_def)

lemma schedule_order_fields:
  assumes "schedule_order order t = Inr order'"
  shows "order' = order\<lparr>so_wait := so_wait order'\<rparr>"
  using assms by (cases t) (auto simp: schedule_order_def)

lemma order_stored_word:
  "so_attempt order = so_attempt order' \<Longrightarrow> lc_state row = lc_state row' \<Longrightarrow>
     fst (order_stored order row t) = fst (order_stored order' row' t')"
  by (simp add: order_stored_def Let_def split: lifecycle_state.split)

lemma write_order_fields:
  assumes "write_order order state next_action n reason now = Inr (order', changed)"
  shows "so_state order' = state" "looks order' = n" "so_attempt order' = so_attempt order"
    "so_id order' = so_id order" "so_kind order' = so_kind order"
proof -
  have "so_state order' = state \<and> looks order' = n \<and> so_attempt order' = so_attempt order \<and>
      so_id order' = so_id order \<and> so_kind order' = so_kind order"
  proof (cases "order' = order \<and> \<not> changed")
    case True
    with assms show ?thesis by (auto simp: write_order_def split: if_splits)
  next
    case False
    with assms obtain o1 where o1: "schedule_order (order\<lparr>so_state := state\<rparr>) next_action = Inr o1"
      and o': "order' = o1\<lparr>so_observe_count := Some n,
         so_status_reason := (case reason of None \<Rightarrow> so_status_reason order | Some r \<Rightarrow> Some r),
         so_retry_due_at := None, so_updated_at := now\<rparr>"
      by (auto simp: write_order_def split: if_splits)
    from o1 have "o1 = order\<lparr>so_state := state, so_wait := so_wait o1\<rparr>"
      by (rule schedule_order_fields)
    then obtain x where "o1 = order\<lparr>so_state := state, so_wait := x\<rparr>" by blast
    with o' show ?thesis by simp
  qed
  then show "so_state order' = state" "looks order' = n" "so_attempt order' = so_attempt order"
    "so_id order' = so_id order" "so_kind order' = so_kind order"
    by simp_all
qed

text \<open>An attempt changes to an observed one at most: its number and its receipt stay.\<close>

definition only_lapses :: "order_attempt option \<Rightarrow> order_attempt option \<Rightarrow> bool" where
  "only_lapses a b \<longleftrightarrow>
     (case a of
        None \<Rightarrow> b = None
      | Some x \<Rightarrow>
          (case b of
             None \<Rightarrow> False
           | Some y \<Rightarrow> oa_attempt y = oa_attempt x \<and> oa_result y = oa_result x
                       \<and> (oa_state y = oa_state x \<or> oa_state y = ''observing'')))"

lemma leave_running_lapses: "only_lapses a (fst (leave_running a before after))"
  by (auto simp: leave_running_def only_lapses_def split: option.split)

lemma fence_upgrade_lapses: "only_lapses (Some a) (Some (fst (fence_upgrade_attempt order a t)))"
  by (auto simp: fence_upgrade_attempt_def only_lapses_def Let_def split: option.split)

lemma close_attempt_lapses: "only_lapses a (fst (close_attempt order a after t))"
proof (cases a)
  case (Some x)
  then show ?thesis
    using fence_upgrade_lapses [of x order t] by (simp add: close_attempt_def only_lapses_def)
qed (simp add: close_attempt_def only_lapses_def)

lemma only_lapses_trans: "only_lapses a b \<Longrightarrow> only_lapses b c \<Longrightarrow> only_lapses a c"
  by (auto simp: only_lapses_def split: option.splits)

lemma order_apply_fields:
  assumes "order_apply declared attempts given attempt before after now = Inr (order, a, changed, cl)"
  shows "so_state order = fst (order_stored given after now)"
    "lc_state after = S_OBSERVING \<Longrightarrow> looks order = lc_observe_count after"
    "so_attempt order = so_attempt given" "so_id order = so_id given" "so_kind order = so_kind given"
    "only_lapses attempt a"
proof -
  let ?o0 = "doubted_order given after now"
  have o0: "so_attempt ?o0 = so_attempt given" "so_id ?o0 = so_id given" "so_kind ?o0 = so_kind given"
    by (simp_all add: doubted_order_def begin_recovery_def)
  let ?n = "if lc_state after = S_OBSERVING then lc_observe_count after else 0"
  let ?a1 = "fst (leave_running attempt before after)"
  obtain o1 ch where o1: "write_order ?o0 (fst (order_stored ?o0 after now))
      (snd (order_stored ?o0 after now)) ?n (applied_reason attempts ?o0 before after) now = Inr (o1, ch)"
    and order: "order = o1\<lparr>so_wait := so_wait order\<rparr>"
    and a: "a = fst (close_attempt o1 ?a1 after (snd (order_stored ?o0 after now)))"
    using assms by (clarsimp simp: order_apply_def Let_def case_prod_beta)
  note f = write_order_fields [OF o1]
  obtain x where x: "order = o1\<lparr>so_wait := x\<rparr>" using order by blast
  show "so_state order = fst (order_stored given after now)"
    using f(1) x order_stored_word [OF o0(1) refl] by simp
  show "lc_state after = S_OBSERVING \<Longrightarrow> looks order = lc_observe_count after"
    using f(2) x by simp
  show "so_attempt order = so_attempt given" "so_id order = so_id given" "so_kind order = so_kind given"
    using f(3-5) x o0 by simp_all
  show "only_lapses attempt a"
    unfolding a by (rule only_lapses_trans [OF leave_running_lapses close_attempt_lapses])
qed

text \<open>
  The stored order is the row's: as written, with the count of looks that tells an observation from
  a retry, or as it was read.
\<close>

definition order_displays :: "order_world \<Rightarrow> lifecycle \<Rightarrow> bool" where
  "order_displays w row \<longleftrightarrow>
     (so_state (ow_order w) = fst (order_stored (ow_order w) row 0) \<and>
      (lc_state row = S_OBSERVING \<longrightarrow> looks (ow_order w) = lc_observe_count row))
     \<or> lc_state row = order_state (ow_order w)"

lemma order_displays_residue [simp]:
  "order_displays (w\<lparr>ow_order := (ow_order w)\<lparr>so_status_reason := r\<rparr>\<rparr>) row = order_displays w row"
  by (simp add: order_displays_def order_state_def retry_scheduled_def order_stored_def Let_def)

lemma apply_order_fields:
  assumes "apply_order declared n before after now w = Inr (w', changed)"
  shows "order_displays w' after" "so_attempt (ow_order w') = so_attempt (ow_order w)"
    "so_id (ow_order w') = so_id (ow_order w)" "so_kind (ow_order w') = so_kind (ow_order w)"
    "\<exists>a. only_lapses (attempt_row (ow_attempts w) n) a
       \<and> ow_attempts w' = put_attempt a (ow_attempts w)"
proof -
  obtain order a cl where ap: "order_apply declared (ow_attempts w) (ow_order w)
      (attempt_row (ow_attempts w) n) before after now = Inr (order, a, changed, cl)"
    and w': "ow_order w' = order" "ow_attempts w' = put_attempt a (ow_attempts w)"
    using assms by (auto simp: apply_order_def)
  note f = order_apply_fields [OF ap]
  show "order_displays w' after"
    using f(1,2,3) w'(1) order_stored_word [of order "ow_order w" after after]
    by (simp add: order_displays_def) metis
  show "so_attempt (ow_order w') = so_attempt (ow_order w)"
    "so_id (ow_order w') = so_id (ow_order w)" "so_kind (ow_order w') = so_kind (ow_order w)"
    using f(3-5) w'(1) by simp_all
  show "\<exists>a. only_lapses (attempt_row (ow_attempts w) n) a
       \<and> ow_attempts w' = put_attempt a (ow_attempts w)"
    using f(6) w'(2) by blast
qed

interpretation orders: row_store "order_kind_adapter env" "order_writer declared n now"
  order_displays for env declared n now
proof
  fix b a w w'
  assume "rw_save (order_writer declared n now) b a w = Inr (w', True)"
  then show "order_displays w' a"
    by (auto simp: order_writer_def dest: apply_order_fields(1))
next
  fix b a w w'
  assume "rw_save (order_writer declared n now) b a w = Inr (w', False)"
  then show "w' = w" by (auto simp: order_writer_def)
next
  fix w row c w' answer
  assume "order_displays w row"
    "run_command (order_kind_adapter env) (order_writer declared n now) row c w = (w', answer)"
  then show "order_displays w' row"
    by (auto simp: run_command_def order_kind_adapter_def order_writer_def split: command.splits)
qed

lemma order_lifecycle_fields [simp]:
  "lc_id (order_lifecycle env w a p now) = so_id (ow_order w)"
  "lc_kind (order_lifecycle env w a p now) = so_kind (ow_order w)"
  "lc_state (order_lifecycle env w a p now) = order_state (ow_order w)"
  "lc_attempt (order_lifecycle env w a p now) = so_attempt (ow_order w)"
  "lc_observe_count (order_lifecycle env w a p now) = looks (ow_order w)"
  by (simp_all add: order_lifecycle_def Let_def case_prod_beta)

lemma order_view_fields [simp]:
  "ad_irreversible (order_view env w) row \<longleftrightarrow> lc_kind row \<in> set IRREVERSIBLE_OPERATIONS"
  "ad_recovery_deadline (order_view env w) row = None"
  "ad_actions (order_view env w) = order_actions env"
  by (simp_all add: order_view_def)

lemma order_settle_displays:
  assumes "order_settle sha256 declared env given parent ev now w = Inr (w', s)"
  shows "order_displays w' (sd_row s)"
  using orders.settled_displays [OF assms [unfolded order_settle_def Let_def]]
  by (auto simp: order_displays_def)

end
