(* ===== verification/Lifecycle_Doubt.thy ===== *)
theory Lifecycle_Doubt
  imports Reconciler
begin

text \<open>
  An effect that may have happened stays in doubt until something proves otherwise: the core's
  handlers, one by one, never make such a row of an irreversible kind wait for another execution.
  The last lemma carries an invariant of rows through the settle loop; the adapters use it with
  their own stored rows.
\<close>

section \<open>Rows in doubt\<close>

text \<open>
  Not waiting to be issued, and observed only with a count of looks, which is how a store can tell an
  observation from a retry.
\<close>

definition in_doubt :: "lifecycle \<Rightarrow> bool" where
  "in_doubt row \<longleftrightarrow>
     lc_state row \<in> {S_SUCCEEDED, S_FAILED, S_CANCELLED} \<or>
     lc_attempt row \<noteq> 0 \<and> lc_effect row \<noteq> E_NONE \<and> lc_observe_count row \<ge> 0 \<and>
     (lc_state row \<in> {S_RUNNING, S_NEEDS_OPERATOR} \<or>
      lc_state row = S_OBSERVING \<and> lc_observe_count row > 0)"

text \<open>
  An event, in a state, that neither proves the effect absent nor is an operator's. An observation
  answers a row that is observed.
\<close>

definition no_proof :: "lifecycle_state \<Rightarrow> event \<Rightarrow> bool" where
  "no_proof state ev =
     (case ev of
        Observed e _ \<Rightarrow> e \<noteq> E_NONE \<and> state \<notin> {S_RUNNING, S_NEEDS_OPERATOR}
      | Reported r \<Rightarrow> rp_effect r \<noteq> Some E_NONE
      | OperatorAction _ _ \<Rightarrow> False
      | _ \<Rightarrow> True)"

text \<open>The decision leaves the row in doubt, and runs a command only on a row that is observed or over.\<close>

definition doubt_kept :: "lifecycle \<Rightarrow> decision \<Rightarrow> bool" where
  "doubt_kept row d \<longleftrightarrow> in_doubt (d_row d) \<and> lc_kind (d_row d) = lc_kind row \<and>
    (d_commands d \<noteq> [] \<longrightarrow> lc_state (d_row d) \<notin> {S_RUNNING, S_NEEDS_OPERATOR})"

text \<open>What the handlers need of a live row in doubt.\<close>

definition live_doubt :: "lifecycle \<Rightarrow> bool" where
  "live_doubt row \<longleftrightarrow> lc_attempt row \<noteq> 0 \<and> lc_effect row \<noteq> E_NONE \<and> lc_observe_count row \<ge> 0"

lemma kept_row: "in_doubt row \<Longrightarrow> doubt_kept row (decide row [])"
  by (simp add: doubt_kept_def)

lemma observe_doubt:
  "live_doubt row \<Longrightarrow> observe sha256 row now reason = Inr d \<Longrightarrow> doubt_kept row d"
  by (auto simp: observe_def Let_def doubt_kept_def live_doubt_def in_doubt_def of_flag_def OBSERVE_BUDGET_def split: if_splits)

lemma lost_doubt:
  "live_doubt row \<Longrightarrow> lost sha256 row now reason cs b = Inr d \<Longrightarrow> doubt_kept row d"
  by (auto simp: lost_def Let_def doubt_kept_def live_doubt_def in_doubt_def of_flag_def OBSERVE_BUDGET_def split: if_splits)

lemma advance_cancel_doubt:
  "live_doubt row \<Longrightarrow> e \<noteq> Some E_NONE \<Longrightarrow> issue \<or> lc_observe_count row > 0 \<Longrightarrow>
   advance_cancel sha256 row now e reason issue = Inr d \<Longrightarrow> doubt_kept row d"
  by (cases e) (auto simp: advance_cancel_def Let_def doubt_kept_def live_doubt_def in_doubt_def split: if_splits)

lemma flagged_doubt [simp]:
  "live_doubt (with_cancel_flag row now key) = live_doubt row"
  "lc_observe_count (with_cancel_flag row now key) = lc_observe_count row"
  "doubt_kept (with_cancel_flag row now key) d = doubt_kept row d"
  by (simp_all add: with_cancel_flag_def live_doubt_def doubt_kept_def)


lemma unsafe: "live_doubt row \<Longrightarrow> ad_irreversible ad row \<Longrightarrow> e \<noteq> Some E_NONE \<Longrightarrow> \<not> blind_retry_is_safe row ad e"
  by (cases e) (auto simp: blind_retry_is_safe_def live_doubt_def)

lemma uncertain_doubt:
  "live_doubt row \<Longrightarrow> ad_irreversible ad row \<Longrightarrow> e \<noteq> Some E_NONE \<Longrightarrow>
   uncertain sha256 row ad now e reason after c = Inr d \<Longrightarrow> doubt_kept row d"
  by (auto simp: uncertain_def unsafe split: if_splits intro: observe_doubt)

lemma unknown_doubt:
  "live_doubt row \<Longrightarrow> ad_irreversible ad row \<Longrightarrow> lc_observe_count row > 0 \<Longrightarrow>
   unknown_after_observation sha256 row ad now reason cs = Inr d \<Longrightarrow> doubt_kept row d"
  by (auto simp: unknown_after_observation_def unsafe split: if_splits intro: lost_doubt)
    (auto simp: doubt_kept_def in_doubt_def live_doubt_def)

lemma live_in_doubt:
  assumes "in_doubt row" "\<not> terminal row"
  shows "live_doubt row" "lc_state row = S_RUNNING \<or> lc_state row = S_NEEDS_OPERATOR \<or> lc_state row = S_OBSERVING \<and> lc_observe_count row > 0"
  using assms by (auto simp: in_doubt_def live_doubt_def terminal_def terminal_state_iff)

lemma lapsed_doubt:
  "in_doubt row \<Longrightarrow> \<not> terminal row \<Longrightarrow> ad_irreversible ad row \<Longrightarrow>
   lapsed sha256 row ad now reason = Inr d \<Longrightarrow> doubt_kept row d"
  using live_in_doubt(1) [of row] kept_row [of row] advance_cancel_doubt [of row None True]
    uncertain_doubt [of row ad None]
  by (auto simp: lapsed_def split: if_splits)

lemma observed_doubt:
  assumes "live_doubt row" "lc_state row = S_OBSERVING" "lc_observe_count row > 0"
    and "ad_irreversible ad row" "e \<noteq> E_NONE" "observed sha256 row e reason ad now = Inr d"
  shows "doubt_kept row d"
proof (cases "cancel_requested row")
  case True
  with assms have "advance_cancel sha256 row now (Some e) reason False = Inr d"
    by (simp add: observed_def)
  from advance_cancel_doubt [OF assms(1) _ _ this] assms(3,5) show ?thesis by simp
next
  case False
  have ends: "doubt_kept row d" if "lc_kind (d_row d) = lc_kind row"
    "lc_state (d_row d) = S_FAILED \<or> lc_state (d_row d) = S_SUCCEEDED"
    using that by (auto simp: doubt_kept_def in_doubt_def)
  have "lost sha256 row now reason [] True = Inr d \<or>
      unknown_after_observation sha256 row ad now reason [] = Inr d \<or>
      lc_kind (d_row d) = lc_kind row \<and>
        (lc_state (d_row d) = S_FAILED \<or> lc_state (d_row d) = S_SUCCEEDED)"
    using assms(2,5,6) False unsafe [OF assms(1,4), of None]
    unfolding observed_def Let_def by (simp split: if_splits) auto
  with ends lost_doubt [OF assms(1)] unknown_doubt [OF assms(1,4,3)] show ?thesis by blast
qed

lemma reported_doubt:
  assumes "in_doubt row" "\<not> terminal row" "ad_irreversible ad row" "rp_effect r \<noteq> Some E_NONE"
    and "reported sha256 row r ad now = Inr d"
  shows "doubt_kept row d"
proof -
  note live = live_in_doubt [OF assms(1,2)]
  have ends: "doubt_kept row (end_row row s e r)"
    if "s = S_FAILED \<or> s = S_SUCCEEDED \<or> s = S_CANCELLED" for s e
    using that by (auto simp: end_row_def doubt_kept_def in_doubt_def)
  have "(\<exists>s e. d = end_row row s e r \<and> (s = S_FAILED \<or> s = S_SUCCEEDED \<or> s = S_CANCELLED)) \<or>
      (\<exists>e. e \<noteq> Some E_NONE \<and>
        advance_cancel sha256 row now e (rp_reason r) (lc_state row \<noteq> S_OBSERVING) = Inr d) \<or>
      uncertain sha256 row ad now (rp_effect r) (rp_reason r) (rp_retry_after r)
        (rp_consumes_retry r) = Inr d"
    using assms(4,5) unfolding reported_def Let_def by (auto split: if_splits)
  then consider s e where "d = end_row row s e r" "s = S_FAILED \<or> s = S_SUCCEEDED \<or> s = S_CANCELLED"
    | e where "e \<noteq> Some E_NONE"
        "advance_cancel sha256 row now e (rp_reason r) (lc_state row \<noteq> S_OBSERVING) = Inr d"
    | "uncertain sha256 row ad now (rp_effect r) (rp_reason r) (rp_retry_after r)
        (rp_consumes_retry r) = Inr d"
    by blast
  then show ?thesis
  proof cases
    case 1
    with ends show ?thesis by simp
  next
    case 2
    from advance_cancel_doubt [OF live(1) 2(1) _ 2(2)] live(2) show ?thesis by auto
  next
    case 3
    from uncertain_doubt [OF live(1) assms(3,4) 3] show ?thesis .
  qed
qed

lemma reevaluate_doubt:
  assumes "live_doubt row" "ad_irreversible ad row" "\<not> cancel_requested row"
    and "reevaluate_parked sha256 row ad now = Inr d"
  shows "doubt_kept row d"
proof (cases "lc_effect row = E_ESTABLISHED")
  case True
  with assms(3,4) show ?thesis
    by (auto simp: reevaluate_parked_def observed_def doubt_kept_def in_doubt_def
        cancel_requested_def split: if_splits)
next
  case False
  with assms(4) unsafe [OF assms(1,2), of None] assms(2)
  have "lost sha256 row now (lc_reason row) [Observe] False = Inr d \<or>
      observe sha256 row now (lc_reason row) = Inr d"
    by (simp add: reevaluate_parked_def split: if_splits)
  with lost_doubt [OF assms(1)] observe_doubt [OF assms(1)] show ?thesis by blast
qed

lemma tick_doubt:
  assumes "in_doubt row" "\<not> terminal row" "ad_irreversible ad row" "tick sha256 row ad now = Inr d"
  shows "doubt_kept row d"
proof -
  note live = live_in_doubt [OF assms(1,2)]
  have counted: "doubt_kept row (decide (row\<lparr>lc_observe_count := lc_observe_count row + 1,
      lc_next_action_at := t\<rparr>) [Observe])" if "lc_state row = S_OBSERVING" for t
    using that live by (auto simp: doubt_kept_def in_doubt_def live_doubt_def)
  have leased: "doubt_kept row (decide (row\<lparr>lc_next_action_at := t\<rparr>) [])" for t
    using assms(1) by (simp add: doubt_kept_def in_doubt_def)
  let ?early = "case lc_next_action_at row of None \<Rightarrow> False | Some t \<Rightarrow> now < t"
  let ?over = "case lc_recovery_deadline row of None \<Rightarrow> False | Some d \<Rightarrow> d \<le> now"
  consider "?early" | "\<not> ?early" "cancel_requested row"
    | "\<not> ?early" "\<not> cancel_requested row" "?over" "lc_state row \<noteq> S_RUNNING"
    | "\<not> ?early" "\<not> cancel_requested row" "\<not> ?over \<or> lc_state row = S_RUNNING"
    by blast
  then show ?thesis
  proof cases
    case 1
    with assms(4) have "d = decide row []" by (simp add: tick_def split: if_splits)
    with kept_row [OF assms(1)] show ?thesis by simp
  next
    case 2
    with assms(4) have "advance_cancel sha256 row now None None True = Inr d" by (simp add: tick_def)
    from advance_cancel_doubt [OF live(1) _ _ this] show ?thesis by simp
  next
    case 3
    with assms(4) have "observe sha256 row now (lc_reason row) = Inr d" by (simp add: tick_def)
    from observe_doubt [OF live(1) this] show ?thesis .
  next
    case 4
    then have over: "(?over \<and> lc_state row \<noteq> S_RUNNING) = False" by blast
    have t: "tick sha256 row ad now =
        (if lc_state row = S_QUEUED \<or> lc_state row = S_BACKOFF
         then Inr (decide (row\<lparr>lc_state := S_QUEUED, lc_next_action_at := None\<rparr>) [Execute])
         else if lc_state row = S_RUNNING
         then (case lc_lease_deadline row of
                 Some l \<Rightarrow> (if now < l then Inr (decide (row\<lparr>lc_next_action_at := Some l\<rparr>) [])
                            else lapsed sha256 row ad now None)
               | None \<Rightarrow> lapsed sha256 row ad now None)
         else if lc_state row = S_OBSERVING
         then (if lc_observe_count row \<ge> OBSERVE_BUDGET
               then unknown_after_observation sha256 row ad now None [Observe]
               else (let count = lc_observe_count row + 1
                     in res_map
                          (\<lambda>at. decide (row\<lparr>lc_observe_count := count,
                                 lc_next_action_at := Some at\<rparr>) [Observe])
                          (due sha256 row count now None None)))
         else if lc_state row = S_NEEDS_OPERATOR
         then reevaluate_parked sha256 row ad now
         else Inr (decide row []))"
      unfolding tick_def over using 4(1,2) by (simp only: if_False)
    from live(2) show ?thesis
    proof (elim disjE conjE)
      assume "lc_state row = S_RUNNING"
      with t assms(4) have "(\<exists>l. d = decide (row\<lparr>lc_next_action_at := Some l\<rparr>) []) \<or>
          lapsed sha256 row ad now None = Inr d"
        by (auto split: option.splits if_splits)
      with leased lapsed_doubt [OF assms(1-3)] show ?thesis by blast
    next
      assume "lc_state row = S_NEEDS_OPERATOR"
      with t assms(4) have "reevaluate_parked sha256 row ad now = Inr d" by simp
      from reevaluate_doubt [OF live(1) assms(3) 4(2) this] show ?thesis .
    next
      assume o: "lc_state row = S_OBSERVING" "0 < lc_observe_count row"
      from assms(4) have "unknown_after_observation sha256 row ad now None [Observe] = Inr d \<or>
          (\<exists>t. d = decide (row\<lparr>lc_observe_count := lc_observe_count row + 1,
             lc_next_action_at := Some t\<rparr>) [Observe])"
        unfolding t using o(1) by (auto simp: Let_def split: if_splits)
      with unknown_doubt [OF live(1) assms(3) o(2)] counted [OF o(1)] show ?thesis by blast
    qed
  qed
qed

lemma doubt_persists:
  assumes "transition sha256 row ev ad now = Inr d" "in_doubt row" "no_proof (lc_state row) ev"
    and "ad_irreversible ad row" "ad_recovery_deadline ad row = None"
  shows "doubt_kept row d"
proof (cases "terminal row \<or> stale row ev")
  case True
  with assms(1) have "d = decide row []" by (auto simp: transition_def split: if_splits)
  with kept_row [OF assms(2)] show ?thesis by simp
next
  case False
  then have "\<not> terminal row" by simp
  note live = live_in_doubt [OF assms(2) this]
  note keep = kept_row [OF assms(2)]
  have d: "dispatch sha256 row ev ad now = Inr d"
    using False assms(1,5) by (simp add: transition_def expired_def)
  show ?thesis
  proof (cases ev)
    case (CancelRequested key reason)
    with d have "d = decide row [] \<or>
        advance_cancel sha256 (with_cancel_flag row now key) now None reason True = Inr d"
      by (auto simp: dispatch_def cancel_def split: if_splits)
    with keep advance_cancel_doubt [of "with_cancel_flag row now key" None True] live(1)
    show ?thesis by auto
  next
    case (Heartbeat f l)
    with d keep show ?thesis
      by (auto simp: dispatch_def heartbeat_def doubt_kept_def in_doubt_def split: if_splits)
  next
    case (Claimed a f l)
    with d live(2) have "d = decide row []" by (auto simp: dispatch_def claimed_def Let_def)
    with keep show ?thesis by simp
  next
    case (Observed e reason)
    with assms(3) live(2) have "lc_state row = S_OBSERVING" "lc_observe_count row > 0" "e \<noteq> E_NONE"
      by (auto simp: no_proof_def)
    from observed_doubt [OF live(1) this(1,2) assms(4) this(3)] d Observed show ?thesis
      by (simp add: dispatch_def)
  next
    case Submitted
    with d live(2) have "d = decide row []" by (auto simp: dispatch_def submitted_def)
    with keep show ?thesis by simp
  next
    case (Reported r)
    with d assms(3) show ?thesis
      by (intro reported_doubt [OF assms(2) \<open>\<not> terminal row\<close> assms(4)])
        (simp_all add: dispatch_def no_proof_def)
  next
    case (LeaseLapsed reason)
    with d show ?thesis
      by (intro lapsed_doubt [OF assms(2) \<open>\<not> terminal row\<close> assms(4)]) (simp add: dispatch_def)
  next
    case (OperatorAction name reason)
    with assms(3) show ?thesis by (simp add: no_proof_def)
  next
    case Tick
    with d show ?thesis
      by (intro tick_doubt [OF assms(2) \<open>\<not> terminal row\<close> assms(4)]) (simp add: dispatch_def)
  qed
qed

section \<open>Invariants of a pass\<close>

lemma run_commands_invariant:
  assumes cmd: "\<And>c w w' answer. W w \<Longrightarrow> run_command ka rw row c w = (w', answer) \<Longrightarrow>
      W w' \<and> (\<forall>ev. answer = Some ev \<longrightarrow> Q ev)"
  shows "run_commands ka rw row cs p0 w1 = (w2, p) \<Longrightarrow> W w1 \<Longrightarrow> (\<forall>ev. p0 = Some ev \<longrightarrow> Q ev) \<Longrightarrow>
    W w2 \<and> (\<forall>ev. p = Some ev \<longrightarrow> Q ev)"
proof (induction cs arbitrary: p0 w1)
  case (Cons c cs)
  obtain w3 answer where c: "run_command ka rw row c w1 = (w3, answer)"
    by (cases "run_command ka rw row c w1")
  have "run_commands ka rw row cs (case answer of None \<Rightarrow> p0 | Some e \<Rightarrow> Some e) w3 = (w2, p)"
    using Cons.prems(1) c by simp
  moreover have "W w3"
    "\<forall>ev. (case answer of None \<Rightarrow> p0 | Some e \<Rightarrow> Some e) = Some ev \<longrightarrow> Q ev"
    using cmd [OF Cons.prems(2) c] Cons.prems(3) by (auto split: option.splits)
  ultimately show ?case by (rule Cons.IH)
qed simp

text \<open>
  An invariant \<open>P\<close> of rows and one \<open>W\<close> of the world hold through a pass when decisions on
  expected events (\<open>Q\<close>) keep \<open>P\<close>, saving keeps \<open>W\<close>, and every command of a decision (on a
  row with \<open>R\<close>) keeps \<open>W\<close> and answers with an expected event.
\<close>

lemma settle_loop_invariant:
  assumes step: "\<And>row ev w d. P row \<Longrightarrow> Q row ev \<Longrightarrow> W w \<Longrightarrow>
      transition sha256 row ev (ka_view ka w) now = Inr d \<Longrightarrow>
      P (d_row d) \<and> (d_commands d \<noteq> [] \<longrightarrow> R (d_row d))"
    and save: "\<And>b a w w' saved. W w \<Longrightarrow> rw_save rw b a w = Inr (w', saved) \<Longrightarrow> W w'"
    and cmd: "\<And>row c w w' answer. P row \<Longrightarrow> R row \<Longrightarrow> W w \<Longrightarrow>
      run_command ka rw row c w = (w', answer) \<Longrightarrow> W w' \<and> (\<forall>ev. answer = Some ev \<longrightarrow> Q row ev)"
  shows "settle_loop sha256 ka rw now n row pending changed issued w = Inr (w', s) \<Longrightarrow> P row \<Longrightarrow>
    (\<forall>ev. pending = Some ev \<longrightarrow> Q row ev) \<Longrightarrow> W w \<Longrightarrow> P (sd_row s) \<and> W w'"
proof (induction n arbitrary: row pending changed issued w)
  case (Suc n)
  show ?case
  proof (cases pending)
    case None
    with Suc.prems show ?thesis by auto
  next
    case (Some ev)
    obtain d w1 saved where d: "transition sha256 row ev (ka_view ka w) now = Inr d"
      and sv: "(if d_row d \<noteq> row then rw_save rw row (d_row d) w else Inr (w, True)) = Inr (w1, saved)"
      using Suc.prems(1) Some by auto
    have P': "P (d_row d)" "d_commands d \<noteq> [] \<longrightarrow> R (d_row d)"
      using step [OF Suc.prems(2) _ Suc.prems(4) d] Suc.prems(3) Some by simp_all
    have W1: "W w1" using sv Suc.prems(4) save by (auto split: if_splits)
    show ?thesis
    proof (cases saved)
      case False
      with Suc.prems(1,2) Some d sv W1 show ?thesis by auto
    next
      case True
      obtain w2 p where c: "run_commands ka rw (d_row d) (d_commands d) None w1 = (w2, p)"
        by (cases "run_commands ka rw (d_row d) (d_commands d) None w1")
      have "W w2 \<and> (\<forall>ev. p = Some ev \<longrightarrow> Q (d_row d) ev)"
      proof (cases "d_commands d")
        case (Cons x xs)
        with P' cmd show ?thesis
          by (intro run_commands_invariant [where W = W and Q = "Q (d_row d)", OF _ c W1]) auto
      qed (use c W1 in simp)
      moreover have "settle_loop sha256 ka rw now n (d_row d) p
          (if d_row d \<noteq> row then changed + 1 else changed) (issued + length (d_commands d)) w2
          = Inr (w', s)"
        using Suc.prems(1) Some d sv True c by auto
      ultimately show ?thesis using Suc.IH P'(1) by blast
    qed
  qed
qed auto

end
