(* ===== verification/Agent_Order_Properties.thy ===== *)
theory Agent_Order_Properties
  imports Agent_Orders Lifecycle_Doubt
begin

text \<open>
  What the Spark-order adapter promises: which orders a claim starts and what it writes, that a
  user's job in doubt does not become claimable again, and the state a parent takes from its orders.
\<close>

section \<open>An order for the examples\<close>

definition example_order :: spark_order where
  "example_order =
     \<lparr>so_id = ''order-1'', so_kind = agent_operation_value Op_RECIPE_JOB_RUN,
      so_node_id = ''spark-1'', so_state = ''running'', so_attempt = 1, so_observe_count = Some 0,
      so_status_reason = None, so_recovery_deadline = None,
      so_wait = \<lparr>wo_evidence = None, wo_next_action_at = None\<rparr>, so_retry_due_at = None,
      so_created_at = 0, so_updated_at = 0, so_parent_job_id = ''job-1'', so_ordinal = Some 3,
      so_start_deadline = None,
      so_job_run = Some \<lparr>jr_output_delivery_only = False, jr_timeout = Some 60,
        jr_stop_timeout = 10\<rparr>\<rparr>"

definition example_world :: order_world where
  "example_world =
     \<lparr>ow_order = example_order,
      ow_attempts = [\<lparr>oa_attempt = 1, oa_fence = ''f1'', oa_lease_deadline = seconds 30,
        oa_state = ''running'', oa_cause = None, oa_result = None, oa_completed_bytes = None,
        oa_progressed_at = None, oa_serial = ''c1''\<rparr>],
      ow_successes = []\<rparr>"

definition queued_world :: order_world where
  "queued_world =
     example_world\<lparr>ow_order := example_order\<lparr>so_state := ''queued'', so_attempt := 0\<rparr>,
       ow_attempts := []\<rparr>"

definition example_env :: order_env where
  "example_env =
     \<lparr>oe_clock = seconds 40, oe_parent = None, oe_spark_wait = No_owner,
      oe_deferred_stop = (\<lambda>_ _. False), oe_candidates = None\<rparr>"

section \<open>Claims\<close>

lemma claim_decision:
  assumes "transition sha256 row (Claimed a f l) ad now = Inr d" "ad_recovery_deadline ad row = None"
    and "lc_state (d_row d) = S_RUNNING" "lc_state row \<noteq> S_RUNNING"
  shows "\<not> cancel_requested row \<and> (lc_state row = S_QUEUED \<or> lc_state row = S_BACKOFF \<and>
    (case lc_next_action_at row of None \<Rightarrow> True | Some t \<Rightarrow> t \<le> now))"
  using assms
  by (auto simp: transition_def expired_def dispatch_def claimed_def Let_def split: if_splits
      option.splits)

lemma running_claim_is_ignored:
  assumes "lc_state row = S_RUNNING" "ad_recovery_deadline ad row = None"
  shows "transition sha256 row (Claimed a f l) ad now = Inr (decide row [])"
  using assms
  by (simp add: transition_def terminal_def terminal_state_iff expired_def dispatch_def claimed_def
      Let_def)

text \<open>The recovery deadline of an order has come.\<close>

definition recovery_over :: "order_env \<Rightarrow> instant \<Rightarrow> order_world \<Rightarrow> bool" where
  "recovery_over env now w =
     (case order_recovery_deadline (ow_attempts w) (oe_spark_wait env) (ow_order w) now of
        None \<Rightarrow> False | Some d \<Rightarrow> d \<le> now)"

lemma order_state_words:
  "order_state order = S_QUEUED \<longleftrightarrow> so_state order = ''queued''"
  "order_state order = S_RUNNING \<longleftrightarrow> so_state order = ''running''"
  "order_state order = S_BACKOFF \<longleftrightarrow> retry_scheduled order \<noteq> None"
  by (auto simp: order_state_def Let_def retry_scheduled_def parked_words order_is_parked_iff)

lemma retry_scheduled_due: "retry_scheduled order = Some t \<Longrightarrow> order_due order = Some t"
  by (auto simp: retry_scheduled_def split: if_splits)

lemma issue_attempt_fields:
  assumes "issue_attempt serial fence deadline now progress w = (w', a)"
  shows "oa_attempt a = so_attempt (ow_order w) + 1" "oa_fence a = fence"
    "oa_lease_deadline a = deadline" "oa_state a = ''running''"
    "ow_attempts w' = ow_attempts w @ [a]" "so_attempt (ow_order w') = so_attempt (ow_order w) + 1"
    "so_state (ow_order w') = ''running''" "wo_evidence (so_wait (ow_order w')) = None"
    "order_due (ow_order w') = None" "looks (ow_order w') = 0"
    "so_status_reason (ow_order w') = None"
  using assms by (auto simp: issue_attempt_def Let_def clear_wait_def)

text \<open>
  (C16) What a claim writes and when. It appends the next attempt, running under the claim's fence
  and lease, and makes the order running with no wait, no looks and no old reason; the earlier
  attempts keep every field. It starts only before the recovery deadline and, unless the order was
  running already, only for a queued order or a scheduled retry whose time has come, whose parent
  asked for no cancel.
\<close>

theorem claim_starts_the_next_attempt:
  assumes "start_attempt sha256 declared env parent serial fence deadline now progress w
      = Inr (w', Some a)"
  shows "oa_attempt a = so_attempt (ow_order w) + 1 \<and> oa_fence a = fence \<and>
    oa_lease_deadline a = deadline \<and> oa_state a = ''running'' \<and>
    ow_attempts w' = ow_attempts w @ [a] \<and> so_attempt (ow_order w') = oa_attempt a \<and>
    so_state (ow_order w') = ''running'' \<and> wo_evidence (so_wait (ow_order w')) = None \<and>
    order_due (ow_order w') = None \<and> looks (ow_order w') = 0 \<and>
    so_status_reason (ow_order w') = None \<and> \<not> recovery_over env now w \<and>
    (so_state (ow_order w) = ''running'' \<or>
     fst (cancel_requested_at parent now) = None \<and>
     (so_state (ow_order w) = ''queued'' \<or> (\<exists>t \<le> now. retry_scheduled (ow_order w) = Some t)))"
proof -
  let ?row = "order_lifecycle env w (attempt_of w) parent now"
  have over: "\<not> recovery_over env now w"
    using assms by (auto simp: start_attempt_def recovery_over_def split: if_splits)
  obtain d where d: "transition sha256 ?row (Claimed (so_attempt (ow_order w) + 1) fence deadline)
      (order_view env w) now = Inr d" "lc_state (d_row d) = S_RUNNING"
    using assms over
    by (cases "issue_attempt serial fence deadline now progress w")
      (auto simp: start_attempt_def recovery_over_def Let_def split: if_splits)
  have "fst (cancel_requested_at parent now) = None \<and>
      (so_state (ow_order w) = ''queued'' \<or> (\<exists>t \<le> now. retry_scheduled (ow_order w) = Some t))"
    if "so_state (ow_order w) \<noteq> ''running''"
  proof -
    from that have "lc_state ?row \<noteq> S_RUNNING" by (simp add: order_state_words)
    from claim_decision [OF d(1) _ d(2) this]
    have c: "\<not> cancel_requested ?row" "order_state (ow_order w) = S_QUEUED \<or>
        order_state (ow_order w) = S_BACKOFF \<and>
          (case lc_next_action_at ?row of None \<Rightarrow> True | Some t \<Rightarrow> t \<le> now)"
      by auto
    from c(1) have "fst (cancel_requested_at parent now) = None"
      by (auto simp: cancel_requested_def order_lifecycle_def Let_def case_prod_beta split: if_splits)
    moreover have "lc_next_action_at ?row = order_due (ow_order w)"
      if "order_state (ow_order w) = S_BACKOFF"
      using that by (simp add: order_lifecycle_def Let_def case_prod_beta)
    ultimately show ?thesis
      using c(2) by (auto simp: order_state_words) (metis option.simps(5) retry_scheduled_due)
  qed
  moreover have "(w', Some a) = map_prod id Some (issue_attempt serial fence deadline now progress w)"
    using assms over d by (simp add: start_attempt_def recovery_over_def [symmetric] Let_def)
  then have "(w', a) = issue_attempt serial fence deadline now progress w"
    by (cases "issue_attempt serial fence deadline now progress w") simp
  note issue_attempt_fields [OF this [symmetric]]
  ultimately show ?thesis using over by auto
qed

theorem claim_starts_the_next_attempt_witness:
  "\<exists>w' a. start_attempt id (\<lambda>_. True) example_env None ''c2'' ''f7'' (seconds 70) (seconds 40) None
      queued_world = Inr (w', Some a) \<and> oa_attempt a = 1 \<and> so_state (ow_order w') = ''running''"
proof -
  let ?s = "start_attempt id (\<lambda>_. True) example_env None ''c2'' ''f7'' (seconds 70) (seconds 40) None
      queued_world"
  have "case ?s of Inr (w', Some a) \<Rightarrow> True | _ \<Rightarrow> False" by code_simp
  then obtain w' a where s: "?s = Inr (w', Some a)"
    by (auto split: sum.splits option.splits prod.splits)
  have "so_attempt (ow_order queued_world) = 0" by code_simp
  with claim_starts_the_next_attempt [OF s] s show ?thesis by simp
qed

text \<open>A claim that is refused before the recovery deadline writes nothing.\<close>

lemma refused_claim_writes_nothing:
  assumes "start_attempt sha256 declared env parent serial fence deadline now progress w
      = Inr (w', None)" "\<not> recovery_over env now w"
  shows "w' = w"
  using assms
  by (cases "issue_attempt serial fence deadline now progress w")
    (auto simp: start_attempt_def recovery_over_def Let_def split: if_splits)

text \<open>
  (C18) The claim itself does not refuse an order that is running: the core ignores the claim and
  answers the running row, which the write takes for its own, so a second attempt is recorded as
  running next to the first. Only the caller's choice of orders keeps this from happening.
\<close>

theorem running_order_is_claimed_again:
  assumes "so_state (ow_order w) = ''running''" "\<not> recovery_over env now w"
  shows "\<exists>w' a. start_attempt sha256 declared env parent serial fence deadline now progress w
      = Inr (w', Some a) \<and> oa_state a = ''running'' \<and> ow_attempts w' = ow_attempts w @ [a]"
proof -
  let ?row = "order_lifecycle env w (attempt_of w) parent now"
  have "lc_state ?row = S_RUNNING" using assms(1) by (simp add: order_state_words)
  with running_claim_is_ignored [OF this, of "order_view env w"] assms(2)
  have "start_attempt sha256 declared env parent serial fence deadline now progress w =
      Inr (map_prod id Some (issue_attempt serial fence deadline now progress w))"
    by (simp add: start_attempt_def recovery_over_def [symmetric] Let_def)
  then show ?thesis
    by (cases "issue_attempt serial fence deadline now progress w")
      (auto dest: issue_attempt_fields)
qed

theorem running_order_is_claimed_again_witness:
  "\<exists>w' a. start_attempt id (\<lambda>_. True) example_env None ''c2'' ''f2'' (seconds 70) (seconds 20) None
      example_world = Inr (w', Some a) \<and> oa_state a = ''running'' \<and>
      ow_attempts w' = ow_attempts example_world @ [a]"
  by (rule running_order_is_claimed_again) code_simp+

section \<open>The constraints of the tables\<close>

text \<open>
  \<^verbatim>\<open>ck_agent_operations_state\<close>, \<^verbatim>\<open>ck_agent_operation_attempts_state\<close> and the uniqueness of
  \<^verbatim>\<open>(operation_id, attempt)\<close> (models/operations.py), with the numbering that keeps it: no attempt
  has a number above the order's own.
\<close>

definition state_check :: "lifecycle_subject \<Rightarrow> string \<Rightarrow> bool" where
  "state_check subject word \<longleftrightarrow> word \<in> set (stored_words subject enum_class.enum)"

definition table_checks :: "order_world \<Rightarrow> bool" where
  "table_checks w \<longleftrightarrow>
     state_check Subject_AGENT_OPERATION (so_state (ow_order w)) \<and>
     list_all (\<lambda>a. state_check Subject_AGENT_OPERATION_ATTEMPT (oa_state a)
                    \<and> oa_attempt a \<le> so_attempt (ow_order w)) (ow_attempts w) \<and>
     distinct (map oa_attempt (ow_attempts w))"

lemma state_check_value: "state_check subject (lifecycle_state_value s)"
  by (simp add: state_check_def stored_words_def)

lemmas state_check_words [simp] =
  state_check_value [where s = S_QUEUED, simplified] state_check_value [where s = S_RUNNING, simplified]
  state_check_value [where s = S_BACKOFF, simplified]
  state_check_value [where s = S_OBSERVING, simplified]
  state_check_value [where s = S_NEEDS_OPERATOR, simplified]
  state_check_value [where s = S_SUCCEEDED, simplified] state_check_value [where s = S_FAILED, simplified]
  state_check_value [where s = S_CANCELLED, simplified]

lemma order_stored_check: "state_check subject (fst (order_stored order row t))"
  by (simp add: order_stored_def Let_def split: lifecycle_state.split)

lemma put_attempt_checks:
  assumes "only_lapses (attempt_row attempts n) b"
    and "list_all (\<lambda>a. state_check subject (oa_state a) \<and> oa_attempt a \<le> k) attempts"
    and "distinct (map oa_attempt attempts)"
  shows "list_all (\<lambda>a. state_check subject (oa_state a) \<and> oa_attempt a \<le> k) (put_attempt b attempts)
    \<and> distinct (map oa_attempt (put_attempt b attempts))"
proof (cases b)
  case None
  with assms show ?thesis by (simp add: put_attempt_def)
next
  case (Some y)
  with assms(1) obtain x where x: "attempt_row attempts n = Some x"
    by (auto simp: only_lapses_def split: option.splits)
  then have "x \<in> set attempts" by (auto simp: find_Some_iff split: option.splits)
  with assms(2) have "state_check subject (oa_state x)" "oa_attempt x \<le> k"
    by (auto simp: list_all_iff)
  moreover have "oa_attempt y = oa_attempt x" "oa_state y = oa_state x \<or> oa_state y = ''observing''"
    using assms(1) x Some by (simp_all add: only_lapses_def)
  ultimately have y: "state_check subject (oa_state y)" "oa_attempt y \<le> k" by auto
  have nums: "map oa_attempt (put_attempt b attempts) = map oa_attempt attempts"
    using Some by (auto simp: put_attempt_def)
  from assms(2) y Some
  have "list_all (\<lambda>a. state_check subject (oa_state a) \<and> oa_attempt a \<le> k) (put_attempt b attempts)"
    by (auto simp: put_attempt_def list_all_iff)
  with assms(3) show ?thesis unfolding nums by blast
qed

lemma apply_order_checks:
  assumes "table_checks w" "apply_order declared n before after now w = Inr (w', changed)"
  shows "table_checks w'"
proof -
  obtain b where b: "only_lapses (attempt_row (ow_attempts w) n) b"
    "ow_attempts w' = put_attempt b (ow_attempts w)"
    using apply_order_fields(5) [OF assms(2)] by blast
  have "so_state (ow_order w') = fst (order_stored (ow_order w) after now)"
    using assms(2) by (auto simp: apply_order_def dest: order_apply_fields(1))
  with assms(1) b apply_order_fields(2) [OF assms(2)]
    put_attempt_checks [OF b(1), of Subject_AGENT_OPERATION_ATTEMPT "so_attempt (ow_order w)"]
  show ?thesis by (simp add: table_checks_def order_stored_check)
qed

lemma table_checks_residue [simp]:
  "table_checks (w\<lparr>ow_order := (ow_order w)\<lparr>so_status_reason := r\<rparr>\<rparr>) = table_checks w"
  by (simp add: table_checks_def)

lemma order_settle_checks:
  assumes "table_checks w" "order_settle sha256 declared env given parent ev now w = Inr (w', s)"
  shows "table_checks w'"
proof -
  let ?n = "case given of Some k \<Rightarrow> Some k
    | None \<Rightarrow> (if so_attempt (ow_order w) > 0 then Some (so_attempt (ow_order w)) else None)"
  let ?w1 = "w\<lparr>ow_order := charge_recovery env w (attempt_row (ow_attempts w) ?n) ev now\<rparr>"
  have w1: "table_checks ?w1"
    using assms(1) by (simp add: table_checks_def charge_recovery_def begin_recovery_def Let_def)
  have "True \<and> table_checks w'"
    by (rule settle_loop_invariant [where P = "\<lambda>_. True" and Q = "\<lambda>_ _. True" and R = "\<lambda>_. True"
          and W = table_checks, OF _ _ _ assms(2) [unfolded order_settle_def Let_def settle_def]])
      (use w1 in \<open>auto simp: order_writer_def order_kind_adapter_def run_command_def
         split: command.splits dest: apply_order_checks\<close>)
  then show ?thesis by simp
qed

lemma issue_attempt_checks:
  assumes "table_checks w" "issue_attempt serial fence deadline now progress w = (w', a)"
  shows "table_checks w'"
proof -
  have "oa_attempt b < so_attempt (ow_order w) + 1" if "b \<in> set (ow_attempts w)" for b
    using assms(1) that by (auto simp: table_checks_def list_all_iff)
  with assms(1) show ?thesis
    unfolding table_checks_def issue_attempt_fields(5-7) [OF assms(2)]
    using issue_attempt_fields(1,4) [OF assms(2)] by (fastforce simp: list_all_iff)
qed

lemma reject_attempt_checks:
  assumes "table_checks w"
  shows "table_checks (fst (reject_attempt serial fence now outcome w))"
proof -
  have "oa_attempt b < so_attempt (ow_order w) + 1" if "b \<in> set (ow_attempts w)" for b
    using assms that by (auto simp: table_checks_def list_all_iff)
  with assms show ?thesis by (fastforce simp: table_checks_def reject_attempt_def Let_def list_all_iff)
qed

lemma reopen_checks:
  "table_checks w \<Longrightarrow> table_checks (w\<lparr>ow_order := reopen now (ow_order w)\<rparr>)"
  by (simp add: table_checks_def reopen_def)

lemma attempt_write_checks:
  assumes "table_checks w" and "x \<in> set (ow_attempts w)"
    and "oa_attempt y = oa_attempt x" "state_check Subject_AGENT_OPERATION_ATTEMPT (oa_state y)"
  shows "table_checks (w\<lparr>ow_attempts := put_attempt (Some y) (ow_attempts w)\<rparr>)"
proof -
  have "map oa_attempt (put_attempt (Some y) (ow_attempts w)) = map oa_attempt (ow_attempts w)"
    by (auto simp: put_attempt_def)
  moreover have "list_all (\<lambda>a. state_check Subject_AGENT_OPERATION_ATTEMPT (oa_state a)
      \<and> oa_attempt a \<le> so_attempt (ow_order w)) (put_attempt (Some y) (ow_attempts w))"
    using assms by (auto simp: table_checks_def put_attempt_def list_all_iff)
  ultimately show ?thesis using assms(1) by (simp add: table_checks_def)
qed

lemma result_word_check: "state_check subject (agent_result_state_value s)"
  by (cases s) simp_all

text \<open>The three writes of an attempt keep its number and write a word of the vocabulary.\<close>

lemma attempt_write_words:
  assumes "state_check Subject_AGENT_OPERATION_ATTEMPT (oa_state x)"
  shows "oa_attempt (end_unobserved_attempt now x) = oa_attempt x"
    "state_check Subject_AGENT_OPERATION_ATTEMPT (oa_state (end_unobserved_attempt now x))"
    "oa_attempt (expire_attempt x) = oa_attempt x"
    "state_check Subject_AGENT_OPERATION_ATTEMPT (oa_state (expire_attempt x))"
    "record_report word result x = Inr y \<Longrightarrow> oa_attempt y = oa_attempt x
       \<and> state_check Subject_AGENT_OPERATION_ATTEMPT (oa_state y)"
  using assms result_word_check
  by (auto simp: end_unobserved_attempt_def expire_attempt_def lapse_attempt_def record_report_def
      record_wire_state_def)

text \<open>
  An attempt that was ended or expired is neither running nor waiting for its own report, and doing
  it again changes nothing.
\<close>

lemma ended_attempt_is_over:
  "oa_state (end_unobserved_attempt now x) \<noteq> ''running'' \<and> \<not> attempt_is_observing (end_unobserved_attempt now x)"
  "end_unobserved_attempt later (end_unobserved_attempt now x) = end_unobserved_attempt now x"
proof -
  have "\<not> attempt_is_observing (a\<lparr>oa_state := ''failed'', oa_cause := c, oa_lease_deadline := d\<rparr>)" for a c d
    by (simp add: attempt_is_observing_def) code_simp
  then show "oa_state (end_unobserved_attempt now x) \<noteq> ''running'' \<and> \<not> attempt_is_observing (end_unobserved_attempt now x)"
    "end_unobserved_attempt later (end_unobserved_attempt now x) = end_unobserved_attempt now x"
    by (auto simp: end_unobserved_attempt_def)
qed

lemma expired_attempt_is_over:
  "oa_state (expire_attempt x) \<noteq> ''running'' \<and> \<not> attempt_reported_unknown (expire_attempt x)"
  "expire_attempt (expire_attempt x) = expire_attempt x"
  by (auto simp: expire_attempt_def lapse_attempt_def attempt_reported_unknown_def attempt_cause_def)

text \<open>A parent that has ended keeps its state and reason whatever its orders say.\<close>

lemma ended_parent_is_final:
  assumes "job_core (pj_state p) = Some s" "terminal_state s"
  shows "fst (set_parent_state state reason now keep_reason (p, b)) = p"
  using assms by (simp add: set_parent_state_def)



section \<open>A job in doubt\<close>

text \<open>No receipt of the current attempt proves that its process ceased.\<close>

definition unreceipted :: "order_world \<Rightarrow> bool" where
  "unreceipted w \<longleftrightarrow>
     list_all (\<lambda>a. oa_attempt a = so_attempt (ow_order w) \<longrightarrow> receipt_effect (Some a) = None)
       (ow_attempts w)"

definition job_run_world :: "order_world \<Rightarrow> bool" where
  "job_run_world w \<longleftrightarrow>
     so_kind (ow_order w) = agent_operation_value Op_RECIPE_JOB_RUN \<and> unreceipted w"

lemma receipt_None_iff:
  "receipt_effect (Some a) = None \<longleftrightarrow>
     oa_state a \<noteq> ''cancelled'' \<and> (\<forall>r. oa_result a = Some r \<longrightarrow> ar_job_run r = None)"
  by (auto simp: receipt_effect_def split: option.splits)

lemma lapse_keeps_receipt:
  "only_lapses (Some a) (Some b) \<Longrightarrow> receipt_effect (Some a) = None \<Longrightarrow> receipt_effect (Some b) = None"
  by (auto simp: only_lapses_def receipt_None_iff)

lemma put_attempt_unreceipted:
  assumes "list_all (\<lambda>a. oa_attempt a = k \<longrightarrow> receipt_effect (Some a) = None) attempts"
    and "only_lapses (attempt_row attempts n) b"
  shows "list_all (\<lambda>a. oa_attempt a = k \<longrightarrow> receipt_effect (Some a) = None) (put_attempt b attempts)"
proof (cases b)
  case None
  with assms(1) show ?thesis by (simp add: put_attempt_def)
next
  case (Some y)
  with assms(2) obtain x where x: "attempt_row attempts n = Some x"
    by (auto simp: only_lapses_def split: option.splits)
  then have "x \<in> set attempts" by (auto simp: find_Some_iff split: option.splits)
  moreover have "only_lapses (Some x) (Some y)" using assms(2) x Some by simp
  moreover from this have "oa_attempt y = oa_attempt x" by (simp add: only_lapses_def)
  ultimately show ?thesis
    using assms(1) Some by (auto simp: put_attempt_def list_all_iff dest: lapse_keeps_receipt)
qed

lemma observe_unreceipted:
  assumes "unreceipted w"
  shows "order_observe row w = E_UNKNOWN"
proof (cases "attempt_of w")
  case (Some a)
  then have "a \<in> set (ow_attempts w)" "oa_attempt a = so_attempt (ow_order w)"
    by (auto simp: current_attempt_def find_Some_iff)
  with assms have "receipt_effect (Some a) = None" by (auto simp: unreceipted_def list_all_iff)
  moreover from this have "oa_result a = Some r \<Longrightarrow> ar_job_run r = None" for r
    by (simp add: receipt_None_iff)
  moreover have "receipt_effect None = None" by (simp add: receipt_effect_def)
  ultimately show ?thesis
    using Some by (auto simp: order_observe_def Let_def split: option.split)
qed (simp add: order_observe_def receipt_effect_def Let_def split: option.split)

lemma job_run_save:
  assumes "job_run_world w" "rw_save (order_writer declared n now) b a w = Inr (w', saved)"
  shows "job_run_world w'"
proof -
  obtain changed where ap: "apply_order declared n b a now w = Inr (w', changed)"
    using assms(2) by (auto simp: order_writer_def)
  obtain y where "only_lapses (attempt_row (ow_attempts w) n) y"
    "ow_attempts w' = put_attempt y (ow_attempts w)"
    using apply_order_fields(5) [OF ap] by blast
  with assms(1) apply_order_fields(2,4) [OF ap] show ?thesis
    by (simp add: job_run_world_def unreceipted_def put_attempt_unreceipted)
qed

lemma job_run_command:
  assumes "job_run_world w" "lc_state row \<notin> {S_RUNNING, S_NEEDS_OPERATOR}"
    and "run_command (order_kind_adapter env) (order_writer declared n now) row c w = (w', answer)"
  shows "job_run_world w' \<and> (\<forall>ev. answer = Some ev \<longrightarrow> no_proof (lc_state row) ev)"
  using assms observe_unreceipted [of w row]
  by (auto simp: run_command_def order_kind_adapter_def order_writer_def job_run_world_def
      unreceipted_def no_proof_def split: command.splits)

lemma order_state_of_word:
  "so_state order = ''running'' \<Longrightarrow> order_state order = S_RUNNING"
  "so_state order = ''needs-operator'' \<Longrightarrow> order_state order = S_NEEDS_OPERATOR"
  "so_state order = ''succeeded'' \<Longrightarrow> order_state order = S_SUCCEEDED"
  "so_state order = ''failed'' \<Longrightarrow> order_state order = S_FAILED"
  "so_state order = ''cancelled'' \<Longrightarrow> order_state order = S_CANCELLED"
  "so_state order = ''observing'' \<Longrightarrow> looks order \<noteq> 0 \<Longrightarrow>
     order_state order = (if order_due order = None then S_NEEDS_OPERATOR else S_OBSERVING)"
  by (simp_all add: order_state_def retry_scheduled_def parked_words)

lemma doubt_is_not_claimable:
  assumes "in_doubt row" "order_displays w row"
  shows "order_state (ow_order w) \<notin> {S_QUEUED, S_BACKOFF}"
proof (cases "lc_state row = order_state (ow_order w)")
  case True
  with assms(1) show ?thesis by (auto simp: in_doubt_def)
next
  case False
  with assms(2) have w: "so_state (ow_order w) = fst (order_stored (ow_order w) row 0)"
    "lc_state row = S_OBSERVING \<longrightarrow> looks (ow_order w) = lc_observe_count row"
    by (simp_all add: order_displays_def)
  from assms(1) consider "lc_state row = S_SUCCEEDED" | "lc_state row = S_FAILED"
    | "lc_state row = S_CANCELLED" | "lc_state row = S_RUNNING" | "lc_state row = S_NEEDS_OPERATOR"
    | "lc_state row = S_OBSERVING" "lc_observe_count row > 0"
    by (auto simp: in_doubt_def)
  then show ?thesis
    using w by cases (simp_all add: order_stored_def order_state_of_word)
qed

lemma charge_recovery_only_moves_the_deadline:
  obtains d where "charge_recovery env w a ev now = (ow_order w)\<lparr>so_recovery_deadline := d\<rparr>"
proof (cases "charge_recovery env w a ev now = ow_order w")
  case True
  with that [of "so_recovery_deadline (ow_order w)"] show ?thesis by simp
next
  case False
  with that show ?thesis
    by (auto simp: charge_recovery_def begin_recovery_def Let_def split: if_splits)
qed

lemma order_state_recovery [simp]:
  "order_state (order\<lparr>so_recovery_deadline := d\<rparr>) = order_state order"
  by (simp add: order_state_def retry_scheduled_def Let_def cong: if_cong split del: if_split)

lemma order_state_observing:
  "order_state order = S_OBSERVING \<Longrightarrow> looks order \<noteq> 0"
  by (auto simp: order_state_def retry_scheduled_def order_is_parked_iff parked_words Let_def
      split: if_splits)

lemma adopted_doubt:
  assumes "so_attempt (ow_order w) > 0" "looks (ow_order w) \<ge> 0"
    and "order_state (ow_order w) \<notin> {S_QUEUED, S_BACKOFF}"
  shows "in_doubt (order_lifecycle env w a p now)"
proof -
  have "lc_effect (order_lifecycle env w a p now) \<noteq> E_NONE"
    using assms(1) by (simp add: order_lifecycle_def Let_def case_prod_beta)
  moreover have "order_state (ow_order w) \<noteq> S_SUPERSEDED"
    by (simp add: order_state_def Let_def)
  moreover have "order_state (ow_order w) = S_OBSERVING \<Longrightarrow> looks (ow_order w) > 0"
    using order_state_observing assms(2) by fastforce
  ultimately show ?thesis
    using assms by (cases "order_state (ow_order w)") (auto simp: in_doubt_def)
qed



section \<open>The parent job\<close>

text \<open>The words the aggregate reads, and the tests it makes of them.\<close>

abbreviation child_word :: "string \<times> bool \<Rightarrow> string" where
  "child_word c \<equiv> fst (aggregate_word c)"

abbreviation child_is :: "string list \<Rightarrow> string \<times> bool \<Rightarrow> bool" where
  "child_is ws c \<equiv> child_word c \<in> set ws"

definition child_retries :: "string \<times> bool \<Rightarrow> bool" where
  "child_retries c \<longleftrightarrow> child_is PARKED c \<and> snd c"

lemma aggregate_word_snd [simp]: "snd (aggregate_word c) = snd c"
  by (cases c) (simp add: aggregate_word_def split: option.split)

lemma aggregate_tests:
  "aggregate_parent_state orders stopping =
     (if list_ex child_retries orders
         \<and> list_all (\<lambda>c. child_word c = ''succeeded'' \<or> child_retries c) orders \<and> \<not> stopping
      then Some ''queued''
      else if list_ex (\<lambda>c. child_word c = ''failed'') orders
         \<and> list_all (child_is (AGGREGATE_FINAL @ PARKED)) orders
      then Some ''failed''
      else if orders = [] \<or> \<not> list_all (child_is AGGREGATE_FINAL) orders then None
      else if list_ex (\<lambda>c. child_word c = ''needs-operator'') orders then Some ''needs-operator''
      else if list_ex (\<lambda>c. child_word c = ''cancelled'') orders then Some ''cancelled''
      else Some ''succeeded'')"
proof -
  have W: "WAITING = ''needs-operator''" by (simp add: WAITING_def)
  have ex: "x \<in> set (map fst (map aggregate_word orders)) \<longleftrightarrow> list_ex (\<lambda>c. child_word c = x) orders" for x
    by (auto simp: list_ex_iff)
  have fin: "list_all (child_is AGGREGATE_FINAL) orders \<Longrightarrow> list_all (child_is (AGGREGATE_FINAL @ PARKED)) orders"
    by (auto simp: list_all_iff)
  show ?thesis
    using fin unfolding aggregate_parent_state_def Let_def ex W
    by (simp add: list.pred_map comp_def child_retries_def list_ex_iff list_all_iff)
qed

lemma child_not_retrying:
  "child_word c = ''succeeded'' \<Longrightarrow> \<not> child_retries c"
  "child_word c = ''cancelled'' \<Longrightarrow> \<not> child_retries c"
  "child_word c = ''failed'' \<Longrightarrow> \<not> child_retries c"
  by (simp_all add: child_retries_def parked_words)


text \<open>Which words exclude each other among the orders of one parent.\<close>

lemma child_words:
  "list_all (\<lambda>c. child_word c = ''succeeded'') orders \<Longrightarrow>
     \<not> list_ex child_retries orders \<and> \<not> list_ex (\<lambda>c. child_word c = ''cancelled'') orders"
  "list_all (child_is [''cancelled'', ''succeeded'']) orders \<Longrightarrow>
     list_all (child_is AGGREGATE_FINAL) orders \<and> \<not> list_ex child_retries orders \<and>
     \<not> list_ex (\<lambda>c. child_word c = ''failed'') orders \<and>
     \<not> list_ex (\<lambda>c. child_word c = ''needs-operator'') orders"
  "list_all (child_is AGGREGATE_FINAL) orders \<Longrightarrow>
     \<not> list_ex (\<lambda>c. child_word c = ''failed'') orders \<Longrightarrow>
     \<not> list_ex (\<lambda>c. child_word c = ''needs-operator'') orders \<Longrightarrow>
     list_all (child_is [''cancelled'', ''succeeded'']) orders"
  "list_all (child_is [''cancelled'', ''succeeded'']) orders \<Longrightarrow>
     list_all (\<lambda>c. child_word c = ''succeeded'') orders \<longleftrightarrow>
     \<not> list_ex (\<lambda>c. child_word c = ''cancelled'') orders"
  "list_all (\<lambda>c. child_word c = ''succeeded'') orders \<Longrightarrow>
     list_all (child_is [''cancelled'', ''succeeded'']) orders"
  "list_ex (\<lambda>c. child_word c = ''failed'') orders \<Longrightarrow>
     \<not> list_all (\<lambda>c. child_word c = ''succeeded'' \<or> child_retries c) orders"
  "list_all (child_is AGGREGATE_FINAL) orders \<Longrightarrow>
     list_all (child_is (AGGREGATE_FINAL @ PARKED)) orders"
  "list_ex P orders \<Longrightarrow> orders \<noteq> []"
  subgoal using child_not_retrying(1) by (fastforce simp: list_all_iff list_ex_iff)
  subgoal using child_not_retrying(1,2)
    by (fastforce simp: list_all_iff list_ex_iff aggregate_final_words)
  subgoal by (auto simp: list_all_iff list_ex_iff aggregate_final_words)
  subgoal by (fastforce simp: list_all_iff list_ex_iff)
  subgoal by (simp add: list_all_iff)
  subgoal using child_not_retrying(3) by (fastforce simp: list_all_iff list_ex_iff)
  by (auto simp: list_all_iff)

lemma aggregate_words:
  "aggregate_parent_state orders stopping = Some ''succeeded'' \<longleftrightarrow>
     orders \<noteq> [] \<and> list_all (\<lambda>c. child_word c = ''succeeded'') orders"
  "aggregate_parent_state orders stopping = Some ''failed'' \<longleftrightarrow>
     list_ex (\<lambda>c. child_word c = ''failed'') orders \<and>
     list_all (child_is (AGGREGATE_FINAL @ PARKED)) orders"
  "aggregate_parent_state orders stopping = Some ''queued'' \<longleftrightarrow>
     \<not> stopping \<and> list_ex child_retries orders \<and>
     list_all (\<lambda>c. child_word c = ''succeeded'' \<or> child_retries c) orders"
  "aggregate_parent_state orders stopping = Some ''cancelled'' \<longleftrightarrow>
     list_ex (\<lambda>c. child_word c = ''cancelled'') orders \<and>
     list_all (child_is [''cancelled'', ''succeeded'']) orders"
proof -
  note w = child_words [where orders = orders]
  show "aggregate_parent_state orders stopping = Some ''succeeded'' \<longleftrightarrow>
     orders \<noteq> [] \<and> list_all (\<lambda>c. child_word c = ''succeeded'') orders"
  proof (cases "list_all (\<lambda>c. child_word c = ''succeeded'') orders")
    case True
    from w(1) [OF True] w(2) [OF w(5) [OF True]] True show ?thesis by (simp add: aggregate_tests)
  next
    case False
    with w(3,4,7) show ?thesis unfolding aggregate_tests by (simp split: if_split)
  qed
  show "aggregate_parent_state orders stopping = Some ''failed'' \<longleftrightarrow>
     list_ex (\<lambda>c. child_word c = ''failed'') orders \<and>
     list_all (child_is (AGGREGATE_FINAL @ PARKED)) orders"
    using w(6) unfolding aggregate_tests by (auto split: if_split simp del: list_ex_iff)
  show "aggregate_parent_state orders stopping = Some ''queued'' \<longleftrightarrow>
     \<not> stopping \<and> list_ex child_retries orders \<and>
     list_all (\<lambda>c. child_word c = ''succeeded'' \<or> child_retries c) orders"
    unfolding aggregate_tests by (auto split: if_split)
  show "aggregate_parent_state orders stopping = Some ''cancelled'' \<longleftrightarrow>
     list_ex (\<lambda>c. child_word c = ''cancelled'') orders \<and>
     list_all (child_is [''cancelled'', ''succeeded'']) orders"
  proof (cases "list_all (child_is [''cancelled'', ''succeeded'']) orders")
    case True
    from w(2) [OF True] w(8) True show ?thesis unfolding aggregate_tests by auto
  next
    case False
    with w(3,7) show ?thesis unfolding aggregate_tests by (simp split: if_split) blast
  qed
qed

text \<open>
  The state a parent takes from its orders, each read through the vocabulary with a scheduled
  retry as a backoff. It succeeds when there are orders and all succeeded; it fails when one failed
  and no other is queued or running; it is queued again when, with no cancel asked, some order has
  a scheduled retry and the others succeeded; it is cancelled when one was cancelled and the others
  were cancelled or succeeded.
\<close>

lemma parent_follows_its_orders:
  "(aggregate_parent_state orders stopping = Some ''succeeded'' \<longleftrightarrow>
      orders \<noteq> [] \<and> list_all (\<lambda>c. child_word c = ''succeeded'') orders) \<and>
   (aggregate_parent_state orders stopping = Some ''failed'' \<longleftrightarrow>
      list_ex (\<lambda>c. child_word c = ''failed'') orders \<and>
      list_all (child_is (AGGREGATE_FINAL @ PARKED)) orders) \<and>
   (aggregate_parent_state orders stopping = Some ''queued'' \<longleftrightarrow>
      \<not> stopping \<and> list_ex child_retries orders \<and>
      list_all (\<lambda>c. child_word c = ''succeeded'' \<or> child_retries c) orders) \<and>
   (aggregate_parent_state orders stopping = Some ''cancelled'' \<longleftrightarrow>
      list_ex (\<lambda>c. child_word c = ''cancelled'') orders \<and>
      list_all (child_is [''cancelled'', ''succeeded'']) orders)"
  using aggregate_words [of orders stopping] by blast

end
