(* ===== verification/Glb_Bytes.thy ===== *)
theory Glb_Bytes
  imports Prelude "HOL-Library.Word"
begin

text \<open>
  Byte strings and the part of Python's \<^verbatim>\<open>struct\<close> and \<^verbatim>\<open>bytes\<close> that the GLB validator uses:
  slices, indexing (which raises \<open>IndexError\<close>), little and big endian unsigned integers
  (\<^verbatim>\<open>unpack_from\<close> and \<^verbatim>\<open>pack\<close>, which raise \<open>struct.error\<close>), \<^verbatim>\<open>rstrip(b" ")\<close> and \<^verbatim>\<open>find\<close>.
\<close>

type_synonym byte = "8 word"
type_synonym bytes = "byte list"

section \<open>Operations\<close>

text \<open>A bytes literal.\<close>

definition bytes_of :: "string \<Rightarrow> bytes" where
  "bytes_of s = map of_char s"

text \<open>\<open>v[a:b]\<close> for bounds that are not negative.\<close>

definition slice :: "nat \<Rightarrow> nat \<Rightarrow> bytes \<Rightarrow> bytes" where
  "slice a b v = take (b - a) (drop a v)"

definition byte_at :: "bytes \<Rightarrow> nat \<Rightarrow> nat result" where
  "byte_at v i = (if i < length v then Inr (unat (v ! i)) else Inl IndexError)"

fun le_nat :: "bytes \<Rightarrow> nat" where
  "le_nat [] = 0"
| "le_nat (b # bs) = unat b + 256 * le_nat bs"

definition be_nat :: "bytes \<Rightarrow> nat" where
  "be_nat bs = le_nat (rev bs)"

text \<open>\<open>struct.unpack_from\<close> of one unsigned integer of \<open>k\<close> bytes.\<close>

definition unpack_le :: "nat \<Rightarrow> bytes \<Rightarrow> nat \<Rightarrow> nat result" where
  "unpack_le k v i = (if i + k \<le> length v then Inr (le_nat (slice i (i + k) v)) else Inl StructError)"

definition unpack_be :: "nat \<Rightarrow> bytes \<Rightarrow> nat \<Rightarrow> nat result" where
  "unpack_be k v i = (if i + k \<le> length v then Inr (be_nat (slice i (i + k) v)) else Inl StructError)"

primrec le_bytes :: "nat \<Rightarrow> nat \<Rightarrow> bytes" where
  "le_bytes 0 n = []"
| "le_bytes (Suc k) n = of_nat (n mod 256) # le_bytes k (n div 256)"

definition be_bytes :: "nat \<Rightarrow> nat \<Rightarrow> bytes" where
  "be_bytes k n = rev (le_bytes k n)"

text \<open>\<open>struct.pack\<close> of one unsigned integer of \<open>k\<close> bytes.\<close>

definition pack_le :: "nat \<Rightarrow> nat \<Rightarrow> bytes result" where
  "pack_le k n = (if n < 256 ^ k then Inr (le_bytes k n) else Inl StructError)"

definition rstrip_spaces :: "bytes \<Rightarrow> bytes" where
  "rstrip_spaces v = rev (dropWhile (\<lambda>b. b = 0x20) (rev v))"

text \<open>\<open>v.find(pattern, start)\<close>, \<open>None\<close> for \<open>-1\<close>.\<close>

definition find_bytes :: "bytes \<Rightarrow> bytes \<Rightarrow> nat \<Rightarrow> nat option" where
  "find_bytes v pat start =
     find (\<lambda>i. take (length pat) (drop i v) = pat) [start..<Suc (length v)]"

section \<open>Lemmas\<close>

lemma length_slice [simp]: "length (slice a b v) = min (b - a) (length v - a)"
  by (simp add: slice_def)

lemma slice_append_mid:
  "a = length xs \<Longrightarrow> b = a + length ys \<Longrightarrow> slice a b (xs @ ys @ zs) = ys"
  by (simp add: slice_def)

lemma split_at_slice:
  "a \<le> b \<Longrightarrow> b \<le> length v \<Longrightarrow> v = take a v @ slice a b v @ drop b v"
proof -
  assume "a \<le> b" "b \<le> length v"
  then have "take b v = take a v @ slice a b v"
    using take_add [of a "b - a" v] by (simp add: slice_def)
  then show ?thesis using append_take_drop_id [of b v] by simp
qed

lemma drop_slice: "a \<le> b \<Longrightarrow> drop a v = slice a b v @ drop b v"
  using append_take_drop_id [of "b - a" "drop a v"] by (simp add: slice_def)

lemma slice_slice: "a \<le> b \<Longrightarrow> b \<le> c \<Longrightarrow> slice a c v = slice a b v @ slice b c v"
  using take_add [of "b - a" "c - b" "drop a v"] by (simp add: slice_def)

lemma byte_at_Inr [simp]: "i < length v \<Longrightarrow> byte_at v i = Inr (unat (v ! i))"
  by (simp add: byte_at_def)

lemma unpack_le_Inr [simp]:
  "i + k \<le> length v \<Longrightarrow> unpack_le k v i = Inr (le_nat (slice i (i + k) v))"
  by (simp add: unpack_le_def)

lemma unpack_be_Inr [simp]:
  "i + k \<le> length v \<Longrightarrow> unpack_be k v i = Inr (be_nat (slice i (i + k) v))"
  by (simp add: unpack_be_def)

lemma length_le_bytes [simp]: "length (le_bytes k n) = k"
  by (induction k arbitrary: n) auto

lemma length_be_bytes [simp]: "length (be_bytes k n) = k"
  by (simp add: be_bytes_def)

lemma unat_byte_bound: "unat (b :: byte) < 256"
  using unsigned_less [of b, where ?'a = nat] by simp

lemma le_nat_bound: "le_nat bs < 256 ^ length bs"
proof (induction bs)
  case (Cons b bs)
  have "unat b < 256" by (rule unat_byte_bound)
  with Cons show ?case by simp
qed simp

lemma be_nat_bound: "be_nat bs < 256 ^ length bs"
  using le_nat_bound [of "rev bs"] by (simp add: be_nat_def)

lemma unat_of_nat_byte: "unat (of_nat (n mod 256) :: byte) = n mod 256"
  by (simp add: unat_of_nat)

lemma le_nat_le_bytes [simp]: "le_nat (le_bytes k n) = n mod 256 ^ k"
proof (induction k arbitrary: n)
  case (Suc k)
  have "le_nat (le_bytes (Suc k) n) = n mod 256 + 256 * (n div 256 mod 256 ^ k)"
    by (simp add: Suc unat_of_nat_byte)
  also have "\<dots> = n mod (256 * 256 ^ k)" by (simp add: mod_mult2_eq)
  finally show ?case by simp
qed simp

lemma be_nat_be_bytes [simp]: "be_nat (be_bytes k n) = n mod 256 ^ k"
  by (simp add: be_nat_def be_bytes_def)

lemma le_bytes_le_nat: "le_bytes (length bs) (le_nat bs) = bs"
proof (induction bs)
  case (Cons b bs)
  have "unat b < 256" by (rule unat_byte_bound)
  with Cons show ?case by (simp add: mod_mult_self2 unat_byte_bound)
qed simp

lemma be_bytes_be_nat: "be_bytes (length bs) (be_nat bs) = bs"
  using le_bytes_le_nat [of "rev bs"] by (simp add: be_bytes_def be_nat_def)

lemma pack_le_Inr: "pack_le k n = Inr bs \<longleftrightarrow> n < 256 ^ k \<and> bs = le_bytes k n"
  by (auto simp: pack_le_def)

lemma takeWhile_replicate: "takeWhile (\<lambda>b. b = c) v = replicate (length (takeWhile (\<lambda>b. b = c) v)) c"
  by (induction v) auto

lemma rstrip_spaces_split:
  "v = rstrip_spaces v @ replicate (length v - length (rstrip_spaces v)) 0x20"
proof -
  define k where "k = length (takeWhile (\<lambda>b. b = 0x20) (rev v))"
  have "takeWhile (\<lambda>b. b = 0x20) (rev v) = replicate k 0x20"
    unfolding k_def by (rule takeWhile_replicate)
  then have "rev v = replicate k 0x20 @ rev (rstrip_spaces v)"
    using takeWhile_dropWhile_id [of "\<lambda>b. b = 0x20" "rev v"] by (simp add: rstrip_spaces_def)
  then have v: "v = rstrip_spaces v @ replicate k 0x20" by (simp add: rev_swap)
  have "length v = length (rstrip_spaces v) + k" using arg_cong [OF v, of length] by simp
  then show ?thesis using v by simp
qed

lemma length_rstrip_spaces: "length (rstrip_spaces v) \<le> length v"
  by (simp add: rstrip_spaces_def length_dropWhile_le [of _ "rev v", simplified])

lemma rstrip_spaces_append: "rstrip_spaces (v @ replicate n 0x20) = rstrip_spaces v"
  by (simp add: rstrip_spaces_def dropWhile_append)

lemma rstrip_spaces_idem [simp]: "rstrip_spaces (rstrip_spaces v) = rstrip_spaces v"
proof -
  have "rstrip_spaces v = rstrip_spaces (rstrip_spaces v
      @ replicate (length v - length (rstrip_spaces v)) 0x20)"
    using rstrip_spaces_split [of v] by simp
  then show ?thesis by (simp add: rstrip_spaces_append)
qed

end
