(* ===== verification/Py_Float.thy ===== *)
theory Py_Float
  imports Complex_Main Prelude "HOL-Library.Log_Nat" "HOL-Library.Code_Target_Numeral"
begin

text \<open>
  Python's \<^verbatim>\<open>float\<close>, an IEEE 754 binary64 number: a finite value is the rational it denotes, the
  sign of zero is not kept (nothing modelled here reads it). Arithmetic rounds the exact result
  to nearest, ties to even; \<^verbatim>\<open>float(int)\<close> raises \<open>OverflowError\<close> and division by zero raises, as
  Python does. \<^verbatim>\<open>sum\<close> over floats is the compensated summation of CPython 3.12 and later, and
  \<^verbatim>\<open>math.isclose\<close> is CPython's. \<^verbatim>\<open>struct\<close>'s format \<^verbatim>\<open>f\<close> (binary32) is read exactly.
\<close>

datatype pyfloat =
    FFin rat
  | FInf bool \<comment> \<open>the flag is set for minus infinity\<close>
  | FNaN

fun isfinite :: "pyfloat \<Rightarrow> bool" where
  "isfinite (FFin r) = True"
| "isfinite (FInf s) = False"
| "isfinite FNaN = False"

section \<open>Rounding\<close>

text \<open>The exponent of a positive rational: \<open>2 ^ e \<le> r < 2 ^ (e + 1)\<close>.\<close>

definition ilog2 :: "rat \<Rightarrow> int" where
  "ilog2 r =
     (let (n, d) = quotient_of r;
          k = bitlen n - bitlen d
      in if r < power_int 2 k then k - 1 else k)"

definition round_half_even :: "rat \<Rightarrow> int" where
  "round_half_even x =
     (let m = \<lfloor>x\<rfloor>; rest = x - of_int m
      in if rest < 1 / 2 \<or> (rest = 1 / 2 \<and> even m) then m else m + 1)"

definition round64 :: "rat \<Rightarrow> pyfloat" where
  "round64 r =
     (if r = 0 then FFin 0
      else let q = max (ilog2 \<bar>r\<bar> - 52) (- 1074);
               v = of_int (round_half_even (r / power_int 2 q)) * power_int 2 q
           in if v \<noteq> 0 \<and> 1024 \<le> ilog2 \<bar>v\<bar> then FInf (r < 0) else FFin v)"

text \<open>\<open>float(i)\<close>.\<close>

definition float_of_int :: "int \<Rightarrow> pyfloat result" where
  "float_of_int i =
     (case round64 (of_int i) of FFin r \<Rightarrow> Inr (FFin r) | _ \<Rightarrow> Inl OverflowError)"

section \<open>Arithmetic and comparison\<close>

fun fneg :: "pyfloat \<Rightarrow> pyfloat" where
  "fneg (FFin a) = FFin (- a)"
| "fneg (FInf s) = FInf (\<not> s)"
| "fneg FNaN = FNaN"

fun fadd :: "pyfloat \<Rightarrow> pyfloat \<Rightarrow> pyfloat" where
  "fadd (FFin a) (FFin b) = round64 (a + b)"
| "fadd (FFin a) (FInf s) = FInf s"
| "fadd (FInf s) (FFin b) = FInf s"
| "fadd (FInf s) (FInf t) = (if s = t then FInf s else FNaN)"
| "fadd _ _ = FNaN"

definition fsub :: "pyfloat \<Rightarrow> pyfloat \<Rightarrow> pyfloat" where
  "fsub a b = fadd a (fneg b)"

fun fmul :: "pyfloat \<Rightarrow> pyfloat \<Rightarrow> pyfloat" where
  "fmul (FFin a) (FFin b) = round64 (a * b)"
| "fmul (FFin a) (FInf s) = (if a = 0 then FNaN else FInf (s \<noteq> (a < 0)))"
| "fmul (FInf s) (FFin b) = (if b = 0 then FNaN else FInf (s \<noteq> (b < 0)))"
| "fmul (FInf s) (FInf t) = FInf (s \<noteq> t)"
| "fmul _ _ = FNaN"

fun fdiv :: "pyfloat \<Rightarrow> pyfloat \<Rightarrow> pyfloat result" where
  "fdiv (FFin a) (FFin b) = (if b = 0 then Inl ZeroDivisionError else Inr (round64 (a / b)))"
| "fdiv (FFin a) (FInf s) = Inr (FFin 0)"
| "fdiv (FInf s) (FFin b) =
     (if b = 0 then Inl ZeroDivisionError else Inr (FInf (s \<noteq> (b < 0))))"
| "fdiv FNaN (FFin b) = (if b = 0 then Inl ZeroDivisionError else Inr FNaN)"
| "fdiv _ _ = Inr FNaN"

fun fabs :: "pyfloat \<Rightarrow> pyfloat" where
  "fabs (FFin a) = FFin \<bar>a\<bar>"
| "fabs (FInf s) = FInf False"
| "fabs FNaN = FNaN"

fun flt :: "pyfloat \<Rightarrow> pyfloat \<Rightarrow> bool" where
  "flt (FFin a) (FFin b) = (a < b)"
| "flt (FFin a) (FInf s) = (\<not> s)"
| "flt (FInf s) (FFin b) = s"
| "flt (FInf s) (FInf t) = (s \<and> \<not> t)"
| "flt _ _ = False"

definition feq :: "pyfloat \<Rightarrow> pyfloat \<Rightarrow> bool" where
  "feq a b \<longleftrightarrow> a = b \<and> a \<noteq> FNaN"

definition fle :: "pyfloat \<Rightarrow> pyfloat \<Rightarrow> bool" where
  "fle a b \<longleftrightarrow> flt a b \<or> feq a b"

text \<open>Python's \<open>min(a, b)\<close> and \<open>max(a, b)\<close> keep the first unless the second is strictly better.\<close>

definition fmin :: "pyfloat \<Rightarrow> pyfloat \<Rightarrow> pyfloat" where
  "fmin a b = (if flt b a then b else a)"

definition fmax :: "pyfloat \<Rightarrow> pyfloat \<Rightarrow> pyfloat" where
  "fmax a b = (if flt a b then b else a)"

text \<open>\<open>sum(xs)\<close> over floats: the running total and its compensation.\<close>

fun sum_loop :: "pyfloat \<Rightarrow> pyfloat \<Rightarrow> pyfloat list \<Rightarrow> pyfloat" where
  "sum_loop acc c [] =
     (if c \<noteq> FFin 0 \<and> isfinite c then fadd acc c else acc)"
| "sum_loop acc c (x # xs) =
     (let t = fadd acc x;
          lost = (if fle (fabs x) (fabs acc) then fadd (fsub acc t) x
                  else fadd (fsub x t) acc)
      in sum_loop t (fadd c lost) xs)"

definition fsum :: "pyfloat list \<Rightarrow> pyfloat" where
  "fsum xs = sum_loop (FFin 0) (FFin 0) xs"

text \<open>\<open>math.isclose(a, b, rel_tol=rel, abs_tol=tol)\<close>.\<close>

definition isclose :: "pyfloat \<Rightarrow> pyfloat \<Rightarrow> pyfloat \<Rightarrow> pyfloat \<Rightarrow> bool" where
  "isclose rel tol a b \<longleftrightarrow>
     (if feq a b then True
      else if a \<in> {FInf True, FInf False} \<or> b \<in> {FInf True, FInf False} then False
      else let diff = fabs (fsub b a)
           in fle diff (fabs (fmul rel b)) \<or> fle diff (fabs (fmul rel a)) \<or> fle diff tol)"

section \<open>Single precision\<close>

text \<open>The value of the 32 bits of a binary32 number.\<close>

definition float32 :: "nat \<Rightarrow> pyfloat" where
  "float32 b =
     (let s = (2 ^ 31 \<le> b); e = (b div 2 ^ 23) mod 256; m = b mod 2 ^ 23;
          sign = (if s then - 1 else 1)
      in if e = 255 then (if m = 0 then FInf s else FNaN)
         else if e = 0 then FFin (sign * of_nat m * power_int 2 (- 149))
         else FFin (sign * of_nat (2 ^ 23 + m) * power_int 2 (int e - 150)))"

section \<open>Lemmas\<close>

text \<open>Zero is read off the bits, without the powers of two.\<close>

lemma float32_code [code]:
  "float32 b =
     (let s = (2 ^ 31 \<le> b); e = (b div 2 ^ 23) mod 256; m = b mod 2 ^ 23;
          sign = (if s then - 1 else 1)
      in if e = 255 then (if m = 0 then FInf s else FNaN)
         else if e = 0 then if m = 0 then FFin 0 else FFin (sign * of_nat m * power_int 2 (- 149))
         else FFin (sign * of_nat (2 ^ 23 + m) * power_int 2 (int e - 150)))"
  by (simp add: float32_def Let_def)

lemma ilog2_bounds:
  assumes "0 < r"
  shows "power_int 2 (ilog2 r) \<le> r" and "r < power_int 2 (ilog2 r + 1)"
proof -
  obtain n d where q: "quotient_of r = (n, d)" by (cases "quotient_of r")
  have r: "r = of_int n / of_int d" and d: "0 < d"
    using q by (simp_all add: quotient_of_div quotient_of_denom_pos)
  have n: "0 < n" using assms r d by (simp add: zero_less_divide_iff)
  define a where "a = floorlog 2 (nat n)"
  define b where "b = floorlog 2 (nat d)"
  have a: "a \<noteq> 0" "2 ^ (a - 1) \<le> nat n" "nat n < 2 ^ a"
    using n floorlog_bounds [of "nat n" 2] by (auto simp: a_def floorlog_eq_zero_iff)
  have b: "b \<noteq> 0" "2 ^ (b - 1) \<le> nat d" "nat d < 2 ^ b"
    using d floorlog_bounds [of "nat d" 2] by (auto simp: b_def floorlog_eq_zero_iff)
  have ra: "(2 :: rat) ^ (a - 1) \<le> of_int n" "of_int n < (2 :: rat) ^ a"
    using a n by (metis of_nat_le_iff of_nat_less_iff of_nat_numeral of_nat_power of_nat_nat
        less_imp_le)+
  have rb: "(2 :: rat) ^ (b - 1) \<le> of_int d" "of_int d < (2 :: rat) ^ b"
    using b d by (metis of_nat_le_iff of_nat_less_iff of_nat_numeral of_nat_power of_nat_nat
        less_imp_le)+
  have "power_int 2 (int a - int b - 1) = (2 :: rat) ^ (a - 1) / 2 ^ b"
    using a by (simp add: power_int_diff of_nat_diff flip: power_int_of_nat)
  also have "\<dots> < r" unfolding r using ra rb d n
    by (intro frac_less2) auto
  finally have low: "power_int 2 (int a - int b - 1) < r" .
  have "r < (2 :: rat) ^ a / 2 ^ (b - 1)" unfolding r using ra rb d n
    by (intro frac_less) auto
  also have "\<dots> = power_int 2 (int a - int b + 1)"
    using b by (simp add: power_int_diff power_int_add of_nat_diff flip: power_int_of_nat)
  finally have high: "r < power_int 2 (int a - int b + 1)" .
  have e: "ilog2 r = (if r < power_int 2 (int a - int b) then int a - int b - 1 else int a - int b)"
    by (simp add: ilog2_def q a_def b_def Let_def bitlen_def)
  show "power_int 2 (ilog2 r) \<le> r" "r < power_int 2 (ilog2 r + 1)"
    using low high by (simp_all add: e)
qed

lemma ilog2_ge: "0 < r \<Longrightarrow> k \<le> ilog2 r \<longleftrightarrow> power_int 2 k \<le> r"
proof
  assume r: "0 < r" and "k \<le> ilog2 r"
  then have "power_int 2 k \<le> (power_int 2 (ilog2 r) :: rat)"
    by (intro power_int_increasing) auto
  then show "power_int 2 k \<le> r" using ilog2_bounds(1) [OF r] by (rule order.trans)
next
  assume r: "0 < r" and "power_int 2 k \<le> r"
  then have "power_int 2 k < (power_int 2 (ilog2 r + 1) :: rat)"
    using ilog2_bounds(2) [OF r] by linarith
  then have "k < ilog2 r + 1"
    by (meson not_less one_le_numeral power_int_increasing)
  then show "k \<le> ilog2 r" by simp
qed

lemma round_half_even_int [simp]: "round_half_even (of_int i) = i"
  by (simp add: round_half_even_def)

lemma round_half_even_near: "\<bar>of_int (round_half_even x) - x\<bar> \<le> 1 / 2"
proof -
  have "of_int \<lfloor>x\<rfloor> \<le> x" "x < of_int \<lfloor>x\<rfloor> + 1" by linarith+
  then show ?thesis unfolding round_half_even_def Let_def by (simp add: abs_le_iff)
qed

text \<open>The result is within half a unit in the last place.\<close>

lemma round64_error:
  assumes "round64 r = FFin v"
  shows "\<bar>v - r\<bar> \<le> power_int 2 (max (ilog2 \<bar>r\<bar> - 52) (- 1074)) / 2"
proof (cases "r = 0")
  case False
  define q where "q = max (ilog2 \<bar>r\<bar> - 52) (- 1074)"
  have v: "v = of_int (round_half_even (r / power_int 2 q)) * power_int 2 q"
    using assms False by (auto simp: round64_def q_def Let_def split: if_splits)
  have "v - r = (of_int (round_half_even (r / power_int 2 q)) - r / power_int 2 q) * power_int 2 q"
    by (simp add: v left_diff_distrib)
  then have "\<bar>v - r\<bar> = \<bar>of_int (round_half_even (r / power_int 2 q)) - r / power_int 2 q\<bar> * power_int 2 q"
    by (simp add: abs_mult)
  also have "\<dots> \<le> 1 / 2 * power_int 2 q"
    by (intro mult_right_mono round_half_even_near) simp
  finally show ?thesis by (simp add: q_def)
next
  case True
  then show ?thesis using assms by (auto simp: round64_def)
qed

text \<open>A number with at most 53 significant bits is not changed.\<close>

lemma round64_exact:
  assumes m: "\<bar>m\<bar> < 2 ^ 53" and q: "- 1074 \<le> q" and r: "r = of_int m * power_int 2 q"
    and small: "\<bar>r\<bar> < 2 ^ 1024"
  shows "round64 r = FFin r"
proof (cases "r = 0")
  case False
  define p where "p = max (ilog2 \<bar>r\<bar> - 52) (- 1074)"
  have "power_int 2 (ilog2 \<bar>r\<bar>) \<le> \<bar>r\<bar>" using False by (intro ilog2_bounds(1)) simp
  also have "\<bar>r\<bar> < 2 ^ 53 * power_int 2 q"
  proof -
    have "\<bar>of_int m :: rat\<bar> < 2 ^ 53" using m by (metis of_int_abs of_int_less_numeral_power_cancel_iff)
    then show ?thesis by (simp add: r abs_mult)
  qed
  also have "\<dots> = power_int 2 (q + 53)" by (simp add: power_int_add)
  finally have "ilog2 \<bar>r\<bar> < q + 53"
    by (meson not_less one_le_numeral power_int_increasing order.strict_trans1)
  then have le: "p \<le> q" using q by (simp add: p_def)
  have "power_int 2 q = (2 :: rat) ^ nat (q - p) * power_int 2 p"
    using le by (simp flip: power_int_of_nat power_int_add)
  then have "r / power_int 2 p = of_int (m * 2 ^ nat (q - p))" by (simp add: r)
  then have "round_half_even (r / power_int 2 p) = m * 2 ^ nat (q - p)"
    by (metis round_half_even_int)
  moreover have "of_int (m * 2 ^ nat (q - p)) * power_int 2 p = r"
    using \<open>r / power_int 2 p = _\<close> by (simp add: field_simps)
  moreover have "\<not> 1024 \<le> ilog2 \<bar>r\<bar>" using small False by (simp add: ilog2_ge)
  ultimately show ?thesis using False
    by (simp add: round64_def Let_def flip: p_def)
qed (simp add: round64_def)

lemma float_of_int_exact: "\<bar>i\<bar> < 2 ^ 53 \<Longrightarrow> float_of_int i = Inr (FFin (of_int i))"
proof -
  assume i: "\<bar>i\<bar> < 2 ^ 53"
  then have "\<bar>of_int i :: rat\<bar> < 2 ^ 53"
    by (metis of_int_abs of_int_less_numeral_power_cancel_iff)
  then have "\<bar>of_int i :: rat\<bar> < 2 ^ 1024" by (rule order.strict_trans) simp
  with i show ?thesis using round64_exact [of i 0 "of_int i"] by (simp add: float_of_int_def)
qed

text \<open>An integer of 1025 bits or more has no float.\<close>

lemma round_half_even_ge: "of_int k \<le> x \<Longrightarrow> k \<le> round_half_even x"
  unfolding round_half_even_def Let_def by (simp add: le_floor_iff) linarith

lemma float_of_int_overflow:
  assumes "2 ^ 1024 \<le> i"
  shows "float_of_int i = Inl OverflowError"
proof -
  define r where "r = (of_int i :: rat)"
  define e where "e = ilog2 r"
  define m where "m = round_half_even (r / power_int 2 (e - 52))"
  define v where "v = of_int m * (power_int 2 (e - 52) :: rat)"
  have "of_int (2 ^ 1024) \<le> r" unfolding r_def using assms by (simp only: of_int_le_iff)
  then have r: "power_int 2 1024 \<le> r" by (simp add: power_int_def)
  then have r0: "0 < r" by (rule order.strict_trans2 [rotated]) simp
  have e: "1024 \<le> e" using ilog2_ge [OF r0] r by (simp add: e_def)
  have split: "power_int 2 e = 2 ^ 52 * (power_int 2 (e - 52) :: rat)"
    by (simp add: power_int_diff)
  have "2 ^ 52 \<le> r / power_int 2 (e - 52)"
    using ilog2_bounds(1) [OF r0, folded e_def] by (simp add: split pos_le_divide_eq)
  then have m: "2 ^ 52 \<le> m"
    unfolding m_def by (intro round_half_even_ge) simp
  then have "(2 ^ 52 :: rat) \<le> of_int m" by (metis of_int_le_iff of_int_numeral of_int_power)
  then have v: "power_int 2 e \<le> v" unfolding v_def split by (intro mult_right_mono) auto
  then have v0: "0 < v" by (rule order.strict_trans2 [rotated]) simp
  have "e \<le> ilog2 v" using v ilog2_ge [OF v0] by simp
  then have "round64 r = FInf (r < 0)"
    using r0 e v0 m by (simp add: round64_def Let_def max_absorb1 flip: e_def m_def v_def)
  then show ?thesis by (simp add: float_of_int_def r_def)
qed

end
