(* ===== verification/Glb_Container.thy ===== *)
theory Glb_Container
  imports Glb_Bytes Py_Float
begin

text \<open>
  The container of a GLB file and its JSON document
  (\<^verbatim>\<open>cluster_profiles/glb_validation/common.py\<close>, \<^verbatim>\<open>accessors.py\<close>): \<^verbatim>\<open>normalize_glb_json_padding\<close>,
  the typed readers \<^verbatim>\<open>_array\<close>, \<^verbatim>\<open>_object\<close>, \<^verbatim>\<open>_index\<close>, \<^verbatim>\<open>_bound\<close>, the check for non-finite numbers
  and \<^verbatim>\<open>_parse\<close>. A JSON value is a \<open>pyvalue\<close>; a \<^verbatim>\<open>dict\<close> is its list of items. The decoding of the
  JSON text, \<^verbatim>\<open>json.loads(chunk.decode("utf-8"), ...)\<close>, is the parameter \<open>json_loads\<close>, which takes the
  two hooks the code passes.
\<close>

section \<open>Values\<close>

datatype pyvalue =
    PNone
  | PBool bool
  | PInt int
  | PFloat pyfloat
  | PStr string
  | PList "pyvalue list"
  | PDict "(string \<times> pyvalue) list"

type_synonym pydict = "(string \<times> pyvalue) list"

text \<open>\<open>d.get(key, default)\<close>, \<open>d.get(key)\<close> and \<open>key in d\<close>.\<close>

definition dict_get_or :: "pydict \<Rightarrow> string \<Rightarrow> pyvalue \<Rightarrow> pyvalue" where
  "dict_get_or d key dflt = (case map_of d key of None \<Rightarrow> dflt | Some v \<Rightarrow> v)"

abbreviation dict_get :: "pydict \<Rightarrow> string \<Rightarrow> pyvalue" where
  "dict_get d key \<equiv> dict_get_or d key PNone"

definition has_key :: "pydict \<Rightarrow> string \<Rightarrow> bool" where
  "has_key d key \<longleftrightarrow> map_of d key \<noteq> None"

text \<open>\<open>isinstance(v, int) and not isinstance(v, bool)\<close>.\<close>

fun is_int :: "pyvalue \<Rightarrow> bool" where
  "is_int (PInt i) = True"
| "is_int _ = False"

fun int_of :: "pyvalue \<Rightarrow> int" where
  "int_of (PInt i) = i"
| "int_of _ = 0"

text \<open>
  The number a value is equal to, if any (\<^verbatim>\<open>True == 1 == 1.0\<close>), and membership in a set literal, which
  hashes the value: lists and dictionaries raise \<open>TypeError\<close>.
\<close>

fun number_of_value :: "pyvalue \<Rightarrow> rat option" where
  "number_of_value (PBool b) = Some (if b then 1 else 0)"
| "number_of_value (PInt i) = Some (of_int i)"
| "number_of_value (PFloat (FFin r)) = Some r"
| "number_of_value _ = None"

definition equals_int :: "pyvalue \<Rightarrow> int \<Rightarrow> bool" where
  "equals_int v i \<longleftrightarrow> number_of_value v = Some (of_int i)"

fun hashable :: "pyvalue \<Rightarrow> bool" where
  "hashable (PList xs) = False"
| "hashable (PDict d) = False"
| "hashable _ = True"

definition in_int_set :: "pyvalue \<Rightarrow> int list \<Rightarrow> bool result" where
  "in_int_set v xs = (if hashable v then Inr (list_ex (equals_int v) xs) else Inl TypeError)"

definition in_str_set :: "pyvalue \<Rightarrow> string list \<Rightarrow> bool result" where
  "in_str_set v xs = (if hashable v then Inr (v \<in> PStr ` set xs) else Inl TypeError)"

section \<open>Readers\<close>

definition array_field :: "pydict \<Rightarrow> string \<Rightarrow> bool \<Rightarrow> pyvalue list result" where
  "array_field document name required =
     (case dict_get_or document name (PList []) of
        PList xs \<Rightarrow> if (required \<and> xs = []) \<or> length xs > 1000000 then Inl ValueError else Inr xs
      | _ \<Rightarrow> Inl ValueError)"

fun object_of :: "pyvalue \<Rightarrow> pydict result" where
  "object_of (PDict d) = Inr d"
| "object_of _ = Inl ValueError"

fun index_of :: "pyvalue \<Rightarrow> nat \<Rightarrow> nat result" where
  "index_of (PInt i) n = (if 0 \<le> i \<and> i < int n then Inr (nat i) else Inl ValueError)"
| "index_of _ n = Inl ValueError"

text \<open>
  \<open>isinstance(item, bool) or not isinstance(item, (int, float)) or not math.isfinite(float(item))\<close>;
  \<^verbatim>\<open>float\<close> of an integer that is too large raises.
\<close>

fun not_finite_number :: "pyvalue \<Rightarrow> bool result" where
  "not_finite_number (PInt i) = res_map (\<lambda>f. \<not> isfinite f) (float_of_int i)"
| "not_finite_number (PFloat f) = Inr (\<not> isfinite f)"
| "not_finite_number _ = Inr True"

fun to_float :: "pyvalue \<Rightarrow> pyfloat result" where
  "to_float (PInt i) = float_of_int i"
| "to_float (PFloat f) = Inr f"
| "to_float (PBool b) = Inr (FFin (if b then 1 else 0))"
| "to_float _ = Inl TypeError"

text \<open>\<open>not isinstance(value, list) or len(value) != size or any(...)\<close>.\<close>

fun not_number_array :: "nat \<Rightarrow> pyvalue \<Rightarrow> bool result" where
  "not_number_array n (PList xs) =
     (if length xs \<noteq> n then Inr True else any_result not_finite_number xs)"
| "not_number_array n _ = Inr True"

fun finite_number_list :: "pyvalue list \<Rightarrow> pyfloat list option result" where
  "finite_number_list [] = Inr (Some [])"
| "finite_number_list (item # rest) =
     (case item of
        PInt i \<Rightarrow> res_bind (float_of_int i) (\<lambda>f.
          if isfinite f then res_map (map_option ((#) f)) (finite_number_list rest) else Inr None)
      | PFloat f \<Rightarrow>
          if isfinite f then res_map (map_option ((#) f)) (finite_number_list rest) else Inr None
      | _ \<Rightarrow> Inr None)"

fun finite_numbers :: "pyvalue \<Rightarrow> pyfloat list option result" where
  "finite_numbers (PList xs) = finite_number_list xs"
| "finite_numbers _ = Inr None"

definition accessor_bound :: "pydict \<Rightarrow> nat \<Rightarrow> string \<Rightarrow> pyfloat list option result" where
  "accessor_bound accessor component_count field =
     (case dict_get accessor field of
        PNone \<Rightarrow> Inr None
      | v \<Rightarrow> res_bind (not_number_array component_count v) (\<lambda>bad.
          if bad then Inl ValueError
          else case v of PList xs \<Rightarrow> res_map Some (seq_results (map to_float xs))
            | _ \<Rightarrow> Inl ValueError))"

text \<open>
  The stack of \<^verbatim>\<open>_reject_nonfinite_json\<close>, top first: popping takes the last value pushed.
\<close>

fun pyvalue_size :: "pyvalue \<Rightarrow> nat" where
  "pyvalue_size (PList xs) = Suc (sum_list (map pyvalue_size xs))"
| "pyvalue_size (PDict d) = Suc (sum_list (map (\<lambda>(k, v). pyvalue_size v) d))"
| "pyvalue_size _ = 1"

function reject_nonfinite_loop :: "pyvalue list \<Rightarrow> unit result" where
  "reject_nonfinite_loop [] = Inr ()"
| "reject_nonfinite_loop (item # pending) =
     (case item of
        PFloat f \<Rightarrow> if isfinite f then reject_nonfinite_loop pending else Inl ValueError
      | PList xs \<Rightarrow> reject_nonfinite_loop (rev xs @ pending)
      | PDict d \<Rightarrow> reject_nonfinite_loop (rev (map snd d) @ pending)
      | _ \<Rightarrow> reject_nonfinite_loop pending)"
  by pat_completeness auto

termination
  by (relation "measure (\<lambda>xs. sum_list (map pyvalue_size xs))")
    (auto simp: rev_map [symmetric] sum_list_rev split_def o_def)

definition reject_nonfinite_json :: "pyvalue \<Rightarrow> unit result" where
  "reject_nonfinite_json v = reject_nonfinite_loop [v]"

section \<open>The container\<close>

definition JSON_CHUNK :: nat where "JSON_CHUNK = 0x4E4F534A"
definition BIN_CHUNK :: nat where "BIN_CHUNK = 0x004E4942"
definition MAX_JSON_BYTES :: nat where "MAX_JSON_BYTES = 16 * 1024 * 1024"

text \<open>
  \<^verbatim>\<open>normalize_glb_json_padding\<close>: the content of the file afterwards. \<^verbatim>\<open>struct.pack\<close> raises for a
  length that does not fit 32 bits.
\<close>

definition normalize_glb_json_padding :: "bytes \<Rightarrow> bytes result" where
  "normalize_glb_json_padding data =
     (if length data < 28 \<or> slice 0 4 data \<noteq> bytes_of ''glTF'' then Inr data
      else
        res_bind (unpack_le 4 data 4) (\<lambda>version.
        res_bind (unpack_le 4 data 12) (\<lambda>json_length.
        res_bind (unpack_le 4 data 16) (\<lambda>json_kind.
        let json_end = 20 + json_length
        in if json_kind \<noteq> JSON_CHUNK \<or> json_end + 8 > length data then Inr data
           else
             let json_body = slice 20 json_end data;
                 stripped = rstrip_spaces json_body
             in if stripped = [] \<or> length json_body - length stripped \<le> 3 then Inr data
                else
                  let canon = stripped @ replicate (nat (- int (length stripped) mod 4)) 0x20;
                      remainder = drop json_end data
                  in res_bind (pack_le 4 version) (\<lambda>v.
                     res_bind (pack_le 4 (12 + 8 + length canon + length remainder)) (\<lambda>len.
                     res_bind (pack_le 4 (length canon)) (\<lambda>json_len.
                     res_bind (pack_le 4 JSON_CHUNK) (\<lambda>kind.
                     Inr (bytes_of ''glTF'' @ v @ len @ json_len @ kind @ canon @ remainder)))))))))"

text \<open>The chunk loop of \<^verbatim>\<open>_parse\<close>: the kind and the body of every chunk.\<close>

function read_chunks :: "bytes \<Rightarrow> nat \<Rightarrow> (nat \<times> bytes) list result" where
  "read_chunks data offset =
     (if offset < length data then
        (if offset + 8 > length data then Inl ValueError
         else
           res_bind (unpack_le 4 data offset) (\<lambda>len.
           res_bind (unpack_le 4 data (offset + 4)) (\<lambda>kind.
           if len mod 4 \<noteq> 0 \<or> offset + 8 + len > length data then Inl ValueError
           else res_map (\<lambda>rest. (kind, slice (offset + 8) (offset + 8 + len) data) # rest)
                  (read_chunks data (offset + 8 + len)))))
      else Inr [])"
  by pat_completeness auto

termination
  by (relation "measure (\<lambda>(data, offset). length data - offset)") auto

declare read_chunks.simps [simp del]

text \<open>The first half of \<^verbatim>\<open>_parse\<close>: header, chunks and padding; the JSON and the BIN body.\<close>

definition glb_chunks :: "bytes \<Rightarrow> (bytes \<times> bytes) result" where
  "glb_chunks data =
     (if length data < 28 then Inl ValueError
      else
        res_bind (unpack_le 4 data 4) (\<lambda>version.
        res_bind (unpack_le 4 data 8) (\<lambda>declared_length.
        if slice 0 4 data \<noteq> bytes_of ''glTF'' \<or> version \<noteq> 2 then Inl ValueError
        else if declared_length \<noteq> length data then Inl ValueError
        else res_bind (read_chunks data 12) (\<lambda>chunks.
          if chunks = [] \<or> fst (chunks ! 0) \<noteq> JSON_CHUNK then Inl ValueError
          else if length chunks \<noteq> 2 \<or> fst (chunks ! 1) \<noteq> BIN_CHUNK then Inl ValueError
          else if length (snd (chunks ! 0)) > MAX_JSON_BYTES then Inl ValueError
          else
            let json_chunk = snd (chunks ! 0); stripped_json = rstrip_spaces json_chunk
            in if stripped_json = [] \<or> last stripped_json \<noteq> 0x7D
                  \<or> length json_chunk - length stripped_json > 3 then Inl ValueError
               else Inr (json_chunk, snd (chunks ! 1))))))"

section \<open>The document\<close>

text \<open>The hooks of \<^verbatim>\<open>json.loads\<close>.\<close>

fun unique_object_loop :: "pydict \<Rightarrow> pydict \<Rightarrow> pyvalue result" where
  "unique_object_loop acc [] = Inr (PDict acc)"
| "unique_object_loop acc ((key, item) # pairs) =
     (if has_key acc key then Inl ValueError else unique_object_loop (acc @ [(key, item)]) pairs)"

definition unique_object :: "pydict \<Rightarrow> pyvalue result" where
  "unique_object pairs = unique_object_loop [] pairs"

definition invalid_constant :: "string \<Rightarrow> pyvalue result" where
  "invalid_constant v = Inl ValueError"

type_synonym json_loader =
  "(pydict \<Rightarrow> pyvalue result) \<Rightarrow> (string \<Rightarrow> pyvalue result) \<Rightarrow> bytes \<Rightarrow> pyvalue result"

fun str_items :: "pyvalue list \<Rightarrow> string list option" where
  "str_items [] = Some []"
| "str_items (PStr s # rest) = map_option ((#) s) (str_items rest)"
| "str_items (_ # rest) = None"

definition extensions_check :: "pydict \<Rightarrow> unit result" where
  "extensions_check document =
     (case (dict_get_or document ''extensionsUsed'' (PList []),
            dict_get_or document ''extensionsRequired'' (PList [])) of
        (PList used, PList required) \<Rightarrow>
          (case (str_items used, str_items required) of
             (Some u, Some r) \<Rightarrow>
               if \<not> distinct u \<or> \<not> distinct r \<or> \<not> set r \<subseteq> set u
                  \<or> \<not> set r \<subseteq> {''EXT_texture_webp''} then Inl ValueError
               else if ''EXT_texture_webp'' \<in> set u \<and> ''EXT_texture_webp'' \<notin> set r
               then Inl ValueError
               else Inr ()
           | _ \<Rightarrow> Inl ValueError)
      | _ \<Rightarrow> Inl ValueError)"

text \<open>\<open>v[k:]\<close> for any integer \<open>k\<close>.\<close>

definition tail_from :: "int \<Rightarrow> bytes \<Rightarrow> bytes" where
  "tail_from k v = drop (nat (if k < 0 then max 0 (int (length v) + k) else k)) v"

text \<open>\<^verbatim>\<open>True\<close> and \<^verbatim>\<open>False\<close> are instances of \<^verbatim>\<open>int\<close>.\<close>

fun padding_is_zero :: "pyvalue \<Rightarrow> bytes \<Rightarrow> bool" where
  "padding_is_zero (PInt i) v = list_all (\<lambda>b. b = 0) (tail_from i v)"
| "padding_is_zero (PBool b) v = list_all (\<lambda>b. b = 0) (tail_from (of_flag b) v)"
| "padding_is_zero _ v = True"

definition parse_glb :: "json_loader \<Rightarrow> bytes \<Rightarrow> (pydict \<times> bytes) result" where
  "parse_glb json_loads data =
     res_bind (glb_chunks data) (\<lambda>(json_chunk, bin).
     res_bind (json_loads unique_object invalid_constant json_chunk) (\<lambda>parsed.
     res_bind (object_of parsed) (\<lambda>document.
     res_bind (reject_nonfinite_json (PDict document)) (\<lambda>_.
     res_bind (extensions_check document) (\<lambda>_.
     res_bind (object_of (dict_get document ''asset'')) (\<lambda>asset.
     res_bind (ensure (dict_get asset ''version'' = PStr ''2.0'')) (\<lambda>_.
     res_bind (array_field document ''buffers'' True) (\<lambda>buffers.
     res_bind (object_of (buffers ! 0)) (\<lambda>buffer.
     res_bind (ensure (padding_is_zero (dict_get buffer ''byteLength'') bin)) (\<lambda>_.
     Inr (document, bin)))))))))))"

section \<open>What a well-formed file is\<close>

text \<open>A GLB file with a JSON and a BIN chunk.\<close>

definition glb_file :: "bytes \<Rightarrow> bytes \<Rightarrow> bytes" where
  "glb_file j b =
     bytes_of ''glTF'' @ le_bytes 4 2 @ le_bytes 4 (28 + length j + length b)
     @ (le_bytes 4 (length j) @ le_bytes 4 JSON_CHUNK @ j)
     @ (le_bytes 4 (length b) @ le_bytes 4 BIN_CHUNK @ b)"

definition json_body_ok :: "bytes \<Rightarrow> bool" where
  "json_body_ok j \<longleftrightarrow>
     length j mod 4 = 0 \<and> length j \<le> MAX_JSON_BYTES \<and> rstrip_spaces j \<noteq> []
     \<and> last (rstrip_spaces j) = 0x7D \<and> length j - length (rstrip_spaces j) \<le> 3"

definition glb_file_ok :: "bytes \<Rightarrow> bytes \<Rightarrow> bool" where
  "glb_file_ok j b \<longleftrightarrow> json_body_ok j \<and> length b mod 4 = 0 \<and> 28 + length j + length b < 2 ^ 32"

section \<open>Reading and writing chunks\<close>

definition chunk_bytes :: "nat \<times> bytes \<Rightarrow> bytes" where
  "chunk_bytes c = le_bytes 4 (length (snd c)) @ le_bytes 4 (fst c) @ snd c"

definition chunk_ok :: "nat \<times> bytes \<Rightarrow> bool" where
  "chunk_ok c \<longleftrightarrow> fst c < 2 ^ 32 \<and> length (snd c) < 2 ^ 32 \<and> length (snd c) mod 4 = 0"

lemma length_chunk_bytes [simp]: "length (chunk_bytes c) = 8 + length (snd c)"
  by (simp add: chunk_bytes_def)

lemma chunk_bytes_pair: "chunk_bytes (k, b) = le_bytes 4 (length b) @ le_bytes 4 k @ b"
  by (simp add: chunk_bytes_def)

lemma chunk_ok_pair: "chunk_ok (k, b) \<longleftrightarrow> k < 2 ^ 32 \<and> length b < 2 ^ 32 \<and> length b mod 4 = 0"
  by (simp add: chunk_ok_def)

lemma slice_le_bytes_eq:
  "length bs = 4 \<Longrightarrow> le_bytes 4 (le_nat bs) = bs"
  using le_bytes_le_nat [of bs] by simp

lemma le_nat_slice4_bound: "le_nat (slice i (i + 4) v) < 2 ^ 32"
proof -
  have "le_nat (slice i (i + 4) v) < 256 ^ length (slice i (i + 4) v)" by (rule le_nat_bound)
  also have "\<dots> \<le> 256 ^ 4" by (rule power_increasing) auto
  finally show ?thesis by simp
qed

lemma read_chunks_end [simp]: "read_chunks data (length data) = Inr []"
  by (subst read_chunks.simps) simp

lemma read_chunks_cons:
  assumes "chunk_ok c"
  shows "read_chunks (pre @ chunk_bytes c @ rest) (length pre)
    = res_map ((#) c) (read_chunks (pre @ chunk_bytes c @ rest) (length (pre @ chunk_bytes c)))"
proof -
  define data where "data = pre @ chunk_bytes c @ rest"
  define n where "n = length (snd c)"
  have len: "length data = length pre + 8 + n + length rest"
    by (simp add: data_def n_def)
  have a: "slice (length pre) (length pre + 4) data = le_bytes 4 n"
    unfolding data_def chunk_bytes_def n_def by (simp add: slice_def)
  have b: "slice (length pre + 4) (length pre + 8) data = le_bytes 4 (fst c)"
    using slice_append_mid [of "length pre + 4" "pre @ le_bytes 4 n" "length pre + 8" "le_bytes 4 (fst c)" "snd c @ rest"]
    unfolding data_def chunk_bytes_def n_def by simp
  have d: "slice (length pre + 8) (length pre + (8 + n)) data = snd c"
    using slice_append_mid [of "length pre + 8" "pre @ le_bytes 4 n @ le_bytes 4 (fst c)"
        "length pre + (8 + n)" "snd c" rest]
    unfolding data_def chunk_bytes_def n_def by simp
  show ?thesis
    using assms len unfolding data_def [symmetric]
    by (subst read_chunks.simps) (simp add: a b d chunk_ok_def n_def [symmetric] add.assoc)
qed

lemma read_chunks_concat:
  "\<forall>c \<in> set cs. chunk_ok c \<Longrightarrow>
     read_chunks (pre @ concat (map chunk_bytes cs)) (length pre) = Inr cs"
proof (induction cs arbitrary: pre)
  case Nil
  then show ?case by simp
next
  case (Cons c cs)
  then show ?case
    using read_chunks_cons [of c pre "concat (map chunk_bytes cs)"] Cons.IH [of "pre @ chunk_bytes c"]
    by simp
qed

lemma read_chunks_Inr:
  "read_chunks data offset = Inr cs \<Longrightarrow> offset \<le> length data \<Longrightarrow>
     drop offset data = concat (map chunk_bytes cs) \<and> (\<forall>c \<in> set cs. chunk_ok c)"
proof (induction data offset arbitrary: cs rule: read_chunks.induct)
  case (1 data offset)
  show ?case
  proof (cases "offset < length data")
    case False
    then show ?thesis using "1.prems" by (subst (asm) read_chunks.simps) auto
  next
    case True
    define len where "len = le_nat (slice offset (offset + 4) data)"
    define kind where "kind = le_nat (slice (offset + 4) (offset + 4 + 4) data)"
    define stop where "stop = offset + 8 + len"
    have fits: "offset + 8 \<le> length data" using "1.prems" True
      by (subst (asm) read_chunks.simps) (auto split: if_splits)
    from "1.prems"(1) True fits obtain rest where aligned: "len mod 4 = 0" and stop: "stop \<le> length data"
      and rest: "read_chunks data stop = Inr rest"
      and cs: "cs = (kind, slice (offset + 8) stop data) # rest"
      by (subst (asm) read_chunks.simps)
        (auto simp: len_def kind_def stop_def split: if_splits)
    have IH: "drop stop data = concat (map chunk_bytes rest) \<and> (\<forall>c \<in> set rest. chunk_ok c)"
      using "1.IH" [of len kind rest] True fits aligned stop rest
      by (simp add: len_def kind_def stop_def)
    have small: "len < 2 ^ 32" "kind < 2 ^ 32"
      unfolding len_def kind_def by (rule le_nat_slice4_bound)+
    have "drop offset data = slice offset (offset + 4) data @ slice (offset + 4) (offset + 4 + 4) data
        @ slice (offset + 8) stop data @ drop stop data"
      using drop_slice [of offset "offset + 4" data] drop_slice [of "offset + 4" "offset + 8" data]
        drop_slice [of "offset + 8" stop data] by (simp add: stop_def add.commute)
    also have "slice offset (offset + 4) data = le_bytes 4 len"
      unfolding len_def using fits by (intro slice_le_bytes_eq [symmetric]) simp
    also have "slice (offset + 4) (offset + 4 + 4) data = le_bytes 4 kind"
      unfolding kind_def using fits by (intro slice_le_bytes_eq [symmetric]) simp
    finally show ?thesis using IH small aligned stop
      by (simp add: cs chunk_bytes_pair chunk_ok_pair stop_def)
  qed
qed

lemma glb_file_chunks:
  "glb_file j b = (bytes_of ''glTF'' @ le_bytes 4 2 @ le_bytes 4 (28 + length j + length b))
     @ concat (map chunk_bytes [(JSON_CHUNK, j), (BIN_CHUNK, b)])"
  by (simp add: glb_file_def chunk_bytes_def)

lemma length_bytes_of [simp]: "length (bytes_of s) = length s"
  by (simp add: bytes_of_def)

lemma length_glb_file [simp]: "length (glb_file j b) = 28 + length j + length b"
  by (simp add: glb_file_def)

lemma glb_file_header:
  "slice 0 4 (glb_file j b) = bytes_of ''glTF''"
  "slice 4 8 (glb_file j b) = le_bytes 4 2"
  "slice 8 12 (glb_file j b) = le_bytes 4 (28 + length j + length b)"
  by (simp_all add: glb_file_def slice_def)

lemma glb_chunks_glb_file:
  assumes "glb_file_ok j b"
  shows "glb_chunks (glb_file j b) = Inr (j, b)"
proof -
  have ok: "\<forall>c \<in> set [(JSON_CHUNK, j), (BIN_CHUNK, b)]. chunk_ok c"
    using assms by (auto simp: glb_file_ok_def json_body_ok_def chunk_ok_def JSON_CHUNK_def BIN_CHUNK_def)
  have "read_chunks (glb_file j b) 12 = Inr [(JSON_CHUNK, j), (BIN_CHUNK, b)]"
    using read_chunks_concat [OF ok,
        of "bytes_of ''glTF'' @ le_bytes 4 2 @ le_bytes 4 (28 + length j + length b)"]
    by (simp add: glb_file_chunks)
  then show ?thesis using assms
    by (simp add: glb_chunks_def glb_file_header glb_file_ok_def json_body_ok_def Let_def)
qed

lemma glb_chunks_Inr:
  assumes "glb_chunks data = Inr (j, b)"
  shows "glb_file_ok j b \<and> data = glb_file j b"
proof -
  have long: "28 \<le> length data" using assms by (auto simp: glb_chunks_def split: if_splits)
  from assms long have magic: "slice 0 4 data = bytes_of ''glTF''"
    and version: "le_nat (slice 4 8 data) = 2"
    and declared: "le_nat (slice 8 12 data) = length data"
    by (auto simp: glb_chunks_def Let_def split: if_splits)
  from assms long obtain chunks where chunks: "read_chunks data 12 = Inr chunks"
    and two: "length chunks = 2" "fst (chunks ! 0) = JSON_CHUNK" "fst (chunks ! 1) = BIN_CHUNK"
    and body: "snd (chunks ! 0) = j" "snd (chunks ! 1) = b"
    and small: "length j \<le> MAX_JSON_BYTES"
    and pad: "rstrip_spaces j \<noteq> []" "last (rstrip_spaces j) = 0x7D"
      "length j - length (rstrip_spaces j) \<le> 3"
    by (auto simp: glb_chunks_def Let_def split: if_splits)
  have cs: "chunks = [(JSON_CHUNK, j), (BIN_CHUNK, b)]"
    using two body by (cases chunks; cases "tl chunks") auto
  have tail: "drop 12 data = concat (map chunk_bytes chunks)" and ok: "\<forall>c \<in> set chunks. chunk_ok c"
    using read_chunks_Inr [OF chunks] long by simp_all
  have "data = slice 0 4 data @ slice 4 8 data @ slice 8 12 data @ drop 12 data"
    using drop_slice [of 0 4 data] drop_slice [of 4 8 data] drop_slice [of 8 12 data] by simp
  moreover have "slice 4 8 data = le_bytes 4 2"
    using slice_le_bytes_eq [of "slice 4 8 data"] version long by simp
  moreover have "slice 8 12 data = le_bytes 4 (length data)"
    using slice_le_bytes_eq [of "slice 8 12 data"] declared long by simp
  moreover have len: "length data = 28 + length j + length b"
    using arg_cong [OF tail, of length] long by (simp add: cs)
  ultimately have "data = glb_file j b"
    using magic tail by (simp add: glb_file_chunks cs)
  moreover have "length data < 2 ^ 32" using le_nat_slice4_bound [of 8 data] declared by simp
  ultimately show ?thesis using ok small pad len
    by (simp add: glb_file_ok_def json_body_ok_def cs chunk_ok_def)
qed

text \<open>
  (C36) The container parser accepts exactly the well-formed files: when \<^verbatim>\<open>_parse\<close> reads a JSON and
  a BIN body, the file is the one those bodies encode - magic, version, a declared length equal to
  the size of the file, aligned chunks and nothing after them - and every such file is read back.
\<close>
theorem container_round_trip:
  "glb_chunks data = Inr (j, b) \<longleftrightarrow> glb_file_ok j b \<and> data = glb_file j b"
  using glb_chunks_Inr glb_chunks_glb_file by blast

section \<open>Padding\<close>

definition canonical_body :: "bytes \<Rightarrow> bytes" where
  "canonical_body j = j @ replicate (nat (- int (length j) mod 4)) 0x20"

lemma canonical_padding:
  "nat (- int n mod 4) \<le> 3" "(n + nat (- int n mod 4)) mod 4 = 0"
proof -
  have "int ((n + nat (- int n mod 4)) mod 4) = (int n + (- int n) mod 4) mod 4"
    by (simp add: zmod_int)
  also have "\<dots> = 0" by (simp add: mod_add_right_eq)
  finally show "(n + nat (- int n mod 4)) mod 4 = 0" by simp
  have "- int n mod 4 < 4" by simp
  then show "nat (- int n mod 4) \<le> 3" by simp
qed

lemma canonical_body_ok:
  assumes "rstrip_spaces j = j" "j \<noteq> []" "last j = 0x7D" "length j + 3 \<le> MAX_JSON_BYTES"
  shows "json_body_ok (canonical_body j)" and "rstrip_spaces (canonical_body j) = j"
proof -
  show r: "rstrip_spaces (canonical_body j) = j"
    using assms(1) by (simp add: canonical_body_def rstrip_spaces_append)
  show "json_body_ok (canonical_body j)"
    unfolding json_body_ok_def r using assms canonical_padding [of "length j"]
    by (simp add: canonical_body_def)
qed

lemma glb_file_json_header:
  "length j < 2 ^ 32 \<Longrightarrow> le_nat (slice 12 16 (glb_file j b)) = length j"
  "le_nat (slice 16 20 (glb_file j b)) = JSON_CHUNK"
  "slice 20 (20 + length j) (glb_file j b) = j"
  "drop (20 + length j) (glb_file j b) = chunk_bytes (BIN_CHUNK, b)"
  by (simp_all add: glb_file_def slice_def chunk_bytes_def JSON_CHUNK_def)

lemma normalize_glb_file:
  assumes "length j < 2 ^ 32" "28 + length j + length b < 2 ^ 32"
  shows "normalize_glb_json_padding (glb_file j b) =
    (if rstrip_spaces j = [] \<or> length j - length (rstrip_spaces j) \<le> 3 then Inr (glb_file j b)
     else Inr (glb_file (canonical_body (rstrip_spaces j)) b))"
proof (cases "rstrip_spaces j = [] \<or> length j - length (rstrip_spaces j) \<le> 3")
  case True
  then show ?thesis using assms
    by (simp add: normalize_glb_json_padding_def glb_file_header glb_file_json_header Let_def)
next
  case False
  define c where "c = canonical_body (rstrip_spaces j)"
  have "length c \<le> length (rstrip_spaces j) + 3"
    using canonical_padding(1) [of "length (rstrip_spaces j)"] by (simp add: c_def canonical_body_def)
  then have len: "length c < length j" using False by linarith
  have whole: "glb_file c b = bytes_of ''glTF'' @ le_bytes 4 2 @ le_bytes 4 (28 + length c + length b)
      @ le_bytes 4 (length c) @ le_bytes 4 JSON_CHUNK @ c @ chunk_bytes (BIN_CHUNK, b)"
    by (simp add: glb_file_def chunk_bytes_def)
  have "normalize_glb_json_padding (glb_file j b) = Inr (glb_file c b)"
    using assms False len unfolding whole
    by (simp add: normalize_glb_json_padding_def glb_file_header glb_file_json_header Let_def
        pack_le_def JSON_CHUNK_def add.assoc flip: c_def [unfolded canonical_body_def])
  then show ?thesis using False by (simp add: c_def)
qed



end
