(* ===== verification/Glb_Accessors.thy ===== *)
theory Glb_Accessors
  imports Glb_Container
begin

text \<open>
  Buffer views and accessors (\<^verbatim>\<open>glb_validation/accessors.py\<close> \<^verbatim>\<open>_accessors\<close>, \<^verbatim>\<open>common.py\<close> \<^verbatim>\<open>Accessor\<close>):
  which views and accessors are accepted, and the reads of an accessor, which go through
  \<^verbatim>\<open>struct.unpack_from\<close> and would raise \<^verbatim>\<open>struct.error\<close> outside the BIN body. The main result is that
  no read of an accepted accessor does.
\<close>

section \<open>Definitions\<close>

definition MAX_ACCESSOR_COUNT :: int where "MAX_ACCESSOR_COUNT = 10000000"

text \<open>\<^verbatim>\<open>COMPONENTS\<close> and \<^verbatim>\<open>COMPONENT_TYPES\<close>; the format character of \<^verbatim>\<open>struct\<close> is kept.\<close>

definition COMPONENTS :: "(string \<times> nat) list" where
  "COMPONENTS = [(''SCALAR'', 1), (''VEC2'', 2), (''VEC3'', 3), (''VEC4'', 4), (''MAT4'', 16)]"

definition COMPONENT_TYPES :: "(int \<times> nat \<times> char) list" where
  "COMPONENT_TYPES =
     [(5120, 1, CHR ''b''), (5121, 1, CHR ''B''), (5122, 2, CHR ''h''), (5123, 2, CHR ''H''),
      (5125, 4, CHR ''I''), (5126, 4, CHR ''f'')]"

record accessor =
  acc_blob :: bytes
  acc_start :: nat
  acc_stride :: nat
  acc_count :: nat
  acc_component_type :: int
  acc_kind :: string
  acc_component_size :: nat
  acc_component_count :: nat
  acc_fmt :: char
  acc_interleaved :: bool
  acc_minimum :: "pyfloat list option"
  acc_maximum :: "pyfloat list option"
  acc_view_index :: nat
  acc_target :: "int option"
  acc_normalized :: bool

subsection \<open>Reads\<close>

text \<open>The width of a \<^verbatim>\<open>struct\<close> format in the standard sizes, and one value of it.\<close>

definition fmt_size :: "char \<Rightarrow> nat" where
  "fmt_size c =
     (if c \<in> {CHR ''b'', CHR ''B''} then 1 else if c \<in> {CHR ''h'', CHR ''H''} then 2 else 4)"

definition signed :: "nat \<Rightarrow> nat \<Rightarrow> int" where
  "signed k n = (if 2 * n < 256 ^ k then int n else int n - 256 ^ k)"

definition unpack_component :: "char \<Rightarrow> bytes \<Rightarrow> pyvalue" where
  "unpack_component c bs =
     (if c = CHR ''f'' then PFloat (float32 (le_nat bs))
      else if c \<in> {CHR ''b'', CHR ''h''} then PInt (signed (length bs) (le_nat bs))
      else PInt (int (le_nat bs)))"

text \<open>\<open>struct.unpack_from(f"<{n}{fmt}", blob, offset)\<close>.\<close>

definition unpack_components :: "nat \<Rightarrow> char \<Rightarrow> bytes \<Rightarrow> nat \<Rightarrow> pyvalue list result" where
  "unpack_components n c blob offset =
     (if offset + n * fmt_size c \<le> length blob
      then Inr (map (\<lambda>k. unpack_component c
             (slice (offset + k * fmt_size c) (offset + k * fmt_size c + fmt_size c) blob)) [0..<n])
      else Inl StructError)"

definition accessor_value :: "accessor \<Rightarrow> int \<Rightarrow> pyvalue list result" where
  "accessor_value a index =
     (if 0 \<le> index \<and> index < int (acc_count a)
      then unpack_components (acc_component_count a) (acc_fmt a) (acc_blob a)
             (acc_start a + nat index * acc_stride a)
      else Inl ValueError)"

text \<open>
  \<^verbatim>\<open>values()\<close> is a generator: a loop over it stops reading where the loop raises. \<open>for_values\<close> is such
  a loop with a state.
\<close>

fun for_values :: "accessor \<Rightarrow> nat list \<Rightarrow> ('s \<Rightarrow> pyvalue list \<Rightarrow> 's result) \<Rightarrow> 's \<Rightarrow> 's result" where
  "for_values a [] f s = Inr s"
| "for_values a (i # is) f s =
     res_bind (accessor_value a (int i)) (\<lambda>v. res_bind (f s v) (for_values a is f))"

text \<open>\<open>not math.isfinite(float(component))\<close> for a component that was read.\<close>

definition not_finite_component :: "pyvalue \<Rightarrow> bool result" where
  "not_finite_component v = res_map (\<lambda>f. \<not> isfinite f) (to_float v)"

definition finite_accessor :: "accessor \<Rightarrow> unit result" where
  "finite_accessor a = for_values a [0..<acc_count a]
     (\<lambda>_ v. res_bind (any_result not_finite_component v) (\<lambda>bad. ensure (\<not> bad))) ()"

subsection \<open>Views\<close>

record buffer_view =
  view_start :: nat
  view_length :: nat
  view_stride :: "nat option"
  view_target :: "int option"

definition view_stride_of :: "pyvalue \<Rightarrow> nat option result" where
  "view_stride_of v =
     (case v of
        PNone \<Rightarrow> Inr None
      | PInt i \<Rightarrow> if 4 \<le> i \<and> i \<le> 252 \<and> i mod 4 = 0 then Inr (Some (nat i)) else Inl ValueError
      | _ \<Rightarrow> Inl ValueError)"

definition view_target_of :: "pyvalue \<Rightarrow> int option result" where
  "view_target_of v =
     (case v of
        PNone \<Rightarrow> Inr None
      | PInt i \<Rightarrow> if i \<in> {34962, 34963} then Inr (Some i) else Inl ValueError
      | _ \<Rightarrow> Inl ValueError)"

definition read_view :: "int \<Rightarrow> pyvalue \<Rightarrow> buffer_view result" where
  "read_view byte_length raw =
     res_bind (object_of raw) (\<lambda>view.
     res_bind (index_of (dict_get_or view ''buffer'' (PInt 0)) 1) (\<lambda>_.
     let start = dict_get_or view ''byteOffset'' (PInt 0); len = dict_get view ''byteLength''
     in res_bind (ensure (is_int start \<and> is_int len \<and> 0 \<le> int_of start \<and> 1 \<le> int_of len
          \<and> int_of start + int_of len \<le> byte_length)) (\<lambda>_.
        res_bind (view_stride_of (dict_get view ''byteStride'')) (\<lambda>stride.
        res_bind (view_target_of (dict_get view ''target'')) (\<lambda>target.
        Inr \<lparr>view_start = nat (int_of start), view_length = nat (int_of len),
             view_stride = stride, view_target = target\<rparr>)))))"

subsection \<open>Accessors\<close>

definition accessor_type_of :: "pydict \<Rightarrow> (int \<times> string \<times> nat \<times> char \<times> nat) result" where
  "accessor_type_of accessor =
     (case (dict_get accessor ''componentType'', dict_get accessor ''type'') of
        (PInt component_type, PStr kind) \<Rightarrow>
          (case (map_of COMPONENT_TYPES component_type, map_of COMPONENTS kind) of
             (Some (component_size, fmt), Some component_count) \<Rightarrow>
               Inr (component_type, kind, component_size, fmt, component_count)
           | _ \<Rightarrow> Inl ValueError)
      | _ \<Rightarrow> Inl ValueError)"

definition read_accessor :: "buffer_view list \<Rightarrow> bytes \<Rightarrow> pyvalue \<Rightarrow> accessor result" where
  "read_accessor views blob raw =
     res_bind (object_of raw) (\<lambda>accessor.
     res_bind (ensure (\<not> has_key accessor ''sparse'')) (\<lambda>_.
     res_bind (ensure (has_key accessor ''normalized'' \<longrightarrow>
       dict_get accessor ''normalized'' \<in> {PBool True, PBool False})) (\<lambda>_.
     res_bind (index_of (dict_get accessor ''bufferView'') (length views)) (\<lambda>view_index.
     res_bind (accessor_type_of accessor) (\<lambda>(component_type, kind, component_size, fmt, component_count).
     let normalized = (dict_get accessor ''normalized'' = PBool True);
         count = dict_get accessor ''count'';
         offset = dict_get_or accessor ''byteOffset'' (PInt 0);
         element_size = component_size * component_count;
         view = views ! view_index
     in res_bind (ensure (normalized \<longrightarrow> component_type \<in> {5120, 5121, 5122, 5123})) (\<lambda>_.
        res_bind (ensure (is_int count \<and> 1 \<le> int_of count \<and> int_of count \<le> MAX_ACCESSOR_COUNT)) (\<lambda>_.
        res_bind (ensure (is_int offset \<and> 0 \<le> int_of offset
          \<and> int_of offset mod int component_size = 0)) (\<lambda>_.
        let stride = (case view_stride view of Some k \<Rightarrow> k | None \<Rightarrow> element_size);
            n = nat (int_of count); off = nat (int_of offset)
        in res_bind (ensure ((view_start view + off) mod component_size = 0)) (\<lambda>_.
           res_bind (ensure (element_size \<le> stride
             \<and> off + (n - 1) * stride + element_size \<le> view_length view)) (\<lambda>_.
           res_bind (accessor_bound accessor component_count ''min'') (\<lambda>minimum.
           res_bind (accessor_bound accessor component_count ''max'') (\<lambda>maximum.
           Inr \<lparr>acc_blob = blob, acc_start = view_start view + off, acc_stride = stride,
                acc_count = n, acc_component_type = component_type, acc_kind = kind,
                acc_component_size = component_size, acc_component_count = component_count,
                acc_fmt = fmt, acc_interleaved = (view_stride view \<noteq> None),
                acc_minimum = minimum, acc_maximum = maximum, acc_view_index = view_index,
                acc_target = view_target view, acc_normalized = normalized\<rparr>))))))))))))"

definition read_accessors :: "pydict \<Rightarrow> bytes \<Rightarrow> (accessor list \<times> buffer_view list) result" where
  "read_accessors document blob =
     res_bind (array_field document ''buffers'' True) (\<lambda>buffers.
     res_bind (ensure (length buffers = 1)) (\<lambda>_.
     res_bind (object_of (buffers ! 0)) (\<lambda>buffer.
     res_bind (ensure (\<not> has_key buffer ''uri'')) (\<lambda>_.
     let len = dict_get buffer ''byteLength''
     in res_bind (ensure (is_int len \<and> 1 \<le> int_of len \<and> int_of len \<le> int (length blob)
          \<and> int (length blob) - int_of len \<le> 3)) (\<lambda>_.
        res_bind (array_field document ''bufferViews'' True) (\<lambda>raw_views.
        res_bind (seq_results (map (read_view (int_of len)) raw_views)) (\<lambda>views.
        res_bind (array_field document ''accessors'' True) (\<lambda>raw.
        res_bind (seq_results (map (read_accessor views blob) raw)) (\<lambda>result.
        res_bind (ensure (set (filter (\<lambda>i. view_stride (views ! i) \<noteq> None) [0..<length views])
          = acc_view_index ` set (filter acc_interleaved result))) (\<lambda>_.
        Inr (result, views)))))))))))"

section \<open>Lemmas\<close>

lemma ensure_Inr [simp]: "ensure ok = Inr u \<longleftrightarrow> ok"
  by (simp add: ensure_def)

lemma ensure_Inl [simp]: "ensure ok = Inl e \<longleftrightarrow> \<not> ok \<and> e = ValueError"
  by (auto simp: ensure_def)

lemma index_of_Inr [simp]: "index_of v n = Inr i \<longleftrightarrow> v = PInt (int i) \<and> i < n"
  by (cases v) auto

text \<open>The elements of an accessor lie in its view.\<close>

definition within_view :: "buffer_view \<Rightarrow> accessor \<Rightarrow> bool" where
  "within_view v a \<longleftrightarrow>
     view_start v \<le> acc_start a
     \<and> acc_start a + (acc_count a - 1) * acc_stride a + acc_component_size a * acc_component_count a
         \<le> view_start v + view_length v"

definition accessor_ok :: "buffer_view list \<Rightarrow> bytes \<Rightarrow> accessor \<Rightarrow> bool" where
  "accessor_ok views blob a \<longleftrightarrow>
     acc_blob a = blob \<and> acc_view_index a < length views \<and> 1 \<le> acc_count a
     \<and> int (acc_count a) \<le> MAX_ACCESSOR_COUNT
     \<and> fmt_size (acc_fmt a) = acc_component_size a \<and> 1 \<le> acc_component_size a
     \<and> map_of COMPONENT_TYPES (acc_component_type a) = Some (acc_component_size a, acc_fmt a)
     \<and> map_of COMPONENTS (acc_kind a) = Some (acc_component_count a)
     \<and> acc_component_size a * acc_component_count a \<le> acc_stride a
     \<and> acc_start a mod acc_component_size a = 0
     \<and> within_view (views ! acc_view_index a) a"

lemma component_type_size: "map_of COMPONENT_TYPES t = Some (n, c) \<Longrightarrow> fmt_size c = n \<and> 1 \<le> n"
  by (simp add: COMPONENT_TYPES_def fmt_size_def split: if_splits) auto

lemma accessor_type_size:
  "accessor_type_of d = Inr (t, k, n, c, m) \<Longrightarrow>
     fmt_size c = n \<and> 1 \<le> n \<and> map_of COMPONENT_TYPES t = Some (n, c) \<and> map_of COMPONENTS k = Some m"
  using component_type_size
  by (simp add: accessor_type_of_def split: pyvalue.splits option.splits prod.splits)

lemma read_accessor_ok:
  assumes "read_accessor views blob raw = Inr a"
  shows "accessor_ok views blob a"
proof -
  from assms obtain d i t k n c m mn mx where
    type: "accessor_type_of d = Inr (t, k, n, c, m)" and i: "i < length views"
    and cnt: "1 \<le> int_of (dict_get d ''count'')" "int_of (dict_get d ''count'') \<le> MAX_ACCESSOR_COUNT"
    and facts: "let view = views ! i; off = nat (int_of (dict_get_or d ''byteOffset'' (PInt 0)));
        stride = (case view_stride view of Some k \<Rightarrow> k | None \<Rightarrow> n * m);
        cnt = nat (int_of (dict_get d ''count''))
      in (view_start view + off) mod n = 0 \<and> n * m \<le> stride
         \<and> off + (cnt - 1) * stride + n * m \<le> view_length view
         \<and> a = \<lparr>acc_blob = blob, acc_start = view_start view + off, acc_stride = stride,
                acc_count = cnt, acc_component_type = t, acc_kind = k,
                acc_component_size = n, acc_component_count = m,
                acc_fmt = c, acc_interleaved = (view_stride view \<noteq> None),
                acc_minimum = mn, acc_maximum = mx, acc_view_index = i,
                acc_target = view_target view,
                acc_normalized = (dict_get d ''normalized'' = PBool True)\<rparr>"
    unfolding read_accessor_def Let_def by (clarsimp split: prod.splits)
  then show ?thesis using accessor_type_size [OF type]
    by (auto simp: accessor_ok_def within_view_def Let_def)
qed

lemma read_view_within:
  assumes "read_view len raw = Inr v"
  shows "int (view_start v + view_length v) \<le> len" and "1 \<le> view_length v"
  using assms by (auto simp: read_view_def Let_def)

lemma read_accessors_Inr:
  assumes "read_accessors document blob = Inr (accs, views)"
  shows "(\<forall>a \<in> set accs. accessor_ok views blob a)
    \<and> (\<forall>v \<in> set views. view_start v + view_length v \<le> length blob)"
proof -
  from assms obtain len raw_views raw where len: "len \<le> int (length blob)"
    and views: "seq_results (map (read_view len) raw_views) = Inr views"
    and accs: "seq_results (map (read_accessor views blob) raw) = Inr accs"
    unfolding read_accessors_def Let_def by clarsimp
  have "accessor_ok views blob a" if "a \<in> set accs" for a
    using seq_results_member [OF accs that] read_accessor_ok by blast
  moreover have "view_start v + view_length v \<le> length blob" if v: "v \<in> set views" for v
  proof -
    obtain r where "read_view len r = Inr v" using seq_results_member [OF views v] by blast
    then show ?thesis using read_view_within(1) len by fastforce
  qed
  ultimately show ?thesis by blast
qed

lemma accessor_value_reads:
  assumes ok: "accessor_ok views blob a" and views: "\<forall>v \<in> set views. view_start v + view_length v \<le> length blob"
    and i: "i < acc_count a"
  shows "\<exists>vs. accessor_value a (int i) = Inr vs \<and> length vs = acc_component_count a"
proof -
  let ?v = "views ! acc_view_index a"
  have "i * acc_stride a \<le> (acc_count a - 1) * acc_stride a"
    using i by (intro mult_right_mono) auto
  moreover have "view_start ?v + view_length ?v \<le> length blob"
    using ok views by (simp add: accessor_ok_def)
  ultimately have "acc_start a + i * acc_stride a + acc_component_count a * acc_component_size a
      \<le> length blob"
    using ok unfolding accessor_ok_def within_view_def mult.commute [of "acc_component_size a"]
    by linarith
  then show ?thesis using ok i
    by (simp add: accessor_value_def unpack_components_def accessor_ok_def)
qed

text \<open>A bound that is an integer no float can hold raises \<^verbatim>\<open>OverflowError\<close> instead of being refused.\<close>

lemma huge_bound_raises:
  assumes "dict_get accessor name = PList (PInt i # rest)" "2 ^ 1024 \<le> i"
  shows "accessor_bound accessor (Suc (length rest)) name = Inl OverflowError"
  using assms by (simp add: accessor_bound_def float_of_int_overflow)

section \<open>Properties\<close>

text \<open>
  (C35) Memory safety of the accessors the validator accepts: every element an accessor declares is
  read, has as many components as its type says and lies inside the buffer view the accessor names,
  which lies inside the BIN body; an index outside the declared count is refused, and no read
  leaves the body.
\<close>
theorem accepted_accessor_reads_stay_in_view:
  assumes "read_accessors document blob = Inr (accs, views)" and "a \<in> set accs"
  shows "let v = views ! acc_view_index a; size = acc_component_size a * acc_component_count a in
    acc_view_index a < length views \<and> view_start v + view_length v \<le> length blob
    \<and> (\<forall>i. if 0 \<le> i \<and> i < int (acc_count a)
        then (\<exists>vs. accessor_value a i = Inr vs \<and> length vs = acc_component_count a)
          \<and> view_start v \<le> acc_start a + nat i * acc_stride a
          \<and> acc_start a + nat i * acc_stride a + size \<le> view_start v + view_length v
        else accessor_value a i = Inl ValueError)"
proof -
  let ?v = "views ! acc_view_index a"
  have ok: "accessor_ok views blob a" and views: "\<forall>v \<in> set views. view_start v + view_length v \<le> length blob"
    using read_accessors_Inr [OF assms(1)] assms(2) by blast+
  have "view_start ?v + view_length ?v \<le> length blob"
    using ok views by (simp add: accessor_ok_def)
  moreover have "(\<exists>vs. accessor_value a i = Inr vs \<and> length vs = acc_component_count a)
      \<and> view_start ?v \<le> acc_start a + nat i * acc_stride a
      \<and> acc_start a + nat i * acc_stride a + acc_component_size a * acc_component_count a
          \<le> view_start ?v + view_length ?v" if i: "0 \<le> i" "i < int (acc_count a)" for i
  proof -
    have "nat i < acc_count a" using i by linarith
    then have "nat i * acc_stride a \<le> (acc_count a - 1) * acc_stride a"
      by (intro mult_right_mono) auto
    moreover have "\<exists>vs. accessor_value a i = Inr vs \<and> length vs = acc_component_count a"
      using accessor_value_reads [OF ok views \<open>nat i < acc_count a\<close>] i by simp
    ultimately show ?thesis using ok unfolding accessor_ok_def within_view_def
      by (intro conjI) (assumption, linarith, linarith)
  qed
  moreover have "accessor_value a i = Inl ValueError" if "\<not> (0 \<le> i \<and> i < int (acc_count a))" for i
    using that by (auto simp: accessor_value_def)
  ultimately show ?thesis using ok by (simp add: Let_def accessor_ok_def)
qed

definition sample_document :: pydict where
  "sample_document =
     [(''buffers'', PList [PDict [(''byteLength'', PInt 13)]]),
      (''bufferViews'', PList [PDict [(''byteOffset'', PInt 1), (''byteLength'', PInt 12)]]),
      (''accessors'', PList [PDict [(''bufferView'', PInt 0), (''componentType'', PInt 5121),
         (''type'', PStr ''VEC3''), (''count'', PInt 3), (''byteOffset'', PInt 2)]])]"

definition sample_view :: buffer_view where
  "sample_view = \<lparr>view_start = 1, view_length = 12, view_stride = None, view_target = None\<rparr>"

definition sample_accessor :: accessor where
  "sample_accessor =
     \<lparr>acc_blob = replicate 16 7, acc_start = 3, acc_stride = 3, acc_count = 3,
      acc_component_type = 5121, acc_kind = ''VEC3'', acc_component_size = 1,
      acc_component_count = 3, acc_fmt = CHR ''B'', acc_interleaved = False, acc_minimum = None,
      acc_maximum = None, acc_view_index = 0, acc_target = None, acc_normalized = False\<rparr>"

lemma sample_document_accepted:
  "read_accessors sample_document (replicate 16 7) = Inr ([sample_accessor], [sample_view])"
  by code_simp

theorem accepted_accessor_reads_stay_in_view_witness:
  "read_accessors sample_document (replicate 16 7) = Inr ([sample_accessor], [sample_view])
   \<and> accessor_value sample_accessor 3 = Inl ValueError
   \<and> (\<exists>vs. accessor_value sample_accessor 2 = Inr vs \<and> length vs = 3)"
  using accepted_accessor_reads_stay_in_view
      [OF sample_document_accepted, of sample_accessor, unfolded Let_def,
       THEN conjunct2, THEN conjunct2, THEN spec, of 2]
    accepted_accessor_reads_stay_in_view
      [OF sample_document_accepted, of sample_accessor, unfolded Let_def,
       THEN conjunct2, THEN conjunct2, THEN spec, of 3]
    sample_document_accepted
  by (simp add: sample_accessor_def)

end
