(* ===== verification/Glb_Scene.thy ===== *)
theory Glb_Scene
  imports Glb_Accessors
begin

text \<open>
  The node graph (\<^verbatim>\<open>glb_validation/meshes.py\<close> \<^verbatim>\<open>_reachable_meshes\<close>): the transforms of a node, the
  count of parents, the depth-first search that refuses a cycle, the roots of the scenes and the
  walk from the roots of the default scene. The C library's \<^verbatim>\<open>pow(x, 2.0)\<close> and \<^verbatim>\<open>sqrt\<close> are the
  parameter \<open>libm\<close>. The search is recursive in the source; \<open>limit\<close> is the number of frames Python
  grants it before it raises \<open>RecursionError\<close>.
\<close>

record libm =
  c_square :: "pyfloat \<Rightarrow> pyfloat"
  c_sqrt :: "pyfloat \<Rightarrow> pyfloat"

section \<open>Transforms\<close>

text \<open>\<open>item**2\<close>: a finite operand with an infinite result raises.\<close>

definition square :: "libm \<Rightarrow> pyfloat \<Rightarrow> pyfloat result" where
  "square lm x =
     (if isfinite x \<and> c_square lm x \<in> {FInf True, FInf False} then Inl OverflowError
      else Inr (c_square lm x))"

definition tol_6 :: pyfloat where "tol_6 = round64 (1 / 10 ^ 6)"
definition tol_9 :: pyfloat where "tol_9 = round64 (1 / 10 ^ 9)"
definition tol_12 :: pyfloat where "tol_12 = round64 (1 / 10 ^ 12)"

definition transform_sizes :: "(string \<times> nat) list" where
  "transform_sizes = [(''matrix'', 16), (''translation'', 3), (''rotation'', 4), (''scale'', 3)]"

definition rotation_ok :: "libm \<Rightarrow> pyfloat list option \<Rightarrow> unit result" where
  "rotation_ok lm rotation =
     (case rotation of
        None \<Rightarrow> Inr ()
      | Some xs \<Rightarrow> res_bind (seq_results (map (square lm) xs)) (\<lambda>squares.
          ensure (isclose tol_6 tol_6 (fsum squares) (FFin 1))))"

definition scale_ok :: "pyfloat list option \<Rightarrow> unit result" where
  "scale_ok scale =
     (case scale of None \<Rightarrow> Inr () | Some xs \<Rightarrow> ensure (\<not> list_ex (\<lambda>x. fle (fabs x) tol_12) xs))"

definition determinant :: "pyfloat list \<Rightarrow> pyfloat" where
  "determinant m =
     fadd
       (fsub
         (fmul (m ! 0) (fsub (fmul (m ! 5) (m ! 10)) (fmul (m ! 6) (m ! 9))))
         (fmul (m ! 4) (fsub (fmul (m ! 1) (m ! 10)) (fmul (m ! 2) (m ! 9)))))
       (fmul (m ! 8) (fsub (fmul (m ! 1) (m ! 6)) (fmul (m ! 2) (m ! 5))))"

definition matrix_basis :: "pyfloat list \<Rightarrow> pyfloat list list" where
  "matrix_basis m = [[m ! 0, m ! 1, m ! 2], [m ! 4, m ! 5, m ! 6], [m ! 8, m ! 9, m ! 10]]"

definition shear_check :: "pyfloat list list \<Rightarrow> pyfloat list \<Rightarrow> nat \<times> nat \<Rightarrow> unit \<Rightarrow> unit result" where
  "shear_check basis lengths pair u =
     (let (first, second) = pair;
          dot = fsum (map2 fmul (basis ! first) (basis ! second))
      in res_bind (fdiv dot (fmul (lengths ! first) (lengths ! second))) (\<lambda>q.
         ensure (isclose tol_9 tol_6 q (FFin 0))))"

definition matrix_ok :: "libm \<Rightarrow> pyfloat list option \<Rightarrow> unit result" where
  "matrix_ok lm matrix =
     (case matrix of
        None \<Rightarrow> Inr ()
      | Some m \<Rightarrow>
          res_bind (ensure (\<not> list_ex (\<lambda>i. flt tol_12 (fabs (m ! i))) [3, 7, 11]
            \<and> isclose tol_9 tol_12 (m ! 15) (FFin 1))) (\<lambda>_.
          res_bind (ensure (\<not> fle (fabs (determinant m)) tol_12)) (\<lambda>_.
          let basis = matrix_basis m;
              lengths = map (\<lambda>column. c_sqrt lm (fsum (map2 fmul column column))) basis
          in fold_result (shear_check basis lengths) [(0, 1), (0, 2), (1, 2)] ())))"

definition transform_ok :: "libm \<Rightarrow> pydict \<Rightarrow> unit result" where
  "transform_ok lm node =
     res_bind (ensure (dict_get node ''matrix'' = PNone
       \<or> \<not> list_ex (has_key node) [''translation'', ''rotation'', ''scale''])) (\<lambda>_.
     res_bind (fold_result (\<lambda>(field, n) _.
       if dict_get node field = PNone then Inr ()
       else res_bind (not_number_array n (dict_get node field)) (\<lambda>bad. ensure (\<not> bad)))
       transform_sizes ()) (\<lambda>_.
     res_bind (finite_numbers (dict_get node ''rotation'')) (\<lambda>rotation.
     res_bind (rotation_ok lm rotation) (\<lambda>_.
     res_bind (finite_numbers (dict_get node ''scale'')) (\<lambda>scale.
     res_bind (scale_ok scale) (\<lambda>_.
     res_bind (finite_numbers (dict_get node ''matrix'')) (\<lambda>matrix.
     matrix_ok lm matrix)))))))"

section \<open>Nodes\<close>

definition index_list :: "pyvalue \<Rightarrow> nat \<Rightarrow> nat list result" where
  "index_list v n =
     (case v of PList xs \<Rightarrow> seq_results (map (\<lambda>x. index_of x n) xs) | _ \<Rightarrow> Inl ValueError)"

fun count_parents :: "nat list \<Rightarrow> nat list \<Rightarrow> nat list result" where
  "count_parents [] parents = Inr parents"
| "count_parents (child # rest) parents =
     (let parents' = parents[child := parents ! child + 1]
      in if parents' ! child > 1 then Inl ValueError else count_parents rest parents')"

text \<open>The body of the loop over the nodes: the children so far and the count of parents.\<close>

definition check_node ::
  "libm \<Rightarrow> nat \<Rightarrow> nat \<Rightarrow> nat \<Rightarrow> pydict \<Rightarrow> nat list list \<times> nat list \<Rightarrow> (nat list list \<times> nat list) result" where
  "check_node lm node_count mesh_count skin_count node st =
     (let (children, parents) = st in
     res_bind (ensure (\<not> has_key node ''camera'' \<and> \<not> has_key node ''weights'')) (\<lambda>_.
     res_bind (transform_ok lm node) (\<lambda>_.
     res_bind (index_list (dict_get_or node ''children'' (PList [])) node_count) (\<lambda>node_children.
     res_bind (ensure (distinct node_children)) (\<lambda>_.
     res_bind (count_parents node_children parents) (\<lambda>parents'.
     res_bind (if has_key node ''mesh''
               then res_map (\<lambda>_. ()) (index_of (dict_get node ''mesh'') mesh_count) else Inr ()) (\<lambda>_.
     res_bind (if has_key node ''skin''
               then res_map (\<lambda>_. ()) (index_of (dict_get node ''skin'') skin_count) else Inr ()) (\<lambda>_.
     Inr (children @ [node_children], parents')))))))))"

section \<open>The search for a cycle\<close>

text \<open>The state of a node: 0 not seen, 1 on the stack, 2 done.\<close>

primrec visit :: "nat \<Rightarrow> nat list list \<Rightarrow> nat \<Rightarrow> nat list \<Rightarrow> nat list result" where
  "visit 0 children index state = Inl RecursionError"
| "visit (Suc limit) children index state =
     (if state ! index = 1 then Inl ValueError
      else if state ! index = 2 then Inr state
      else res_map (\<lambda>state'. state'[index := 2])
             (fold_result (visit limit children) (children ! index) (state[index := 1])))"

section \<open>The default scene\<close>

definition scene_roots :: "nat \<Rightarrow> nat list \<Rightarrow> pydict \<Rightarrow> nat list result" where
  "scene_roots node_count parents scene =
     res_bind (index_list (dict_get_or scene ''nodes'' (PList [])) node_count) (\<lambda>roots.
     res_bind (ensure (distinct roots \<and> list_all (\<lambda>i. parents ! i = 0) roots)) (\<lambda>_.
     Inr roots))"

text \<open>The nodes that have not been seen: what makes the walk below end.\<close>

definition unseen :: "nat \<Rightarrow> nat list \<Rightarrow> nat" where
  "unseen n seen = card ({..<n} - set seen)"

lemma fewer_unseen: "i < n \<Longrightarrow> i \<notin> set seen \<Longrightarrow> unseen n (i # seen) < unseen n seen"
  unfolding unseen_def by (rule psubset_card_mono) auto

text \<open>
  The walk from the roots; the stack is kept top first (\<^verbatim>\<open>pop()\<close> takes the last element and \<^verbatim>\<open>extend\<close>
  appends). \<open>seen\<close> and \<open>reachable\<close> are the sets, newest first.
\<close>

function walk_scene ::
  "pydict list \<Rightarrow> nat list list \<Rightarrow> nat \<Rightarrow> nat list \<Rightarrow> nat list \<Rightarrow> nat list \<Rightarrow> (nat list \<times> nat list) result" where
  "walk_scene nodes children mesh_count [] seen reachable = Inr (reachable, seen)"
| "walk_scene nodes children mesh_count (index # pending) seen reachable =
     (if index \<in> set seen then walk_scene nodes children mesh_count pending seen reachable
      else if \<not> index < length nodes then Inl IndexError
      else
        let node = nodes ! index
        in res_bind (if has_key node ''mesh''
             then res_map (\<lambda>m. m # reachable) (index_of (dict_get node ''mesh'') mesh_count)
             else Inr reachable) (\<lambda>reachable'.
           walk_scene nodes children mesh_count (rev (children ! index) @ pending) (index # seen) reachable'))"
  by pat_completeness auto

termination
  by (relation "measures
      [\<lambda>(nodes, children, mesh_count, pending, seen, reachable). unseen (length nodes) seen,
       \<lambda>(nodes, children, mesh_count, pending, seen, reachable). length pending]")
    (simp_all add: fewer_unseen)

declare walk_scene.simps(2) [simp del]

section \<open>The check\<close>

definition reachable_meshes ::
  "libm \<Rightarrow> nat \<Rightarrow> pydict \<Rightarrow> nat \<Rightarrow> nat \<Rightarrow> (nat list \<times> nat list) result" where
  "reachable_meshes lm limit document mesh_count skin_count =
     res_bind (array_field document ''nodes'' True) (\<lambda>raw_nodes.
     res_bind (seq_results (map object_of raw_nodes)) (\<lambda>nodes.
     res_bind (fold_result (check_node lm (length nodes) mesh_count skin_count) nodes
       ([], replicate (length nodes) 0)) (\<lambda>(children, parents).
     res_bind (fold_result (visit limit children) [0..<length nodes] (replicate (length nodes) 0)) (\<lambda>_.
     res_bind (array_field document ''scenes'' True) (\<lambda>raw_scenes.
     res_bind (seq_results (map object_of raw_scenes)) (\<lambda>scenes.
     res_bind (seq_results (map (scene_roots (length nodes) parents) scenes)) (\<lambda>roots.
     res_bind (index_of (dict_get_or document ''scene'' (PInt 0)) (length scenes)) (\<lambda>scene_index.
     res_bind (ensure (roots ! scene_index \<noteq> [])) (\<lambda>_.
     res_bind (walk_scene nodes children mesh_count (rev (roots ! scene_index)) [] []) (\<lambda>(reachable, seen).
     res_bind (ensure (reachable \<noteq> [])) (\<lambda>_.
     Inr (reachable, seen))))))))))))"

end
