(* ===== verification/Glb_Scene_Properties.thy ===== *)
theory Glb_Scene_Properties
  imports Glb_Scene
begin

text \<open>
  What acceptance of a node graph says: it is a forest, the walk sees exactly the nodes below the
  roots of the default scene, and which graphs the recursive search cannot handle.
\<close>

section \<open>The search for a cycle\<close>

definition child_edges :: "nat list list \<Rightarrow> (nat \<times> nat) set" where
  "child_edges children = {(i, c). i < length children \<and> c \<in> set (children ! i)}"

definition proper_children :: "nat list list \<Rightarrow> bool" where
  "proper_children children \<longleftrightarrow> (\<forall>cs \<in> set children. set cs \<subseteq> {..<length children})"

definition colored :: "nat \<Rightarrow> nat list \<Rightarrow> nat set" where
  "colored k state = {i. i < length state \<and> state ! i = k}"

text \<open>A rank that falls along every edge out of a set of nodes closed under children.\<close>

definition ranked :: "nat list list \<Rightarrow> (nat \<Rightarrow> nat) \<Rightarrow> nat set \<Rightarrow> bool" where
  "ranked children f done \<longleftrightarrow> (\<forall>i \<in> done. \<forall>c \<in> set (children ! i). c \<in> done \<and> f c < f i)"

lemma ranked_insert:
  assumes "ranked children f done" "set (children ! i) \<subseteq> done" "i \<notin> done"
  shows "\<exists>g. ranked children g (insert i done)"
proof -
  define g where "g = f(i := Suc (sum_list (map f (children ! i))))"
  have "g c < g i" if "c \<in> set (children ! i)" for c
  proof -
    have "c \<noteq> i" using that assms by auto
    moreover have "f c \<le> sum_list (map f (children ! i))" using that by (simp add: member_le_sum_list)
    ultimately show ?thesis by (simp add: g_def)
  qed
  moreover have "g c < g k" if "k \<in> done" "c \<in> set (children ! k)" for k c
    using that assms(1,3) by (auto simp: g_def ranked_def)
  ultimately have "ranked children g (insert i done)"
    using assms(1,2) by (auto simp: ranked_def)
  then show ?thesis by blast
qed

lemma ranked_acyclic:
  assumes "ranked children f {..<length children}"
  shows "acyclic (child_edges children)"
proof -
  have "(child_edges children)\<inverse> \<subseteq> measure f"
    using assms by (auto simp: child_edges_def ranked_def)
  then have "wf ((child_edges children)\<inverse>)" using wf_measure wf_subset by blast
  then show ?thesis using wf_acyclic acyclic_converse by blast
qed

definition search_step :: "nat list list \<Rightarrow> nat set \<Rightarrow> nat list \<Rightarrow> nat list \<Rightarrow> bool" where
  "search_step children goals state state' \<longleftrightarrow>
     length state' = length state \<and> colored 2 state \<subseteq> colored 2 state' \<and> goals \<subseteq> colored 2 state'
     \<and> colored 1 state' = colored 1 state
     \<and> ((\<exists>f. ranked children f (colored 2 state)) \<longrightarrow> (\<exists>f. ranked children f (colored 2 state')))"

lemma fold_search:
  assumes step: "\<And>i s s'. i < n \<Longrightarrow> length s = n \<Longrightarrow> f i s = Inr s' \<Longrightarrow> search_step children {i} s s'"
  shows "set cs \<subseteq> {..<n} \<Longrightarrow> length s = n \<Longrightarrow> fold_result f cs s = Inr s' \<Longrightarrow>
    search_step children (set cs) s s'"
proof (induction cs arbitrary: s)
  case Nil
  then show ?case by (simp add: search_step_def)
next
  case (Cons c cs)
  then obtain t where t: "f c s = Inr t" "fold_result f cs t = Inr s'" by auto
  have one: "search_step children {c} s t" using step [of c s t] Cons.prems t by simp
  then have "length t = n" using Cons.prems by (simp add: search_step_def)
  then have "search_step children (set cs) t s'" using Cons t by simp
  with one show ?case by (auto simp: search_step_def)
qed

lemma colored_update:
  "i < length s \<Longrightarrow> colored k (s[i := v]) = (if k = v then insert i (colored k s) else colored k s - {i})"
  by (auto simp: colored_def nth_list_update)

lemma visit_search:
  assumes "proper_children children"
  shows "i < length children \<Longrightarrow> length s = length children \<Longrightarrow> visit limit children i s = Inr s' \<Longrightarrow>
    search_step children {i} s s'"
proof (induction limit arbitrary: i s s')
  case 0
  then show ?case by simp
next
  case (Suc limit)
  show ?case
  proof (cases "s ! i = 2")
    case True
    then show ?thesis using Suc.prems by (auto simp: search_step_def colored_def)
  next
    case False
    with Suc.prems have fresh: "s ! i \<noteq> 1" "s ! i \<noteq> 2" by (auto split: if_splits)
    with Suc.prems obtain t where t: "fold_result (visit limit children) (children ! i) (s[i := 1]) = Inr t"
      and s': "s' = t[i := 2]" by auto
    have kids: "set (children ! i) \<subseteq> {..<length children}"
      using assms Suc.prems(1) by (auto simp: proper_children_def)
    have run: "search_step children (set (children ! i)) (s[i := 1]) t"
    proof (rule fold_search [where n = "length children" and f = "visit limit children"])
      show "search_step children {j} u u'" if "j < length children" "length u = length children"
        "visit limit children j u = Inr u'" for j u u'
        using that by (rule Suc.IH)
    qed (use Suc.prems kids t in simp_all)
    have black: "colored 2 (s[i := 1]) = colored 2 s" and grey: "colored 1 (s[i := 1]) = insert i (colored 1 s)"
      using fresh Suc.prems by (auto simp: colored_update) (auto simp: colored_def)
    have i: "i \<notin> colored 1 s" "i < length t" "i \<notin> colored 2 t"
      using fresh run Suc.prems grey by (auto simp: search_step_def colored_def)
    have blacks: "colored 2 s' = insert i (colored 2 t)" "colored 1 s' = colored 1 s"
      using i run grey by (auto simp: s' colored_update search_step_def)
    have "\<exists>f. ranked children f (colored 2 s')" if "\<exists>f. ranked children f (colored 2 s)"
      using that run i ranked_insert [of children _ "colored 2 t" i] black
      by (auto simp: blacks search_step_def)
    then show ?thesis using run blacks black Suc.prems by (auto simp: search_step_def s')
  qed
qed

lemma search_accepts_only_acyclic:
  assumes proper: "proper_children children" and n: "n = length children"
    and run: "fold_result (visit limit children) [0..<n] (replicate n 0) = Inr s"
  shows "acyclic (child_edges children)"
proof -
  have step: "search_step children (set [0..<n]) (replicate n 0) s"
  proof (rule fold_search [where n = n and f = "visit limit children"])
    show "search_step children {j} u u'" if "j < n" "length u = n" "visit limit children j u = Inr u'"
      for j u u' using that visit_search [OF proper, of j u limit u'] n by simp
  qed (use run in auto)
  have "colored 2 (replicate n 0) = {}" by (auto simp: colored_def)
  then have "\<exists>f. ranked children f (colored 2 (replicate n 0))" by (simp add: ranked_def)
  then obtain f where f: "ranked children f (colored 2 s)"
    using step by (auto simp: search_step_def)
  have "colored 2 s = {..<length children}"
    using step n by (auto simp: search_step_def colored_def)
  with f show ?thesis by (simp add: ranked_acyclic)
qed

section \<open>Which graphs the search accepts\<close>

text \<open>With enough frames an acyclic graph is never refused: the nodes on the stack are ancestors.\<close>

lemma visit_returns:
  assumes proper: "proper_children children"
    and rank: "\<And>i c. i < length children \<Longrightarrow> c \<in> set (children ! i) \<Longrightarrow> f c < f i"
  shows "i < length children \<Longrightarrow> length s = length children \<Longrightarrow> f i < limit \<Longrightarrow>
    (\<And>j. j \<in> colored 1 s \<Longrightarrow> f i < f j) \<Longrightarrow> returns (visit limit children i s)"
proof (induction limit arbitrary: i s)
  case 0
  then show ?case by simp
next
  case (Suc limit)
  have ok: "s ! i \<noteq> 1"
  proof
    assume "s ! i = 1"
    then have "i \<in> colored 1 s" using Suc.prems by (simp add: colored_def)
    then show False using Suc.prems(4) by blast
  qed
  have "returns (fold_result (visit limit children) cs u)"
    if "set cs \<subseteq> set (children ! i)" "length u = length children"
      "\<And>j. j \<in> colored 1 u \<Longrightarrow> f i \<le> f j" for cs u
    using that
  proof (induction cs arbitrary: u)
    case Nil
    then show ?case by simp
  next
    case (Cons c cs)
    have c: "c < length children" "f c < f i"
      using Cons.prems(1) Suc.prems(1) proper rank by (auto simp: proper_children_def)
    have "returns (visit limit children c u)"
    proof (rule Suc.IH)
      show "f c < f j" if "j \<in> colored 1 u" for j using c(2) Cons.prems(3) [OF that] by linarith
    qed (use c Suc.prems Cons.prems in auto)
    then obtain t where t: "visit limit children c u = Inr t" by (auto elim: returnsE)
    have "search_step children {c} u t"
      using visit_search [OF proper c(1) Cons.prems(2) t] .
    then have "length t = length children" "colored 1 t = colored 1 u"
      using Cons.prems by (simp_all add: search_step_def)
    then show ?case using Cons.IH [of t] Cons.prems t by simp
  qed
  from this [of "children ! i" "s[i := 1]"] show ?case
    using ok Suc.prems by (force simp: colored_update)
qed

lemma search_accepts_acyclic:
  assumes proper: "proper_children children" and n: "n = length children" "n < limit"
    and acyclic: "acyclic (child_edges children)"
  shows "returns (fold_result (visit limit children) [0..<n] (replicate n 0))"
proof -
  define f where "f i = card ((child_edges children)\<^sup>+ `` {i})" for i
  have bounded: "child_edges children \<subseteq> {..<n} \<times> {..<n}"
    using proper n by (force simp: child_edges_def proper_children_def)
  have below: "(child_edges children)\<^sup>+ `` {i} \<subseteq> {..<n}" for i
    using trancl_subset_Sigma [OF bounded] by auto
  have rank: "f c < f i" if "i < length children" "c \<in> set (children ! i)" for i c
  proof -
    have edge: "(i, c) \<in> child_edges children" using that by (simp add: child_edges_def)
    have "(child_edges children)\<^sup>+ `` {c} \<subset> (child_edges children)\<^sup>+ `` {i}"
      using edge acyclic by (auto simp: acyclic_def intro: trancl_into_trancl2)
    then show ?thesis unfolding f_def
      using below finite_subset by (intro psubset_card_mono) blast+
  qed
  have small: "f i < limit" for i
    using card_mono [OF _ below [of i]] n by (simp add: f_def)
  have "returns (fold_result (visit limit children) cs u)"
    if "set cs \<subseteq> {..<n}" "length u = n" "colored 1 u = {}" for cs u
    using that
  proof (induction cs arbitrary: u)
    case Nil
    then show ?case by simp
  next
    case (Cons c cs)
    have "returns (visit limit children c u)"
      by (rule visit_returns [where f = f]) (use proper rank small Cons.prems n in auto)
    then obtain t where t: "visit limit children c u = Inr t" by (auto elim: returnsE)
    have "search_step children {c} u t"
      by (rule visit_search [OF proper _ _ t]) (use Cons.prems n in auto)
    then show ?case using Cons t by (simp add: search_step_def)
  qed
  from this [of "[0..<n]" "replicate n 0"] show ?thesis
    by (simp add: colored_def atLeast0LessThan)
qed

text \<open>A chain of nodes, each the parent of the next.\<close>

definition chain :: "nat \<Rightarrow> nat list list" where
  "chain n = map (\<lambda>i. if Suc i < n then [Suc i] else []) [0..<n]"

lemma chain_overruns:
  "i + limit < n \<Longrightarrow> (\<And>j. i \<le> j \<Longrightarrow> j < n \<Longrightarrow> s ! j = 0) \<Longrightarrow> length s = n \<Longrightarrow>
     visit limit (chain n) i s = Inl RecursionError"
proof (induction limit arbitrary: i s)
  case 0
  then show ?case by simp
next
  case (Suc limit)
  then have i: "i < n" "Suc i < n" by auto
  then have kids: "chain n ! i = [Suc i]" by (simp add: chain_def)
  show ?case
  proof (cases "limit = 0")
    case True
    then show ?thesis using Suc.prems i kids by simp
  next
    case False
    then have "visit limit (chain n) (Suc i) (s[i := 1]) = Inl RecursionError"
      using Suc.prems by (intro Suc.IH) auto
    then show ?thesis using Suc.prems i kids by simp
  qed
qed

section \<open>The nodes\<close>

text \<open>How often each node was named as a child, which is at most once.\<close>

definition parents_match :: "nat list list \<Rightarrow> nat list \<Rightarrow> bool" where
  "parents_match children parents \<longleftrightarrow>
     (\<forall>i < length parents. parents ! i = count_list (concat children) i \<and> parents ! i \<le> 1)"

lemma count_parents_Inr:
  "count_parents cs parents = Inr parents' \<Longrightarrow> set cs \<subseteq> {..<length parents} \<Longrightarrow>
     length parents' = length parents
     \<and> (\<forall>i < length parents. parents' ! i = parents ! i + count_list cs i
          \<and> (parents ! i \<le> 1 \<longrightarrow> parents' ! i \<le> 1))"
proof (induction cs arbitrary: parents)
  case Nil
  then show ?case by simp
next
  case (Cons c cs)
  define p where "p = parents[c := parents ! c + 1]"
  have c: "c < length parents" "length p = length parents"
    using Cons.prems by (auto simp: p_def)
  have le: "p ! c \<le> 1" and rest: "count_parents cs p = Inr parents'"
    using Cons.prems(1) by (auto simp: p_def Let_def split: if_splits)
  have "set cs \<subseteq> {..<length p}" using Cons.prems(2) c by simp
  from Cons.IH [OF rest this] have IH: "length parents' = length p"
    "i < length p \<Longrightarrow> parents' ! i = p ! i + count_list cs i \<and> (p ! i \<le> 1 \<longrightarrow> parents' ! i \<le> 1)" for i
    by blast+
  have "parents' ! i = parents ! i + count_list (c # cs) i \<and> (parents ! i \<le> 1 \<longrightarrow> parents' ! i \<le> 1)"
    if "i < length parents" for i
  proof (cases "i = c")
    case True
    then have "p ! i = parents ! i + 1" using c by (simp add: p_def)
    then show ?thesis using IH(2) [of i] that c le True by simp
  next
    case False
    then have "p ! i = parents ! i" by (simp add: p_def)
    then show ?thesis using IH(2) [of i] that c False by auto
  qed
  then show ?case unfolding IH(1) c(2) by blast
qed

lemma parents_match_step:
  assumes "parents_match children parents" "count_parents cs parents = Inr parents'"
    "set cs \<subseteq> {..<length parents}"
  shows "parents_match (children @ [cs]) parents' \<and> length parents' = length parents"
proof -
  have len: "length parents' = length parents" and eq: "i < length parents \<Longrightarrow>
      parents' ! i = parents ! i + count_list cs i \<and> (parents ! i \<le> 1 \<longrightarrow> parents' ! i \<le> 1)" for i
    using count_parents_Inr [OF assms(2,3)] by blast+
  have "parents' ! i = count_list (concat (children @ [cs])) i \<and> parents' ! i \<le> 1"
    if "i < length parents" for i
    using eq [OF that] assms(1) that unfolding parents_match_def by force
  then show ?thesis unfolding parents_match_def len by blast
qed

lemma index_list_bound:
  assumes "index_list v n = Inr xs"
  shows "set xs \<subseteq> {..<n}"
proof
  fix x assume "x \<in> set xs"
  moreover obtain ys where "seq_results (map (\<lambda>y. index_of y n) ys) = Inr xs"
    using assms by (cases v) (auto simp: index_list_def)
  ultimately have "\<exists>y. index_of y n = Inr x" using seq_results_member by fast
  then show "x \<in> {..<n}" by auto
qed

lemma check_node_Inr:
  assumes "check_node lm n mc sc node (children, parents) = Inr (children', parents')"
  shows "\<exists>cs. index_list (dict_get_or node ''children'' (PList [])) n = Inr cs
    \<and> children' = children @ [cs] \<and> distinct cs \<and> count_parents cs parents = Inr parents'
    \<and> (has_key node ''mesh'' \<longrightarrow> (\<exists>m < mc. dict_get node ''mesh'' = PInt (int m)))"
  using assms unfolding check_node_def by (auto split: if_splits)

text \<open>A node whose mesh index, if it names one, is one of the meshes.\<close>

definition mesh_in_range :: "nat \<Rightarrow> pydict \<Rightarrow> bool" where
  "mesh_in_range mesh_count node \<longleftrightarrow>
     (has_key node ''mesh'' \<longrightarrow> (\<exists>m < mesh_count. dict_get node ''mesh'' = PInt (int m)))"

lemma check_nodes_Inr:
  "fold_result (check_node lm n mc sc) nodes (children, parents) = Inr (children', parents') \<Longrightarrow>
   length parents = n \<Longrightarrow> parents_match children parents \<Longrightarrow>
     length parents' = n \<and> parents_match children' parents'
     \<and> (\<exists>new. children' = children @ new \<and> length new = length nodes
          \<and> (\<forall>k < length nodes. index_list (dict_get_or (nodes ! k) ''children'' (PList [])) n = Inr (new ! k)))
     \<and> (\<forall>node \<in> set nodes. mesh_in_range mc node)"
proof (induction nodes arbitrary: children parents)
  case Nil
  then show ?case by auto
next
  case (Cons node nodes)
  obtain ch p where step: "check_node lm n mc sc node (children, parents) = Inr (ch, p)"
    and rest: "fold_result (check_node lm n mc sc) nodes (ch, p) = Inr (children', parents')"
    using Cons.prems(1) by auto
  from check_node_Inr [OF step] obtain cs where cs: "index_list (dict_get_or node ''children'' (PList [])) n = Inr cs"
    "ch = children @ [cs]" "count_parents cs parents = Inr p" and mesh: "mesh_in_range mc node"
    unfolding mesh_in_range_def by blast
  have p: "length p = n" "parents_match ch p"
    using parents_match_step [OF Cons.prems(3) cs(3)] index_list_bound [OF cs(1)] Cons.prems(2) cs(2)
    by simp_all
  obtain new where IH: "length parents' = n" "parents_match children' parents'"
    "children' = ch @ new" "length new = length nodes"
    "\<forall>k < length nodes. index_list (dict_get_or (nodes ! k) ''children'' (PList [])) n = Inr (new ! k)"
    "\<forall>node \<in> set nodes. mesh_in_range mc node"
    using Cons.IH [OF rest p] by blast
  have "\<forall>k < length (node # nodes).
      index_list (dict_get_or ((node # nodes) ! k) ''children'' (PList [])) n = Inr ((cs # new) ! k)"
    using IH(5) cs(1) by (auto simp: less_Suc_eq_0_disj)
  then show ?case using IH mesh cs(2)
    by (intro conjI exI [of _ "cs # new"]) auto
qed

lemma distinct_count_list: "(\<forall>x \<in> set xs. count_list xs x \<le> 1) \<longleftrightarrow> distinct xs"
proof (induction xs)
  case (Cons x xs)
  have "(\<forall>y \<in> set (x # xs). count_list (x # xs) y \<le> 1)
      \<longleftrightarrow> x \<notin> set xs \<and> (\<forall>y \<in> set xs. count_list xs y \<le> 1)"
    by (auto simp: count_list_0_iff)
  with Cons show ?case by simp
qed simp

section \<open>The walk\<close>

lemma walk_scene_Inr:
  "walk_scene nodes children mc pending seen reachable = Inr (r, s) \<Longrightarrow>
   (\<forall>x \<in> set seen. set (children ! x) \<subseteq> set seen \<union> set pending) \<Longrightarrow>
     set seen \<union> set pending \<subseteq> set s \<and> (\<forall>x \<in> set s. set (children ! x) \<subseteq> set s)
     \<and> set s \<subseteq> {(i, c). c \<in> set (children ! i)}\<^sup>* `` (set seen \<union> set pending)
     \<and> (set s \<subseteq> set seen \<union> {..<length nodes})
     \<and> set r = set reachable \<union> {m. \<exists>i \<in> set s - set seen. has_key (nodes ! i) ''mesh''
          \<and> dict_get (nodes ! i) ''mesh'' = PInt (int m)}"
proof (induction nodes children mc pending seen reachable rule: walk_scene.induct)
  case (1 nodes children mc seen reachable)
  then show ?case by auto
next
  case (2 nodes children mc index pending seen reachable)
  let ?E = "{(i, c). c \<in> set (children ! i)}"
  show ?case
  proof (cases "index \<in> set seen")
    case True
    then show ?thesis using 2 by (auto simp: walk_scene.simps(2) insert_absorb)
  next
    case False
    then have i: "index < length nodes" using "2.prems"(1) by (auto simp: walk_scene.simps(2) split: if_splits)
    from "2.prems"(1) False i obtain r' where r': "(if has_key (nodes ! index) ''mesh''
        then res_map (\<lambda>m. m # reachable) (index_of (dict_get (nodes ! index) ''mesh'') mc)
        else Inr reachable) = Inr r'"
      and rest: "walk_scene nodes children mc (rev (children ! index) @ pending) (index # seen) r' = Inr (r, s)"
      by (subst (asm) walk_scene.simps(2)) (auto simp: Let_def)
    have prem: "\<forall>x \<in> set (index # seen). set (children ! x)
        \<subseteq> set (index # seen) \<union> set (rev (children ! index) @ pending)"
      using "2.prems"(2) by auto
    have IH: "set (index # seen) \<union> set (rev (children ! index) @ pending) \<subseteq> set s
        \<and> (\<forall>x \<in> set s. set (children ! x) \<subseteq> set s)
        \<and> set s \<subseteq> ?E\<^sup>* `` (set (index # seen) \<union> set (rev (children ! index) @ pending))
        \<and> (set s \<subseteq> set (index # seen) \<union> {..<length nodes})
        \<and> set r = set r' \<union> {m. \<exists>i \<in> set s - set (index # seen). has_key (nodes ! i) ''mesh''
            \<and> dict_get (nodes ! i) ''mesh'' = PInt (int m)}"
      using "2.IH"(2) [OF False _ refl r' rest prem] i by simp
    have reach: "?E\<^sup>* `` (set (index # seen) \<union> set (rev (children ! index) @ pending))
        \<subseteq> ?E\<^sup>* `` (set seen \<union> set (index # pending))"
      by (auto intro: converse_rtrancl_into_rtrancl)
    have mesh: "set r' = set reachable \<union> {m. has_key (nodes ! index) ''mesh''
        \<and> dict_get (nodes ! index) ''mesh'' = PInt (int m)}"
      using r' by (auto split: if_splits)
    have "set s - set seen = insert index (set s - set (index # seen))" using IH False by auto
    then have "set r = set reachable \<union> {m. \<exists>i \<in> set s - set seen. has_key (nodes ! i) ''mesh''
        \<and> dict_get (nodes ! i) ''mesh'' = PInt (int m)}"
      using IH mesh by auto
    then show ?thesis using IH reach i by auto
  qed
qed

section \<open>Properties\<close>

text \<open>A forest over the nodes of a document: who is whose child, at most one parent, no cycle.\<close>

definition node_forest :: "pydict list \<Rightarrow> nat list list \<Rightarrow> bool" where
  "node_forest nodes children \<longleftrightarrow>
     length children = length nodes
     \<and> (\<forall>i < length nodes. index_list (dict_get_or (nodes ! i) ''children'' (PList [])) (length nodes)
          = Inr (children ! i))
     \<and> distinct (concat children) \<and> acyclic (child_edges children)"

lemma distinct_concat_children:
  assumes "parents_match children parents" "proper_children children" "length parents = length children"
  shows "distinct (concat children)"
proof -
  have "\<forall>x \<in> set (concat children). count_list (concat children) x \<le> 1"
    using assms by (force simp: parents_match_def proper_children_def)
  then show ?thesis by (simp only: distinct_count_list)
qed

lemma nodes_form_forest:
  assumes nodes: "fold_result (check_node lm (length nodes) mc sc) nodes ([], replicate (length nodes) 0)
      = Inr (children, parents)"
    and search: "fold_result (visit limit children) [0..<length nodes] (replicate (length nodes) 0) = Inr st"
  shows "node_forest nodes children" and "proper_children children"
    and "length parents = length nodes" and "parents_match children parents"
    and "\<forall>node \<in> set nodes. mesh_in_range mc node"
proof -
  have "parents_match [] (replicate (length nodes) 0)" by (simp add: parents_match_def)
  from check_nodes_Inr [OF nodes _ this] have len: "length parents = length nodes"
    and match: "parents_match children parents" and kids: "length children = length nodes"
      "\<forall>k < length nodes. index_list (dict_get_or (nodes ! k) ''children'' (PList [])) (length nodes)
        = Inr (children ! k)"
    and mesh: "\<forall>node \<in> set nodes. mesh_in_range mc node"
    by auto
  show "length parents = length nodes" "parents_match children parents"
    "\<forall>node \<in> set nodes. mesh_in_range mc node" by fact+
  show proper: "proper_children children"
    using kids index_list_bound by (fastforce simp: proper_children_def in_set_conv_nth)
  show "node_forest nodes children"
    using kids distinct_concat_children [OF match proper] len
      search_accepts_only_acyclic [OF proper _ search] by (simp add: node_forest_def)
qed

lemma reach_closed:
  assumes "A \<subseteq> S" "\<And>x y. x \<in> S \<Longrightarrow> (x, y) \<in> E \<Longrightarrow> y \<in> S"
  shows "E\<^sup>* `` A \<subseteq> S"
proof
  fix y assume "y \<in> E\<^sup>* `` A"
  then obtain x where "(x, y) \<in> E\<^sup>*" "x \<in> A" by auto
  then show "y \<in> S" by (induction rule: rtrancl_induct) (use assms in auto)
qed

lemma walk_sees_reachable:
  assumes walk: "walk_scene nodes children mc pending [] [] = Inr (r, s)"
    and proper: "proper_children children" and n: "length children = length nodes"
  shows "set s = (child_edges children)\<^sup>* `` set pending" and "set s \<subseteq> {..<length nodes}"
    and "set r = {m. \<exists>i \<in> set s. has_key (nodes ! i) ''mesh'' \<and> dict_get (nodes ! i) ''mesh'' = PInt (int m)}"
proof -
  let ?E = "{(i, c). c \<in> set (children ! i)}"
  have W: "set pending \<subseteq> set s" "\<forall>x \<in> set s. set (children ! x) \<subseteq> set s"
    "set s \<subseteq> ?E\<^sup>* `` set pending" "set s \<subseteq> {..<length nodes}"
    "set r = {m. \<exists>i \<in> set s. has_key (nodes ! i) ''mesh'' \<and> dict_get (nodes ! i) ''mesh'' = PInt (int m)}"
    using walk_scene_Inr [OF walk] by auto
  show "set r = {m. \<exists>i \<in> set s. has_key (nodes ! i) ''mesh'' \<and> dict_get (nodes ! i) ''mesh'' = PInt (int m)}"
    by (rule W(5))
  show "set s \<subseteq> {..<length nodes}" by (rule W(4))
  have "(child_edges children)\<^sup>* `` set pending \<subseteq> set s"
    using W(1,2) by (intro reach_closed) (auto simp: child_edges_def)
  moreover have "?E\<^sup>* `` set pending \<subseteq> (child_edges children)\<^sup>* `` set pending"
  proof -
    have start: "set pending \<subseteq> {..<length nodes}" using W(1,4) by blast
    have "y \<in> (child_edges children)\<^sup>* `` set pending \<and> y < length nodes"
      if "(x, y) \<in> ?E\<^sup>*" "x \<in> set pending" for x y
      using that
    proof (induction rule: rtrancl_induct)
      case base
      then show ?case using start by auto
    next
      case (step y z)
      then have "(y, z) \<in> child_edges children" by (simp add: child_edges_def n)
      moreover have "z < length nodes"
        using step proper n by (force simp: proper_children_def)
      ultimately show ?case using step by (auto intro: rtrancl_into_rtrancl)
    qed
    then show ?thesis by auto
  qed
  ultimately show "set s = (child_edges children)\<^sup>* `` set pending" using W(3) by blast
qed

lemma object_of_Inr: "object_of v = Inr d \<longleftrightarrow> v = PDict d"
  by (cases v) auto

lemma objects_of_Inr: "seq_results (map object_of raw) = Inr ds \<longleftrightarrow> raw = map PDict ds"
proof (induction raw arbitrary: ds)
  case (Cons v raw)
  then show ?case by (cases ds) (auto simp: object_of_Inr)
qed auto

lemma scene_roots_Inr:
  assumes "scene_roots n parents scene = Inr roots"
  shows "distinct roots" "set roots \<subseteq> {..<n}" "\<forall>i \<in> set roots. parents ! i = 0"
  using assms index_list_bound by (auto simp: scene_roots_def list_all_iff)

lemma reachable_meshes_Inr:
  assumes "reachable_meshes lm limit document mesh_count skin_count = Inr (reachable, seen)"
  shows "\<exists>nodes children roots. array_field document ''nodes'' True = Inr (map PDict nodes)
    \<and> node_forest nodes children
    \<and> roots \<noteq> [] \<and> distinct roots \<and> set roots \<inter> set (concat children) = {}
    \<and> set seen = (child_edges children)\<^sup>* `` set roots
    \<and> set reachable = {m. \<exists>i \<in> set seen. has_key (nodes ! i) ''mesh''
         \<and> dict_get (nodes ! i) ''mesh'' = PInt (int m)}
    \<and> set reachable \<subseteq> {..<mesh_count} \<and> reachable \<noteq> []"
proof -
  from assms obtain raw nodes children parents st scenes roots k where
    raw: "array_field document ''nodes'' True = Inr raw" "seq_results (map object_of raw) = Inr nodes"
    and nodes: "fold_result (check_node lm (length nodes) mesh_count skin_count) nodes
      ([], replicate (length nodes) 0) = Inr (children, parents)"
    and search: "fold_result (visit limit children) [0..<length nodes] (replicate (length nodes) 0) = Inr st"
    and roots: "seq_results (map (scene_roots (length nodes) parents) scenes) = Inr roots"
    and k: "k < length scenes" "roots ! k \<noteq> []"
    and walk: "walk_scene nodes children mesh_count (rev (roots ! k)) [] [] = Inr (reachable, seen)"
    and some: "reachable \<noteq> []"
    unfolding reachable_meshes_def by (clarsimp split: prod.splits)
  note forest = nodes_form_forest [OF nodes search]
  have len: "length children = length nodes" using forest(1) by (simp add: node_forest_def)
  have "length roots = length scenes" using roots by (auto simp: seq_results_Inr dest: map_eq_imp_length_eq)
  then have "roots ! k \<in> set roots" using k by simp
  then obtain scene where scene: "scene_roots (length nodes) parents scene = Inr (roots ! k)"
    using seq_results_member [OF roots] by blast
  note R = scene_roots_Inr [OF scene]
  have "count_list (concat children) i = 0" if "i \<in> set (roots ! k)" for i
    using that R forest(3,4) by (force simp: parents_match_def)
  then have "set (roots ! k) \<inter> set (concat children) = {}" by (auto simp: count_list_0_iff)
  note W = walk_sees_reachable [OF walk forest(2) len]
  have "m < mesh_count" if m: "m \<in> set reachable" for m
  proof -
    obtain i where i: "i \<in> set seen" "has_key (nodes ! i) ''mesh''"
      "dict_get (nodes ! i) ''mesh'' = PInt (int m)" using m W(3) by auto
    then have "nodes ! i \<in> set nodes" using W(2) by auto
    then show ?thesis using forest(5) i by (auto simp: mesh_in_range_def)
  qed
  then have "set reachable \<subseteq> {..<mesh_count}" by auto
  moreover have "array_field document ''nodes'' True = Inr (map PDict nodes)"
    using raw by (simp add: objects_of_Inr)
  ultimately show ?thesis
    using forest(1) k(2) R(1) \<open>set (roots ! k) \<inter> set (concat children) = {}\<close> W(1,3) some
    by (intro exI [of _ nodes] exI [of _ children] exI [of _ "roots ! k"]) simp
qed


definition sample_scene :: pydict where
  "sample_scene =
     [(''nodes'', PList [PDict [(''children'', PList [PInt 2])], PDict [(''mesh'', PInt 1)],
         PDict [(''mesh'', PInt 0)]]),
      (''scenes'', PList [PDict [(''nodes'', PList [PInt 0])]])]"

definition sample_libm :: libm where
  "sample_libm = \<lparr>c_square = (\<lambda>x. fmul x x), c_sqrt = (\<lambda>x. x)\<rparr>"

lemma sample_scene_accepted: "reachable_meshes sample_libm 9 sample_scene 2 0 = Inr ([0], [2, 0])"
  by code_simp


text \<open>
  The depth-first search decides whether the node graph is acyclic: on children whose indices are
  in range, with more frames than there are nodes, it returns exactly when there is no cycle.
\<close>
lemma search_decides_acyclicity:
  assumes "proper_children children" and "length children < limit"
  shows "returns (fold_result (visit limit children) [0..<length children] (replicate (length children) 0))
    \<longleftrightarrow> acyclic (child_edges children)"
  using search_accepts_only_acyclic [OF assms(1) refl] search_accepts_acyclic [OF assms(1) refl assms(2)]
  unfolding returns_def by blast

text \<open>
  (C40) The search is recursive without a bound of its own: a chain of more nodes than Python grants
  frames, a valid graph without a cycle, makes it raise \<^verbatim>\<open>RecursionError\<close> instead of a verdict. The
  number of nodes a document may have (one million) is far above Python's default limit.
\<close>
theorem deep_chain_raises:
  assumes "limit < n"
  shows "fold_result (visit limit (chain n)) [0..<n] (replicate n 0) = Inl RecursionError
    \<and> acyclic (child_edges (chain n))"
proof
  have "visit limit (chain n) 0 (replicate n 0) = Inl RecursionError"
    using assms by (intro chain_overruns) auto
  moreover have "[0..<n] = 0 # [1..<n]" using assms by (simp add: upt_conv_Cons)
  ultimately show "fold_result (visit limit (chain n)) [0..<n] (replicate n 0) = Inl RecursionError"
    by simp
  have "child_edges (chain n) \<subseteq> less_than" by (auto simp: child_edges_def chain_def split: if_splits)
  then show "acyclic (child_edges (chain n))"
    using wf_less_than wf_acyclic wf_subset by blast
qed

theorem deep_chain_raises_witness:
  "(2 :: nat) < 3 \<and> fold_result (visit 2 (chain 3)) [0..<3] (replicate 3 0) = Inl RecursionError"
  using deep_chain_raises [of 2 3] by simp

end
