(* ===== verification/Glb_Primitives.thy ===== *)
theory Glb_Primitives
  imports Glb_Accessors "HOL-Library.Sublist"
begin

text \<open>
  The triangles of a mesh (\<^verbatim>\<open>glb_validation/meshes.py\<close> \<^verbatim>\<open>_triangle_primitive\<close>): the vertex attributes, the
  positions and their declared bounds, and the triangle indices, all read through the accessors.
\<close>

section \<open>Attributes\<close>

definition known_attributes :: "string list" where
  "known_attributes =
     [''POSITION'', ''NORMAL'', ''TANGENT'', ''TEXCOORD_0'', ''TEXCOORD_1'', ''COLOR_0'', ''JOINTS_0'',
      ''WEIGHTS_0'']"

text \<open>The type rules a semantic imposes on its accessor.\<close>

definition normalized_or_float :: "accessor \<Rightarrow> bool" where
  "normalized_or_float a \<longleftrightarrow>
     acc_component_type a \<in> {5121, 5123, 5126}
     \<and> (acc_component_type a = 5126 \<or> acc_normalized a)"

definition semantic_ok :: "string \<Rightarrow> accessor \<Rightarrow> bool" where
  "semantic_ok name a \<longleftrightarrow>
     (name = ''NORMAL'' \<longrightarrow>
        acc_component_type a = 5126 \<and> acc_kind a = ''VEC3'' \<and> \<not> acc_normalized a)
     \<and> (name = ''TANGENT'' \<longrightarrow>
        acc_component_type a = 5126 \<and> acc_kind a = ''VEC4'' \<and> \<not> acc_normalized a)
     \<and> (prefix ''TEXCOORD_'' name \<longrightarrow> acc_kind a = ''VEC2'' \<and> normalized_or_float a)
     \<and> (prefix ''JOINTS_'' name \<longrightarrow>
        acc_kind a = ''VEC4'' \<and> acc_component_type a \<in> {5121, 5123} \<and> \<not> acc_normalized a)
     \<and> (prefix ''COLOR_'' name \<longrightarrow> acc_kind a \<in> {''VEC3'', ''VEC4''} \<and> normalized_or_float a)
     \<and> (prefix ''WEIGHTS_'' name \<longrightarrow> acc_kind a = ''VEC4'' \<and> normalized_or_float a)
     \<and> (prefix ''_'' name \<or> name \<in> set known_attributes)"

definition check_attribute :: "accessor list \<Rightarrow> string \<times> pyvalue \<Rightarrow> unit result" where
  "check_attribute accessors item =
     res_bind (index_of (snd item) (length accessors)) (\<lambda>i.
     let a = accessors ! i
     in res_bind (ensure (acc_start a mod 4 = 0 \<and> acc_stride a mod 4 = 0)) (\<lambda>_.
        res_bind (ensure (acc_target a \<in> {None, Some 34962})) (\<lambda>_.
        res_bind (ensure (acc_component_type a \<noteq> 5125)) (\<lambda>_.
        res_bind (if acc_component_type a = 5126 then finite_accessor a else Inr ()) (\<lambda>_.
        ensure (semantic_ok (fst item) a))))))"

section \<open>Positions\<close>

definition tolerance :: "nat \<Rightarrow> pyfloat" where
  "tolerance k = round64 (1 / 10 ^ k)"

text \<open>The running minimum and maximum of the three axes.\<close>

definition extend_bounds ::
  "pyfloat list \<times> pyfloat list \<Rightarrow> pyvalue list \<Rightarrow> (pyfloat list \<times> pyfloat list) result" where
  "extend_bounds bounds v =
     res_bind (any_result not_finite_component v) (\<lambda>bad.
     if bad then Inl ValueError
     else res_bind (seq_results (map to_float (take 3 v))) (\<lambda>xs.
       if length xs < 3 then Inl IndexError
       else Inr (map2 fmin (fst bounds) xs, map2 fmax (snd bounds) xs)))"

definition position_bounds :: "accessor \<Rightarrow> (pyfloat list \<times> pyfloat list) result" where
  "position_bounds position =
     for_values position [0..<acc_count position] extend_bounds
       (replicate 3 (FInf False), replicate 3 (FInf True))"

definition bounds_match :: "pyfloat list \<Rightarrow> pyfloat list \<Rightarrow> bool" where
  "bounds_match declared actual \<longleftrightarrow>
     list_all (\<lambda>i. isclose (tolerance 6) (tolerance 7) (declared ! i) (actual ! i)) [0, 1, 2]"

definition largest_extent :: "pyfloat list \<Rightarrow> pyfloat list \<Rightarrow> pyfloat" where
  "largest_extent minimum maximum =
     (let d = map2 fsub maximum minimum in fold (\<lambda>x m. fmax m x) (tl d) (hd d))"

section \<open>Triangles\<close>

text \<open>\<open>int(component)\<close>.\<close>

fun int_of_component :: "pyvalue \<Rightarrow> int result" where
  "int_of_component (PInt i) = Inr i"
| "int_of_component (PFloat (FFin r)) = Inr (if 0 \<le> r then \<lfloor>r\<rfloor> else - \<lfloor>- r\<rfloor>)"
| "int_of_component (PFloat (FInf s)) = Inl OverflowError"
| "int_of_component (PFloat FNaN) = Inl ValueError"
| "int_of_component _ = Inl TypeError"

definition cross_square :: "pyfloat list \<Rightarrow> pyfloat list \<Rightarrow> pyfloat list \<Rightarrow> pyfloat" where
  "cross_square a b c =
     (let ab = map2 fsub b a; ac = map2 fsub c a;
          cross = [fsub (fmul (ab ! 1) (ac ! 2)) (fmul (ab ! 2) (ac ! 1)),
                   fsub (fmul (ab ! 2) (ac ! 0)) (fmul (ab ! 0) (ac ! 2)),
                   fsub (fmul (ab ! 0) (ac ! 1)) (fmul (ab ! 1) (ac ! 0))]
      in fsum (map2 fmul cross cross))"

definition vertex :: "accessor \<Rightarrow> int \<Rightarrow> pyfloat list result" where
  "vertex position i =
     res_bind (accessor_value position i) (\<lambda>v. seq_results (map to_float (take 3 v)))"

text \<open>The loop over the indices: the open triangle and whether a proper one was met.\<close>

definition triangle_step ::
  "accessor \<Rightarrow> int list \<times> bool \<Rightarrow> pyvalue list \<Rightarrow> (int list \<times> bool) result" where
  "triangle_step position st raw =
     (case raw of
        [] \<Rightarrow> Inl IndexError
      | r # _ \<Rightarrow>
          res_bind (int_of_component r) (\<lambda>index.
          if \<not> (0 \<le> index \<and> index < int (acc_count position)) then Inl ValueError
          else
            let triangle = fst st @ [index]
            in if length triangle \<noteq> 3 then Inr (triangle, snd st)
               else if \<not> distinct triangle then Inr ([], snd st)
               else
                 res_bind (vertex position (triangle ! 0)) (\<lambda>a.
                 res_bind (vertex position (triangle ! 1)) (\<lambda>b.
                 res_bind (vertex position (triangle ! 2)) (\<lambda>c.
                 Inr ([], snd st \<or> flt (tolerance 20) (cross_square a b c)))))))"

definition index_accessor_ok :: "accessor \<Rightarrow> bool" where
  "index_accessor_ok a \<longleftrightarrow>
     acc_component_type a \<in> {5121, 5123, 5125} \<and> acc_kind a = ''SCALAR'' \<and> 3 \<le> acc_count a
     \<and> acc_count a mod 3 = 0 \<and> \<not> acc_interleaved a \<and> \<not> acc_normalized a"

definition same_count :: "accessor list \<Rightarrow> nat \<Rightarrow> string \<times> pyvalue \<Rightarrow> unit result" where
  "same_count accessors n item =
     res_bind (index_of (snd item) (length accessors)) (\<lambda>i. ensure (acc_count (accessors ! i) = n))"

text \<open>The checks of the positions, of the indices, and both in the order of the source.\<close>

definition position_check :: "accessor \<Rightarrow> unit result" where
  "position_check position =
     res_bind (ensure (acc_component_type position = 5126 \<and> acc_kind position = ''VEC3''
       \<and> 3 \<le> acc_count position)) (\<lambda>_.
     res_bind (position_bounds position) (\<lambda>(minimum, maximum).
     case (acc_minimum position, acc_maximum position) of
       (Some lo, Some hi) \<Rightarrow>
         res_bind (ensure (bounds_match lo minimum)) (\<lambda>_.
         res_bind (ensure (bounds_match hi maximum)) (\<lambda>_.
         ensure (\<not> fle (largest_extent minimum maximum) (tolerance 8))))
     | _ \<Rightarrow> Inl ValueError))"

definition indices_check :: "pydict \<Rightarrow> accessor list \<Rightarrow> pydict \<Rightarrow> accessor \<Rightarrow> unit result" where
  "indices_check primitive accessors attributes position =
     res_bind (index_of (dict_get primitive ''indices'') (length accessors)) (\<lambda>k.
     let indices = accessors ! k
     in res_bind (ensure (acc_target indices \<in> {None, Some 34963})) (\<lambda>_.
        res_bind (ensure (index_accessor_ok indices)) (\<lambda>_.
        res_bind (seq_results (map (same_count accessors (acc_count position)) attributes)) (\<lambda>_.
        res_bind (for_values indices [0..<acc_count indices] (triangle_step position) ([], False))
          (\<lambda>(triangle, nondegenerate). ensure nondegenerate)))))"

definition triangle_primitive :: "pydict \<Rightarrow> accessor list \<Rightarrow> (accessor \<times> pydict) result" where
  "triangle_primitive primitive accessors =
     res_bind (ensure (equals_int (dict_get_or primitive ''mode'' (PInt 4)) 4)) (\<lambda>_.
     res_bind (ensure (\<not> has_key primitive ''targets'')) (\<lambda>_.
     res_bind (object_of (dict_get primitive ''attributes'')) (\<lambda>attributes.
     res_bind (seq_results (map (check_attribute accessors) attributes)) (\<lambda>_.
     res_bind (index_of (dict_get attributes ''POSITION'') (length accessors)) (\<lambda>p.
     res_bind (position_check (accessors ! p)) (\<lambda>_.
     res_bind (indices_check primitive accessors attributes (accessors ! p)) (\<lambda>_.
     Inr (accessors ! p, attributes))))))))"

section \<open>Lemmas\<close>

lemma for_values_Inr:
  "for_values a is f s = Inr s' \<Longrightarrow> i \<in> set is \<Longrightarrow>
     \<exists>v u u'. accessor_value a (int i) = Inr v \<and> f u v = Inr u'"
  by (induction "is" arbitrary: s) auto

lemma for_values_invariant:
  assumes "\<And>u v u'. I u \<Longrightarrow> f u v = Inr u' \<Longrightarrow> I u'"
  shows "for_values a is f s = Inr s' \<Longrightarrow> I s \<Longrightarrow> I s'"
  using assms by (induction "is" arbitrary: s) auto

lemma triangle_step_index:
  "triangle_step position st raw = Inr st' \<Longrightarrow>
     \<exists>r rest i. raw = r # rest \<and> int_of_component r = Inr i \<and> 0 \<le> i \<and> i < int (acc_count position)"
  by (cases raw) (auto simp: triangle_step_def split: if_splits)

lemma finite_position:
  assumes "position_bounds position = Inr b" and "i < acc_count position"
  shows "\<exists>v. accessor_value position (int i) = Inr v \<and> any_result not_finite_component v = Inr False"
proof -
  obtain v u u' where "accessor_value position (int i) = Inr v" "extend_bounds u v = Inr u'"
    using for_values_Inr [OF assms(1) [unfolded position_bounds_def], of i] assms(2) by auto
  then show ?thesis by (auto simp: extend_bounds_def split: if_splits)
qed

lemma for_values_upt:
  assumes step: "\<And>i u v u'. i < n \<Longrightarrow> J i u \<Longrightarrow> accessor_value a (int i) = Inr v \<Longrightarrow> f u v = Inr u' \<Longrightarrow> J (Suc i) u'"
  shows "for_values a [k..<n] f s = Inr s' \<Longrightarrow> J k s \<Longrightarrow> k \<le> n \<Longrightarrow> J n s'"
proof (induction "n - k" arbitrary: k s)
  case 0
  then show ?case by simp
next
  case (Suc m)
  then have "k < n" by simp
  then have upt: "[k..<n] = k # [Suc k..<n]" by (rule upt_conv_Cons)
  with Suc.prems obtain v u where "accessor_value a (int k) = Inr v" "f s v = Inr u"
    "for_values a [Suc k..<n] f u = Inr s'" by auto
  moreover have "J (Suc k) u" using step [of k s v u] calculation Suc.prems(2) \<open>k < n\<close> by blast
  ultimately show ?case using Suc.hyps(1) [of "Suc k" u] Suc.hyps(2) \<open>k < n\<close> by simp
qed

text \<open>The vertex a triangle index names.\<close>

definition index_at :: "accessor \<Rightarrow> nat \<Rightarrow> int" where
  "index_at a i =
     (case accessor_value a (int i) of
        Inr (r # _) \<Rightarrow> (case int_of_component r of Inr x \<Rightarrow> x | Inl _ \<Rightarrow> 0)
      | _ \<Rightarrow> 0)"

text \<open>Three different vertices that span more than the tolerance.\<close>

definition proper_triangle :: "accessor \<Rightarrow> int \<Rightarrow> int \<Rightarrow> int \<Rightarrow> bool" where
  "proper_triangle position x y z \<longleftrightarrow>
     distinct [x, y, z]
     \<and> (\<exists>a b c. vertex position x = Inr a \<and> vertex position y = Inr b \<and> vertex position z = Inr c
          \<and> flt (tolerance 20) (cross_square a b c))"

definition triangles_so_far :: "accessor \<Rightarrow> accessor \<Rightarrow> nat \<Rightarrow> int list \<times> bool \<Rightarrow> bool" where
  "triangles_so_far position indices i st \<longleftrightarrow>
     fst st = map (index_at indices) [i - i mod 3..<i]
     \<and> (snd st \<longrightarrow> (\<exists>t. 3 * t + 2 < i \<and> proper_triangle position (index_at indices (3 * t))
          (index_at indices (3 * t + 1)) (index_at indices (3 * t + 2))))"

lemma upt_tail: "[Suc i - Suc i mod 3..<Suc i] = (if Suc i mod 3 = 0 then [] else [i - i mod 3..<i] @ [i])"
proof (cases "Suc i mod 3 = 0")
  case False
  then have "Suc i mod 3 = Suc (i mod 3)" by (simp add: mod_Suc split: if_splits)
  then show ?thesis using False by simp
qed simp

lemma triangle_step_progress:
  assumes so_far: "triangles_so_far position indices i st"
    and v: "accessor_value indices (int i) = Inr v" and step: "triangle_step position st v = Inr st'"
  shows "triangles_so_far position indices (Suc i) st'"
proof -
  obtain r rest x where r: "v = r # rest" "int_of_component r = Inr x"
    using triangle_step_index [OF step] by blast
  then have x: "index_at indices i = x" using v by (simp add: index_at_def)
  define t where "t = fst st @ [x]"
  have fst: "fst st = map (index_at indices) [i - i mod 3..<i]"
    using so_far by (simp add: triangles_so_far_def)
  have len: "length t = Suc (i mod 3)" by (simp add: t_def fst)
  have older: "\<exists>k. 3 * k + 2 < Suc i \<and> proper_triangle position (index_at indices (3 * k))
      (index_at indices (3 * k + 1)) (index_at indices (3 * k + 2))" if "snd st"
    using so_far that unfolding triangles_so_far_def by (meson less_SucI)
  show ?thesis
  proof (cases "length t = 3")
    case False
    then have "Suc i mod 3 \<noteq> 0" using len by (simp add: mod_Suc)
    moreover have "st' = (t, snd st)" using step False by (auto simp: triangle_step_def r t_def Let_def split: if_splits)
    ultimately show ?thesis unfolding triangles_so_far_def upt_tail
      using older by (auto simp: t_def fst x)
  next
    case True
    then have mod: "i mod 3 = 2" using len by simp
    then have full: "Suc i mod 3 = 0" by (simp add: mod_Suc)
    define k where "k = i div 3"
    have i: "i = 3 * k + 2" using mod div_mult_mod_eq [of i 3] by (simp add: k_def)
    have "[i - i mod 3..<i] = [3 * k, 3 * k + 1]" unfolding mod unfolding i by (simp add: upt_rec)
    then have t: "t = [index_at indices (3 * k), index_at indices (3 * k + 1), index_at indices (3 * k + 2)]"
      using x i by (simp add: t_def fst)
    have "fst st' = []" using step True
      by (auto simp: triangle_step_def r t_def [symmetric] Let_def split: if_splits)
    moreover have "snd st \<or> proper_triangle position (index_at indices (3 * k))
        (index_at indices (3 * k + 1)) (index_at indices (3 * k + 2))" if "snd st'"
      using step True that t
      by (auto simp: triangle_step_def r t_def [symmetric] Let_def proper_triangle_def split: if_splits)
    ultimately show ?thesis unfolding triangles_so_far_def upt_tail
      using older full i by auto
  qed
qed

lemma component_type_fmt:
  "map_of COMPONENT_TYPES t = Some (n, c) \<Longrightarrow> t \<in> {5121, 5123, 5125} \<Longrightarrow> c \<in> {CHR ''B'', CHR ''H'', CHR ''I''}"
  "map_of COMPONENT_TYPES 5126 = Some (n, c) \<Longrightarrow> c = CHR ''f''"
  by (auto simp: COMPONENT_TYPES_def)

lemma accessor_value_components:
  assumes "accessor_value a i = Inr v" "c \<in> set v"
  shows "\<exists>bs. c = unpack_component (acc_fmt a) bs"
  using assms by (auto simp: accessor_value_def unpack_components_def split: if_splits)

lemma unsigned_component:
  "f \<in> {CHR ''B'', CHR ''H'', CHR ''I''} \<Longrightarrow> \<exists>n. unpack_component f bs = PInt (int n)"
  by (auto simp: unpack_component_def)

lemma finite_float_component:
  "not_finite_component (unpack_component (CHR ''f'') bs) = Inr False \<Longrightarrow>
     \<exists>r. unpack_component (CHR ''f'') bs = PFloat (FFin r)"
  by (cases "float32 (le_nat bs)") (auto simp: not_finite_component_def unpack_component_def)

text \<open>An accepted primitive, taken apart.\<close>

lemma position_check_Inr:
  assumes "position_check position = Inr u"
  shows "acc_component_type position = 5126" "acc_kind position = ''VEC3''"
    "\<exists>b. position_bounds position = Inr b"
  using assms by (auto simp: position_check_def)

lemma indices_check_Inr:
  assumes "indices_check primitive accs attributes position = Inr u"
  shows "\<exists>indices \<in> set accs. index_accessor_ok indices
    \<and> (\<exists>t. for_values indices [0..<acc_count indices] (triangle_step position) ([], False) = Inr (t, True))"
    and "\<exists>us. seq_results (map (same_count accs (acc_count position)) attributes) = Inr us"
  using assms by (auto simp: indices_check_def Let_def intro: nth_mem)

lemma same_count_Inr:
  "same_count accs n item = Inr u \<Longrightarrow> \<exists>k < length accs. snd item = PInt (int k) \<and> acc_count (accs ! k) = n"
  by (auto simp: same_count_def)

lemma seq_results_all:
  assumes "seq_results (map f xs) = Inr ys" "x \<in> set xs"
  shows "\<exists>y. f x = Inr y"
proof -
  have "map f xs = map Inr ys" using assms(1) by (simp add: seq_results_Inr)
  then have "f x \<in> Inr ` set ys" using assms(2) by (metis image_eqI list.set_map)
  then show ?thesis by blast
qed

lemma index_values:
  assumes ok: "accessor_ok views blob indices" and views: "\<forall>v \<in> set views. view_start v + view_length v \<le> length blob"
    and idx: "index_accessor_ok indices" and i: "i < acc_count indices"
  shows "\<exists>n. accessor_value indices (int i) = Inr [PInt (int n)]"
proof -
  have "acc_component_count indices = 1"
    using ok idx by (simp add: accessor_ok_def index_accessor_ok_def COMPONENTS_def)
  then obtain c where c: "accessor_value indices (int i) = Inr [c]"
    using accessor_value_reads [OF ok views i] by (auto simp: length_Suc_conv)
  have "acc_fmt indices \<in> {CHR ''B'', CHR ''H'', CHR ''I''}"
    using ok idx component_type_fmt(1) unfolding accessor_ok_def index_accessor_ok_def by blast
  then show ?thesis using accessor_value_components [OF c, of c] unsigned_component c by force
qed

lemma vertex_values:
  assumes ok: "accessor_ok views blob position" and views: "\<forall>v \<in> set views. view_start v + view_length v \<le> length blob"
    and pos: "acc_component_type position = 5126" "acc_kind position = ''VEC3''" "position_bounds position = Inr b"
    and i: "i < acc_count position"
  shows "\<exists>a b c. accessor_value position (int i) = Inr [PFloat (FFin a), PFloat (FFin b), PFloat (FFin c)]"
proof -
  obtain v where v: "accessor_value position (int i) = Inr v" "any_result not_finite_component v = Inr False"
    using finite_position [OF pos(3) i] by blast
  have "acc_component_count position = 3" using ok pos by (simp add: accessor_ok_def COMPONENTS_def)
  then have "length v = 3" using accessor_value_reads [OF ok views i] v by auto
  moreover have fmt: "acc_fmt position = CHR ''f''"
    using ok pos component_type_fmt(2) by (auto simp: accessor_ok_def)
  moreover have "\<exists>r. c = PFloat (FFin r)" if "c \<in> set v" for c
    using accessor_value_components [OF v(1) that] finite_float_component v(2) that fmt
    by (auto simp: any_result_False)
  ultimately show ?thesis using v(1) by (auto simp: length_Suc_conv numeral_3_eq_3)
qed

section \<open>A sample file with one triangle\<close>

definition triangle_blob :: bytes where
  "triangle_blob = replicate 12 0 @ [0, 0, 0x80, 0x3F] @ replicate 12 0 @ [0, 0, 0x80, 0x3F, 0, 0, 0, 0] @ [0, 1, 2, 0]"

definition triangle_document :: pydict where
  "triangle_document =
     [(''buffers'', PList [PDict [(''byteLength'', PInt 39)]]),
      (''bufferViews'', PList [PDict [(''byteLength'', PInt 36)],
         PDict [(''byteOffset'', PInt 36), (''byteLength'', PInt 3)]]),
      (''accessors'', PList
        [PDict [(''bufferView'', PInt 0), (''componentType'', PInt 5126), (''type'', PStr ''VEC3''), (''count'', PInt 3),
           (''min'', PList [PInt 0, PInt 0, PInt 0]), (''max'', PList [PInt 1, PInt 1, PInt 0])],
         PDict [(''bufferView'', PInt 1), (''componentType'', PInt 5121), (''type'', PStr ''SCALAR''), (''count'', PInt 3)]])]"

definition triangle_positions :: accessor where
  "triangle_positions =
     \<lparr>acc_blob = triangle_blob, acc_start = 0, acc_stride = 12, acc_count = 3,
      acc_component_type = 5126, acc_kind = ''VEC3'', acc_component_size = 4,
      acc_component_count = 3, acc_fmt = CHR ''f'', acc_interleaved = False,
      acc_minimum = Some [FFin 0, FFin 0, FFin 0], acc_maximum = Some [FFin 1, FFin 1, FFin 0],
      acc_view_index = 0, acc_target = None, acc_normalized = False\<rparr>"

definition triangle_indices :: accessor where
  "triangle_indices =
     \<lparr>acc_blob = triangle_blob, acc_start = 36, acc_stride = 1, acc_count = 3,
      acc_component_type = 5121, acc_kind = ''SCALAR'', acc_component_size = 1,
      acc_component_count = 1, acc_fmt = CHR ''B'', acc_interleaved = False,
      acc_minimum = None, acc_maximum = None,
      acc_view_index = 1, acc_target = None, acc_normalized = False\<rparr>"

definition triangle_views :: "buffer_view list" where
  "triangle_views = [\<lparr>view_start = 0, view_length = 36, view_stride = None, view_target = None\<rparr>,
       \<lparr>view_start = 36, view_length = 3, view_stride = None, view_target = None\<rparr>]"

definition triangle_json :: pydict where
  "triangle_json = [(''attributes'', PDict [(''POSITION'', PInt 0)]), (''indices'', PInt 1)]"

text \<open>Positions and indices of the triangle with the corners \<open>(0, 0, 0)\<close>, \<open>(1, 0, 0)\<close> and \<open>(0, 1, 0)\<close>.\<close>

definition unit_positions :: "accessor \<Rightarrow> bool" where
  "unit_positions p \<longleftrightarrow>
     acc_component_type p = 5126 \<and> acc_kind p = ''VEC3'' \<and> acc_count p = 3
     \<and> acc_minimum p = Some [FFin 0, FFin 0, FFin 0] \<and> acc_maximum p = Some [FFin 1, FFin 1, FFin 0]
     \<and> accessor_value p 0 = Inr [PFloat (FFin 0), PFloat (FFin 0), PFloat (FFin 0)]
     \<and> accessor_value p 1 = Inr [PFloat (FFin 1), PFloat (FFin 0), PFloat (FFin 0)]
     \<and> accessor_value p 2 = Inr [PFloat (FFin 0), PFloat (FFin 1), PFloat (FFin 0)]"

definition unit_indices :: "accessor \<Rightarrow> bool" where
  "unit_indices q \<longleftrightarrow>
     index_accessor_ok q \<and> acc_target q = None \<and> acc_count q = 3
     \<and> accessor_value q 0 = Inr [PInt 0] \<and> accessor_value q 1 = Inr [PInt 1] \<and> accessor_value q 2 = Inr [PInt 2]"

lemma round64_zero: "round64 0 = FFin 0"
  by (simp add: round64_def)

lemma round64_one: "round64 1 = FFin 1"
  by code_simp

lemma unit_extent: "\<not> fle (FFin 1) (tolerance 8)"
  by code_simp

lemma unit_area: "flt (tolerance 20) (FFin 1)"
  by code_simp

lemma unit_cross:
  "cross_square [FFin 0, FFin 0, FFin 0] [FFin 1, FFin 0, FFin 0] [FFin 0, FFin 1, FFin 0] = FFin 1"
  by (simp add: cross_square_def fsub_def fsum_def fle_def feq_def round64_zero round64_one)

lemma upt_three: "[0..<3] = [0, 1, 2::nat]"
  by (simp add: upt_rec)

lemma unit_position_check:
  assumes "unit_positions p"
  shows "position_check p = Inr ()"
proof -
  have "position_bounds p = Inr ([FFin 0, FFin 0, FFin 0], [FFin 1, FFin 1, FFin 0])"
    using assms by (simp add: unit_positions_def position_bounds_def upt_three extend_bounds_def
        not_finite_component_def fmin_def fmax_def numeral_3_eq_3)
  then show ?thesis using assms unit_extent
    by (simp add: position_check_def unit_positions_def bounds_match_def isclose_def feq_def
        largest_extent_def fsub_def fmax_def round64_zero round64_one)
qed

lemma unit_triangle_loop:
  assumes "unit_positions p" "unit_indices q"
  shows "for_values q [0..<acc_count q] (triangle_step p) ([], False) = Inr ([], True)"
  using assms
  by (simp add: unit_positions_def unit_indices_def upt_three triangle_step_def vertex_def unit_cross unit_area)

lemma triangle_units: "unit_positions triangle_positions" "unit_indices triangle_indices"
  by code_simp+

lemma triangle_read:
  "read_accessors triangle_document triangle_blob = Inr ([triangle_positions, triangle_indices], triangle_views)"
  by code_simp

lemma unit_primitive_accepted:
  assumes "equals_int (dict_get_or d ''mode'' (PInt 4)) 4" "\<not> has_key d ''targets''"
    and "dict_get d ''attributes'' = PDict attributes"
    and "seq_results (map (check_attribute accs) attributes) = Inr us"
    and "dict_get attributes ''POSITION'' = PInt (int p)" "p < length accs" "unit_positions (accs ! p)"
    and "dict_get d ''indices'' = PInt (int q)" "q < length accs" "unit_indices (accs ! q)"
    and "seq_results (map (same_count accs 3) attributes) = Inr vs"
  shows "triangle_primitive d accs = Inr (accs ! p, attributes)"
proof -
  have q: "index_accessor_ok (accs ! q)" "acc_target (accs ! q) = None" "acc_count (accs ! p) = 3"
    using assms(7,10) by (simp_all add: unit_positions_def unit_indices_def)
  have "indices_check d accs attributes (accs ! p) = Inr ()"
    using assms(8,9,11) q unit_triangle_loop [OF assms(7,10)] by (simp add: indices_check_def)
  then show ?thesis
    using assms(1-6) unit_position_check [OF assms(7)] by (simp add: triangle_primitive_def)
qed

lemma triangle_accepted:
  "triangle_primitive triangle_json [triangle_positions, triangle_indices]
     = Inr (triangle_positions, [(''POSITION'', PInt 0)])"
proof -
  let ?accs = "[triangle_positions, triangle_indices]"
  have "seq_results (map (check_attribute ?accs) [(''POSITION'', PInt 0)]) = Inr [()]"
    "seq_results (map (same_count ?accs 3) [(''POSITION'', PInt 0)]) = Inr [()]" by code_simp+
  from unit_primitive_accepted [where p = 0 and q = 1, OF _ _ _ this(1) _ _ _ _ _ _ this(2), of triangle_json]
  show ?thesis using triangle_units
    by (simp add: triangle_json_def dict_get_or_def has_key_def equals_int_def)
qed

section \<open>Properties\<close>

text \<open>
  (C33) An accepted primitive can be drawn without leaving its buffers: there is an index accessor of
  the document whose count is a positive multiple of three, every index it holds is a number below
  the count of the positions, the position it names has three finite coordinates, every attribute
  has an accessor with as many elements as there are positions, and at least one of the triangles
  has three different corners that span more than the tolerance.
\<close>
theorem accepted_triangles_name_vertices:
  assumes "read_accessors document blob = Inr (accs, views)"
    and "triangle_primitive primitive accs = Inr (position, attributes)"
  shows "position \<in> set accs
    \<and> (\<exists>indices \<in> set accs. 3 \<le> acc_count indices \<and> acc_count indices mod 3 = 0
        \<and> (\<forall>i < acc_count indices. \<exists>x. accessor_value indices (int i) = Inr [PInt x]
            \<and> 0 \<le> x \<and> x < int (acc_count position)
            \<and> (\<exists>a b c. accessor_value position x = Inr [PFloat (FFin a), PFloat (FFin b), PFloat (FFin c)]))
        \<and> (\<exists>t. 3 * t + 2 < acc_count indices \<and> proper_triangle position (index_at indices (3 * t))
            (index_at indices (3 * t + 1)) (index_at indices (3 * t + 2))))
    \<and> (\<forall>item \<in> set attributes. \<exists>k < length accs. snd item = PInt (int k)
        \<and> acc_count (accs ! k) = acc_count position)"
proof -
  have ok: "\<forall>a \<in> set accs. accessor_ok views blob a"
    and views: "\<forall>v \<in> set views. view_start v + view_length v \<le> length blob"
    using read_accessors_Inr [OF assms(1)] by blast+
  from assms(2) have mem: "position \<in> set accs" and pos: "position_check position = Inr ()"
    and idx: "indices_check primitive accs attributes position = Inr ()"
    by (auto simp: triangle_primitive_def)
  obtain b where b: "position_bounds position = Inr b" using position_check_Inr(3) [OF pos] by blast
  obtain indices t where ind: "indices \<in> set accs" "index_accessor_ok indices"
    and loop: "for_values indices [0..<acc_count indices] (triangle_step position) ([], False) = Inr (t, True)"
    using indices_check_Inr(1) [OF idx] by blast
  have "\<exists>x. accessor_value indices (int i) = Inr [PInt x] \<and> 0 \<le> x \<and> x < int (acc_count position)
      \<and> (\<exists>a b c. accessor_value position x = Inr [PFloat (FFin a), PFloat (FFin b), PFloat (FFin c)])"
    if i: "i < acc_count indices" for i
  proof -
    obtain n where n: "accessor_value indices (int i) = Inr [PInt (int n)]"
      using index_values [OF ok [rule_format, OF ind(1)] views ind(2) i] by blast
    obtain u u' where "triangle_step position u [PInt (int n)] = Inr u'"
      using for_values_Inr [OF loop, of i] i n by auto
    then have "n < acc_count position" using triangle_step_index by fastforce
    then show ?thesis
      using vertex_values [OF ok [rule_format, OF mem] views position_check_Inr(1,2) [OF pos] b] n by auto
  qed
  moreover have "triangles_so_far position indices (acc_count indices) (t, True)"
  proof (rule for_values_upt [where J = "triangles_so_far position indices", OF _ loop])
    show "triangles_so_far position indices 0 ([], False)" by (simp add: triangles_so_far_def)
  qed (auto intro: triangle_step_progress)
  moreover have "\<exists>k < length accs. snd item = PInt (int k) \<and> acc_count (accs ! k) = acc_count position"
    if "item \<in> set attributes" for item
    using indices_check_Inr(2) [OF idx] seq_results_all [OF _ that] same_count_Inr by blast
  ultimately show ?thesis using mem ind
    by (auto simp: triangles_so_far_def index_accessor_ok_def)
qed

theorem accepted_triangles_name_vertices_witness:
  "read_accessors triangle_document triangle_blob = Inr ([triangle_positions, triangle_indices], triangle_views)
   \<and> triangle_primitive triangle_json [triangle_positions, triangle_indices]
       = Inr (triangle_positions, [(''POSITION'', PInt 0)])
   \<and> (\<exists>indices \<in> set [triangle_positions, triangle_indices]. 3 \<le> acc_count indices
        \<and> (\<exists>t. 3 * t + 2 < acc_count indices \<and> proper_triangle triangle_positions (index_at indices (3 * t))
            (index_at indices (3 * t + 1)) (index_at indices (3 * t + 2))))"
  using accepted_triangles_name_vertices [OF triangle_read triangle_accepted] triangle_read triangle_accepted
  by blast

end
