(* ===== verification/Glb_Images.thy ===== *)
theory Glb_Images
  imports Glb_Bytes "HOL-Library.Code_Target_Numeral"
begin

text \<open>
  The payload checks of embedded images (\<^verbatim>\<open>glb_validation/images.py\<close>): the PNG chunk walk with its
  CRC-32, the JPEG segment walk and the WebP chunk walk. A \<^verbatim>\<open>return False\<close> inside a loop is \<open>None\<close>;
  every index and \<^verbatim>\<open>unpack_from\<close> of the source is a read that may raise. The third-party and
  compression code is a parameter: \<open>inflate\<close> stands for \<^verbatim>\<open>zlib.decompressobj().decompress(idat, n)\<close>
  (\<open>None\<close> is \<^verbatim>\<open>zlib.error\<close>) and \<open>pil_verify\<close> for Pillow's \<^verbatim>\<open>Image.open(...).verify()\<close> (\<open>Inr False\<close> for
  the exceptions the source catches).
\<close>

unbundle bit_operations_syntax

section \<open>PNG\<close>

subsection \<open>CRC-32\<close>

primrec crc_bits :: "nat \<Rightarrow> 32 word \<Rightarrow> 32 word" where
  "crc_bits 0 c = c"
| "crc_bits (Suc n) c =
     crc_bits n (if bit c 0 then drop_bit 1 c XOR 0xEDB88320 else drop_bit 1 c)"

text \<open>\<^verbatim>\<open>zlib.crc32\<close>.\<close>

definition crc32 :: "bytes \<Rightarrow> nat" where
  "crc32 bs = unat (NOT (fold (\<lambda>b c. crc_bits 8 (c XOR ucast b)) bs (NOT 0)))"

subsection \<open>Chunks\<close>

definition PNG_SIGNATURE :: bytes where
  "PNG_SIGNATURE = [0x89, 0x50, 0x4E, 0x47, 0x0D, 0x0A, 0x1A, 0x0A]"

definition is_letter :: "byte \<Rightarrow> bool" where
  "is_letter b \<longleftrightarrow> (65 \<le> unat b \<and> unat b \<le> 90) \<or> (97 \<le> unat b \<and> unat b \<le> 122)"

definition known_critical :: "bytes list" where
  "known_critical = [bytes_of ''IHDR'', bytes_of ''PLTE'', bytes_of ''IDAT'', bytes_of ''IEND'']"

definition unknown_critical :: "nat \<Rightarrow> bytes \<Rightarrow> bool" where
  "unknown_critical k kind \<longleftrightarrow> k AND 0x20 = 0 \<and> kind \<notin> set known_critical"

function png_chunks ::
  "bytes \<Rightarrow> nat \<Rightarrow> (bytes \<times> bytes) list \<Rightarrow> ((bytes \<times> bytes) list \<times> nat) option result" where
  "png_chunks v offset chunks =
     (if offset < length v then
        (if offset + 12 > length v then Inr None
         else
           res_bind (unpack_be 4 v offset) (\<lambda>len.
           let kind = slice (offset + 4) (offset + 8) v
           in if length kind \<noteq> 4 \<or> \<not> list_all is_letter kind then Inr None
              else res_bind (byte_at kind 0) (\<lambda>k.
                if unknown_critical k kind then Inr None
                else if offset + 12 + len > length v then Inr None
                else
                  let payload = slice (offset + 8) (offset + 8 + len) v
                  in res_bind (unpack_be 4 v (offset + 8 + len)) (\<lambda>expected_crc.
                     if crc32 (kind @ payload) \<noteq> expected_crc then Inr None
                     else if kind = bytes_of ''IEND''
                     then Inr (Some (chunks @ [(kind, payload)], offset + 12 + len))
                     else png_chunks v (offset + 12 + len) (chunks @ [(kind, payload)])))))
      else Inr (Some (chunks, offset)))"
  by pat_completeness auto

termination
  by (relation "measure (\<lambda>(v, offset, chunks). length v - offset)") auto

declare png_chunks.simps [simp del]

text \<open>The conditions on the sequence of chunks.\<close>

definition idat_indices :: "bytes list \<Rightarrow> nat list" where
  "idat_indices kinds = filter (\<lambda>i. kinds ! i = bytes_of ''IDAT'') [0..<length kinds]"

definition index_in :: "bytes list \<Rightarrow> bytes \<Rightarrow> nat" where
  "index_in kinds k = length (takeWhile (\<lambda>x. x \<noteq> k) kinds)"

definition png_structure_ok :: "(bytes \<times> bytes) list \<Rightarrow> bool" where
  "png_structure_ok chunks \<longleftrightarrow>
     (let kinds = map fst chunks; idat = idat_indices kinds
      in length (snd (chunks ! 0)) = 13
         \<and> last chunks = (bytes_of ''IEND'', [])
         \<and> count_list kinds (bytes_of ''IHDR'') = 1
         \<and> count_list kinds (bytes_of ''IEND'') = 1
         \<and> count_list kinds (bytes_of ''PLTE'') \<le> 1
         \<and> idat \<noteq> []
         \<and> idat = [idat ! 0..<last idat + 1]
         \<and> (bytes_of ''PLTE'' \<in> set kinds \<longrightarrow> index_in kinds (bytes_of ''PLTE'') \<le> idat ! 0))"

record png_header =
  png_width :: nat
  png_height :: nat
  png_bit_depth :: nat
  png_color_type :: nat
  png_compression :: nat
  png_filtering :: nat
  png_interlace :: nat

text \<open>\<open>struct.unpack(">IIBBBBB", ihdr)\<close>.\<close>

definition unpack_ihdr :: "bytes \<Rightarrow> png_header result" where
  "unpack_ihdr v =
     (if length v = 13
      then Inr \<lparr>png_width = be_nat (slice 0 4 v), png_height = be_nat (slice 4 8 v),
             png_bit_depth = unat (v ! 8), png_color_type = unat (v ! 9),
             png_compression = unat (v ! 10), png_filtering = unat (v ! 11),
             png_interlace = unat (v ! 12)\<rparr>
      else Inl StructError)"

definition allowed_depths :: "(nat \<times> nat list) list" where
  "allowed_depths = [(0, [1, 2, 4, 8, 16]), (2, [8, 16]), (3, [1, 2, 4, 8]), (4, [8, 16]), (6, [8, 16])]"

definition channels :: "(nat \<times> nat) list" where
  "channels = [(0, 1), (2, 3), (3, 1), (4, 2), (6, 4)]"

definition png_header_ok :: "png_header \<Rightarrow> bool" where
  "png_header_ok h \<longleftrightarrow>
     png_width h \<noteq> 0 \<and> png_height h \<noteq> 0 \<and> png_width h \<le> 16384 \<and> png_height h \<le> 16384
     \<and> png_bit_depth h \<in> set (case map_of allowed_depths (png_color_type h) of None \<Rightarrow> [] | Some ds \<Rightarrow> ds)
     \<and> png_compression h = 0 \<and> png_filtering h = 0 \<and> png_interlace h = 0"

record inflated =
  inf_decoded :: bytes
  inf_eof :: bool
  inf_unused_data :: bytes
  inf_unconsumed_tail :: bytes

definition MAX_DECODED :: nat where "MAX_DECODED = 512 * 1024 * 1024"

text \<open>The bytes of a row and of the whole image once decompressed; an unknown colour type has no
  number of channels.\<close>

definition png_row_bytes :: "png_header \<Rightarrow> nat result" where
  "png_row_bytes h =
     (case map_of channels (png_color_type h) of
        None \<Rightarrow> Inl KeyError
      | Some n \<Rightarrow> Inr ((png_width h * n * png_bit_depth h + 7) div 8))"

definition valid_png :: "(bytes \<Rightarrow> nat \<Rightarrow> inflated option) \<Rightarrow> bytes \<Rightarrow> bool result" where
  "valid_png inflate v =
     (if take 8 v \<noteq> PNG_SIGNATURE then Inr False
      else res_bind (png_chunks v 8 []) (\<lambda>walked.
        case walked of
          None \<Rightarrow> Inr False
        | Some (chunks, offset) \<Rightarrow>
            if offset \<noteq> length v \<or> chunks = [] \<or> fst (chunks ! 0) \<noteq> bytes_of ''IHDR'' then Inr False
            else if \<not> png_structure_ok chunks then Inr False
            else res_bind (unpack_ihdr (snd (chunks ! 0))) (\<lambda>h.
              if \<not> png_header_ok h then Inr False
              else if png_color_type h = 3
                \<and> \<not> list_ex (\<lambda>(kind, payload). kind = bytes_of ''PLTE'' \<and> payload \<noteq> []) chunks
              then Inr False
              else
                let idat = concat (map snd (filter (\<lambda>(kind, payload). kind = bytes_of ''IDAT'') chunks))
                in if idat = [] then Inr False
                   else res_bind (png_row_bytes h) (\<lambda>row_bytes.
                     let decoded_bytes = (row_bytes + 1) * png_height h
                     in if decoded_bytes > MAX_DECODED then Inr False
                        else case inflate idat (decoded_bytes + 1) of
                          None \<Rightarrow> Inr False
                        | Some out \<Rightarrow>
                            if length (inf_decoded out) \<noteq> decoded_bytes \<or> \<not> inf_eof out
                              \<or> inf_unused_data out \<noteq> [] \<or> inf_unconsumed_tail out \<noteq> []
                            then Inr False
                            else res_map Not (any_result
                              (\<lambda>row. res_map (\<lambda>b. \<not> b \<le> 4) (byte_at (inf_decoded out) (row * (row_bytes + 1))))
                              [0..<png_height h])))))"

section \<open>JPEG\<close>

text \<open>\<open>range(a, b, k)\<close>.\<close>

definition range_step :: "nat \<Rightarrow> nat \<Rightarrow> nat \<Rightarrow> nat list" where
  "range_step a b k = map (\<lambda>i. a + k * i) [0..<(b - a + k - 1) div k]"

definition start_of_frame :: "nat list" where
  "start_of_frame =
     [0xC0, 0xC1, 0xC2, 0xC3, 0xC5, 0xC6, 0xC7, 0xC9, 0xCA, 0xCB, 0xCD, 0xCE, 0xCF]"

record jpeg =
  saw_frame :: bool
  saw_quantization :: bool
  saw_coding_table :: bool
  quantization_tables :: "nat list"
  dc_tables :: "nat list"
  ac_tables :: "nat list"
  frame_components :: "(nat \<times> nat) list"

text \<open>A set that grows by \<^verbatim>\<open>add\<close>, as a list without repetitions.\<close>

definition add_to :: "nat \<Rightarrow> nat list \<Rightarrow> nat list" where
  "add_to x xs = (if x \<in> set xs then xs else xs @ [x])"

function skip_fill :: "bytes \<Rightarrow> nat \<Rightarrow> nat" where
  "skip_fill v offset =
     (if offset < length v \<and> v ! offset = 0xFF then skip_fill v (offset + 1) else offset)"
  by pat_completeness auto

termination
  by (relation "measure (\<lambda>(v, offset). length v - offset)") auto

declare skip_fill.simps [simp del]

subsection \<open>Frame header\<close>

fun frame_loop :: "bytes \<Rightarrow> nat list \<Rightarrow> (nat \<times> nat) list \<Rightarrow> (nat \<times> nat) list option result" where
  "frame_loop v [] comps = Inr (Some comps)"
| "frame_loop v (pos # rest) comps =
     res_bind (byte_at v pos) (\<lambda>component.
     res_bind (byte_at v (pos + 1)) (\<lambda>sampling.
     res_bind (byte_at v (pos + 2)) (\<lambda>quantization.
     if component \<in> set (map fst comps)
        \<or> \<not> (1 \<le> sampling div 16 \<and> sampling div 16 \<le> 4)
        \<or> \<not> (1 \<le> sampling mod 16 \<and> sampling mod 16 \<le> 4) \<or> quantization > 3
     then Inr None
     else frame_loop v rest (comps @ [(component, quantization)]))))"

definition frame_segment :: "bytes \<Rightarrow> nat \<Rightarrow> nat \<Rightarrow> jpeg \<Rightarrow> jpeg option result" where
  "frame_segment v offset segment_length st =
     res_bind (if segment_length \<ge> 8 then byte_at v (offset + 7) else Inr 0) (\<lambda>component_count.
     if component_count \<notin> {1, 3, 4} \<or> segment_length \<noteq> 8 + 3 * component_count then Inr None
     else res_bind (byte_at v (offset + 2)) (\<lambda>precision.
       if precision \<notin> {8, 12} then Inr None
       else
         res_bind (unpack_be 2 v (offset + 3)) (\<lambda>height.
         res_bind (unpack_be 2 v (offset + 5)) (\<lambda>width.
         if height = 0 \<or> width = 0 then Inr None
         else res_map (map_option (\<lambda>comps. st\<lparr>frame_components := comps, saw_frame := True\<rparr>))
                (frame_loop v (range_step (offset + 8) (offset + segment_length) 3) [])))))"

subsection \<open>Quantization tables\<close>

function quantization_loop :: "bytes \<Rightarrow> nat \<Rightarrow> nat \<Rightarrow> nat list \<Rightarrow> nat list option result" where
  "quantization_loop v stop cursor tables =
     (if cursor < stop then
        res_bind (byte_at v cursor) (\<lambda>precision_and_id.
        let precision = precision_and_id div 16; table_id = precision_and_id mod 16;
            table_bytes = 64 * (precision + 1)
        in if precision \<notin> {0, 1} \<or> table_id > 3 \<or> cursor + 1 + table_bytes > stop then Inr None
           else
             let coefficients = slice (cursor + 1) (cursor + 1 + table_bytes) v; step = precision + 1
             in if list_ex (\<lambda>i. list_all (\<lambda>b. b = 0) (slice i (i + step) coefficients))
                     (range_step 0 table_bytes step)
                then Inr None
                else quantization_loop v stop (cursor + 1 + table_bytes) (add_to table_id tables))
      else if cursor \<noteq> stop then Inr None
      else Inr (Some tables))"
  by pat_completeness auto

termination
  by (relation "measure (\<lambda>(v, stop, cursor, tables). stop - cursor)") auto

declare quantization_loop.simps [simp del]

subsection \<open>Coding tables\<close>

text \<open>The code space left after each length: doubled, less the codes used.\<close>

fun codes_fit :: "int \<Rightarrow> bytes \<Rightarrow> bool" where
  "codes_fit available [] = True"
| "codes_fit available (n # ns) =
     (let left = available * 2 - int (unat n) in 0 \<le> left \<and> codes_fit left ns)"

function coding_loop ::
  "bytes \<Rightarrow> nat \<Rightarrow> nat \<Rightarrow> nat list \<times> nat list \<Rightarrow> (nat list \<times> nat list) option result" where
  "coding_loop v stop cursor tables =
     (if cursor < stop then
        (if cursor + 17 > stop then Inr None
         else res_bind (byte_at v cursor) (\<lambda>table_class_and_id.
           let counts = slice (cursor + 1) (cursor + 17) v;
               table_class = table_class_and_id div 16; table_id = table_class_and_id mod 16;
               symbol_count = sum_list (map unat counts)
           in if \<not> codes_fit 1 counts then Inr None
              else if table_class \<notin> {0, 1} \<or> table_id > 3 \<or> symbol_count = 0
                \<or> cursor + 17 + symbol_count > stop then Inr None
              else coding_loop v stop (cursor + 17 + symbol_count)
                (if table_class = 0 then (add_to table_id (fst tables), snd tables)
                 else (fst tables, add_to table_id (snd tables)))))
      else if cursor \<noteq> stop then Inr None
      else Inr (Some tables))"
  by pat_completeness auto

termination
  by (relation "measure (\<lambda>(v, stop, cursor, tables). stop - cursor)") auto

declare coding_loop.simps [simp del]

subsection \<open>Segments\<close>

text \<open>The segments that carry tables; every other marker is skipped.\<close>

definition jpeg_segment :: "bytes \<Rightarrow> nat \<Rightarrow> nat \<Rightarrow> nat \<Rightarrow> jpeg \<Rightarrow> jpeg option result" where
  "jpeg_segment v marker offset segment_length st =
     (if marker \<in> set start_of_frame then frame_segment v offset segment_length st
      else if marker = 0xDB then
        res_map (map_option (\<lambda>ts. st\<lparr>quantization_tables := ts, saw_quantization := True\<rparr>))
          (quantization_loop v (offset + segment_length) (offset + 2) (quantization_tables st))
      else if marker = 0xC4 then
        res_map (map_option (\<lambda>ts. st\<lparr>dc_tables := fst ts, ac_tables := snd ts, saw_coding_table := True\<rparr>))
          (coding_loop v (offset + segment_length) (offset + 2) (dc_tables st, ac_tables st))
      else Inr (Some st))"

text \<open>
  The scan header. The loop over its components runs before the component count is compared with
  the length of the segment.
\<close>

fun scan_loop :: "bytes \<Rightarrow> jpeg \<Rightarrow> nat list \<Rightarrow> nat list \<Rightarrow> bool \<Rightarrow> (nat list \<times> bool) result" where
  "scan_loop v st [] comps ok = Inr (comps, ok)"
| "scan_loop v st (pos # rest) comps ok =
     res_bind (byte_at v pos) (\<lambda>component.
     res_bind (byte_at v (pos + 1)) (\<lambda>tables.
     scan_loop v st rest (add_to component comps)
       (ok \<and> tables div 16 \<in> set (dc_tables st) \<and> tables mod 16 \<in> set (ac_tables st))))"

definition scan_segment :: "bytes \<Rightarrow> nat \<Rightarrow> nat \<Rightarrow> jpeg \<Rightarrow> bool result" where
  "scan_segment v offset segment_length st =
     res_bind (if segment_length \<ge> 3 then byte_at v (offset + 2) else Inr 0) (\<lambda>component_count.
     res_bind (scan_loop v st (range_step (offset + 3) (offset + 3 + 2 * component_count) 2) [] True)
       (\<lambda>(scan_components, referenced_tables_are_valid).
     let scan_start = offset + segment_length
     in Inr (saw_frame st \<and> saw_quantization st \<and> saw_coding_table st
          \<and> component_count \<in> {1, 3, 4}
          \<and> segment_length = 6 + 2 * component_count
          \<and> length scan_components = component_count
          \<and> set scan_components \<subseteq> fst ` set (frame_components st)
          \<and> snd ` set (frame_components st) \<subseteq> set (quantization_tables st)
          \<and> referenced_tables_are_valid
          \<and> scan_start < length v - 2
          \<and> slice scan_start (length v - 2) v \<noteq> []
          \<and> find_bytes v [0xFF, 0xD9] scan_start = Some (length v - 2))))"

lemma skip_fill_le: "offset \<le> length v \<Longrightarrow> offset \<le> skip_fill v offset \<and> skip_fill v offset \<le> length v"
proof (induction v offset rule: skip_fill.induct)
  case (1 v offset)
  then show ?case by (subst (1 2) skip_fill.simps) auto
qed

lemma skip_fill_moves: "offset < length v \<Longrightarrow> v ! offset = 0xFF \<Longrightarrow> offset < skip_fill v offset"
  using skip_fill_le [of "offset + 1" v] by (subst skip_fill.simps) auto

function jpeg_loop :: "bytes \<Rightarrow> nat \<Rightarrow> jpeg \<Rightarrow> bool result" where
  "jpeg_loop v offset st =
     (if offset < length v - 2 then
        (if v ! offset \<noteq> 0xFF then Inr False
         else
           let pos = skip_fill v offset
           in if pos \<ge> length v then Inr False
              else
                let marker = unat (v ! pos); offset' = pos + 1
                in if marker = 0x01 \<or> (0xD0 \<le> marker \<and> marker < 0xD8) then jpeg_loop v offset' st
                   else if marker \<in> {0x00, 0xD8, 0xD9} \<or> offset' + 2 > length v then Inr False
                   else res_bind (unpack_be 2 v offset') (\<lambda>segment_length.
                     if segment_length < 2 \<or> offset' + segment_length > length v then Inr False
                     else res_bind (jpeg_segment v marker offset' segment_length st) (\<lambda>seg.
                       case seg of
                         None \<Rightarrow> Inr False
                       | Some st' \<Rightarrow>
                           if marker = 0xDA then scan_segment v offset' segment_length st'
                           else jpeg_loop v (offset' + segment_length) st')))
      else Inr False)"
  by pat_completeness auto

termination
proof (relation "measure (\<lambda>(v, offset, st). length v - offset)", goal_cases)
  case 1
  then show ?case by simp
next
  case (2 v offset st pos marker offset')
  then have "offset < skip_fill v offset" by (intro skip_fill_moves) auto
  then show ?case using 2 by auto
next
  case (3 v offset st pos marker offset' segment_length seg st')
  then have "offset < skip_fill v offset" by (intro skip_fill_moves) auto
  then show ?case using 3 by auto
qed

declare jpeg_loop.simps [simp del]

definition empty_jpeg :: jpeg where
  "empty_jpeg = \<lparr>saw_frame = False, saw_quantization = False, saw_coding_table = False,
     quantization_tables = [], dc_tables = [], ac_tables = [], frame_components = []\<rparr>"

definition valid_jpeg :: "bytes \<Rightarrow> bool result" where
  "valid_jpeg v =
     (if length v < 12 \<or> take 2 v \<noteq> [0xFF, 0xD8] \<or> drop (length v - 2) v \<noteq> [0xFF, 0xD9]
      then Inr False
      else jpeg_loop v 2 empty_jpeg)"

section \<open>WebP\<close>

definition vp8_frame_ok :: "bytes \<Rightarrow> bool result" where
  "vp8_frame_ok payload =
     (let frame_tag = (if length payload \<ge> 3 then le_nat (take 3 payload) else 1)
      in if length payload \<le> 10 \<or> frame_tag mod 2 = 1 \<or> frame_tag div 32 = 0
           \<or> int (frame_tag div 32) > int (length payload) - 10
           \<or> slice 3 6 payload \<noteq> [0x9D, 0x01, 0x2A]
         then Inr False
         else
           res_bind (unpack_le 2 payload 6) (\<lambda>width.
           if width mod 0x4000 = 0 then Inr False
           else res_map (\<lambda>height. height mod 0x4000 \<noteq> 0) (unpack_le 2 payload 8)))"

definition vp8l_frame_ok :: "bytes \<Rightarrow> bool result" where
  "vp8l_frame_ok payload =
     (if length payload \<le> 5 then Inr False
      else res_bind (byte_at payload 0) (\<lambda>b.
        if b \<noteq> 0x2F then Inr False
        else res_map (\<lambda>packed. packed div 2 ^ 29 = 0) (unpack_le 4 payload 1)))"

function webp_loop :: "bytes \<Rightarrow> nat \<Rightarrow> nat \<Rightarrow> bool result" where
  "webp_loop v offset image_chunks =
     (if offset < length v then
        (if offset + 8 > length v then Inr False
         else
           let kind = slice offset (offset + 4) v
           in res_bind (unpack_le 4 v (offset + 4)) (\<lambda>len.
              let stop = offset + 8 + len; padded_end = stop + len mod 2
              in if stop > length v \<or> padded_end > length v
                    \<or> \<not> list_all (\<lambda>b. b = 0) (slice stop padded_end v) then Inr False
                 else
                   let payload = slice (offset + 8) stop v
                   in if kind = bytes_of ''VP8 '' then
                        res_bind (vp8_frame_ok payload) (\<lambda>ok.
                          if ok then webp_loop v padded_end (image_chunks + 1) else Inr False)
                      else if kind = bytes_of ''VP8L'' then
                        res_bind (vp8l_frame_ok payload) (\<lambda>ok.
                          if ok then webp_loop v padded_end (image_chunks + 1) else Inr False)
                      else webp_loop v padded_end image_chunks))
      else Inr (offset = length v \<and> image_chunks = 1))"
  by pat_completeness auto

termination
  by (relation "measure (\<lambda>(v, offset, image_chunks). length v - offset)") auto

declare webp_loop.simps [simp del]

definition valid_webp :: "bytes \<Rightarrow> bool result" where
  "valid_webp v =
     (if length v < 20 \<or> take 4 v \<noteq> bytes_of ''RIFF'' \<or> slice 8 12 v \<noteq> bytes_of ''WEBP'' then Inr False
      else res_bind (unpack_le 4 v 4) (\<lambda>n. if n + 8 \<noteq> length v then Inr False else webp_loop v 12 0))"

section \<open>Payloads\<close>

definition image_bytes ::
  "(bytes \<Rightarrow> nat \<Rightarrow> inflated option) \<Rightarrow> (bytes \<Rightarrow> bool result) \<Rightarrow> bytes \<Rightarrow> nat \<Rightarrow> nat \<Rightarrow> string \<Rightarrow>
   unit result" where
  "image_bytes inflate pil_verify blob start len mime_type =
     (let v = slice start (start + len) blob
      in res_bind
           (if mime_type = ''image/png'' then valid_png inflate v
            else if mime_type = ''image/jpeg'' then valid_jpeg v
            else if mime_type = ''image/webp'' then valid_webp v
            else Inr False) (\<lambda>ok.
         res_bind (if ok \<and> mime_type \<in> {''image/jpeg'', ''image/webp''} then pil_verify v else Inr ok)
           ensure))"

end
