(* ===== verification/Glb_Textures.thy ===== *)
theory Glb_Textures
  imports Glb_Accessors Glb_Images
begin

text \<open>
  Images, samplers, textures and materials (\<^verbatim>\<open>glb_validation/textures.py\<close>): \<^verbatim>\<open>_textures\<close>, \<^verbatim>\<open>_texture_index\<close>,
  \<^verbatim>\<open>_texture_source\<close> and \<^verbatim>\<open>_validate_materials\<close>.
\<close>

section \<open>Images\<close>

definition IMAGE_MIME_TYPES :: "string list" where
  "IMAGE_MIME_TYPES = [''image/jpeg'', ''image/png'', ''image/webp'']"

fun str_of :: "pyvalue \<Rightarrow> string" where
  "str_of (PStr s) = s"
| "str_of _ = []"

text \<open>The view and the type of an image whose declaration is accepted.\<close>

definition image_payload :: "pydict \<Rightarrow> nat \<Rightarrow> accessor list \<Rightarrow> pydict \<Rightarrow> (nat \<times> string) result" where
  "image_payload document view_count accessors img =
     res_bind (ensure (\<not> has_key img ''uri'')) (\<lambda>_.
     res_bind (index_of (dict_get img ''bufferView'') view_count) (\<lambda>view.
     res_bind (ensure (\<not> list_ex (\<lambda>a. acc_view_index a = view) accessors)) (\<lambda>_.
     res_bind (array_field document ''bufferViews'' True) (\<lambda>raw_views.
     res_bind (if view < length raw_views then object_of (raw_views ! view) else Inl IndexError) (\<lambda>raw_view.
     res_bind (ensure (dict_get raw_view ''byteStride'' = PNone \<and> dict_get raw_view ''target'' = PNone)) (\<lambda>_.
     res_bind (in_str_set (dict_get img ''mimeType'') IMAGE_MIME_TYPES) (\<lambda>known.
     res_bind (ensure known) (\<lambda>_.
     Inr (view, str_of (dict_get img ''mimeType''))))))))))"

section \<open>Samplers\<close>

definition sampler_values :: "(string \<times> int list) list" where
  "sampler_values =
     [(''magFilter'', [9728, 9729]), (''minFilter'', [9728, 9729, 9984, 9985, 9986, 9987]),
      (''wrapS'', [33071, 33648, 10497]), (''wrapT'', [33071, 33648, 10497])]"

definition check_sampler :: "pydict \<Rightarrow> unit result" where
  "check_sampler sampler =
     fold_result (\<lambda>(name, allowed) _.
       if has_key sampler name
       then res_bind (in_int_set (dict_get sampler name) allowed) ensure
       else Inr ()) sampler_values ()"

section \<open>Textures\<close>

text \<open>The sources of a texture: the core one and the one of \<^verbatim>\<open>EXT_texture_webp\<close>.\<close>

definition core_source :: "pydict list \<Rightarrow> pydict \<Rightarrow> nat option result" where
  "core_source images texture =
     (case dict_get texture ''source'' of
        PNone \<Rightarrow> Inr None
      | source \<Rightarrow>
          res_bind (index_of source (length images)) (\<lambda>i.
          res_bind (in_str_set (dict_get (images ! i) ''mimeType'') [''image/jpeg'', ''image/png'']) (\<lambda>ok.
          res_bind (ensure ok) (\<lambda>_. Inr (Some i)))))"

definition extension_source :: "pydict list \<Rightarrow> pydict \<Rightarrow> nat option result" where
  "extension_source images texture =
     (case dict_get texture ''extensions'' of
        PDict extension \<Rightarrow>
          if has_key extension ''EXT_texture_webp'' then
            (case dict_get extension ''EXT_texture_webp'' of
               PDict webp \<Rightarrow>
                 res_bind (index_of (dict_get webp ''source'') (length images)) (\<lambda>i.
                 res_bind (ensure (dict_get (images ! i) ''mimeType'' = PStr ''image/webp'')) (\<lambda>_.
                 Inr (Some i)))
             | _ \<Rightarrow> Inl ValueError)
          else Inr None
      | _ \<Rightarrow> Inr None)"

text \<open>Whether the texture uses WebP.\<close>

definition check_texture :: "pydict list \<Rightarrow> nat \<Rightarrow> pydict \<Rightarrow> bool result" where
  "check_texture images sampler_count texture =
     res_bind (core_source images texture) (\<lambda>core.
     res_bind (extension_source images texture) (\<lambda>ext.
     res_bind (ensure (core \<noteq> None \<or> ext \<noteq> None)) (\<lambda>_.
     res_bind (if has_key texture ''sampler''
               then res_map (\<lambda>_. ()) (index_of (dict_get texture ''sampler'') sampler_count)
               else Inr ()) (\<lambda>_.
     Inr (ext \<noteq> None)))))"

fun list_contains :: "pyvalue \<Rightarrow> string \<Rightarrow> bool" where
  "list_contains (PList xs) s = (PStr s \<in> set xs)"
| "list_contains _ s = False"

definition read_textures ::
  "(bytes \<Rightarrow> nat \<Rightarrow> inflated option) \<Rightarrow> (bytes \<Rightarrow> bool result) \<Rightarrow> pydict \<Rightarrow> bytes \<Rightarrow> buffer_view list \<Rightarrow>
   accessor list \<Rightarrow> (pydict list \<times> pydict list) result" where
  "read_textures inflate pil_verify document blob views accessors =
     res_bind (array_field document ''images'' False) (\<lambda>raw_images.
     res_bind (seq_results (map object_of raw_images)) (\<lambda>images.
     res_bind (seq_results (map (image_payload document (length views) accessors) images)) (\<lambda>payloads.
     res_bind (array_field document ''textures'' False) (\<lambda>raw_textures.
     res_bind (seq_results (map object_of raw_textures)) (\<lambda>textures.
     res_bind (array_field document ''samplers'' False) (\<lambda>raw_samplers.
     res_bind (seq_results (map object_of raw_samplers)) (\<lambda>samplers.
     res_bind (seq_results (map check_sampler samplers)) (\<lambda>_.
     res_bind (seq_results (map (check_texture images (length samplers)) textures)) (\<lambda>webp.
     res_bind (ensure (True \<in> set webp \<longrightarrow>
       list_contains (dict_get document ''extensionsUsed'') ''EXT_texture_webp''
       \<and> list_contains (dict_get document ''extensionsRequired'') ''EXT_texture_webp'')) (\<lambda>_.
     res_bind (seq_results (map (\<lambda>(view, mime_type).
       image_bytes inflate pil_verify blob (view_start (views ! view)) (view_length (views ! view)) mime_type)
       payloads)) (\<lambda>_.
     Inr (images, textures))))))))))))"

definition texture_index :: "pyvalue \<Rightarrow> nat \<Rightarrow> nat result" where
  "texture_index v texture_count =
     res_bind (object_of v) (\<lambda>info.
     res_bind (ensure (dict_get_or info ''texCoord'' (PInt 0) = PInt 0)) (\<lambda>_.
     index_of (dict_get info ''index'') texture_count))"

definition texture_source :: "pydict \<Rightarrow> nat \<Rightarrow> nat result" where
  "texture_source texture image_count =
     (let webp = (case dict_get texture ''extensions'' of
            PDict extension \<Rightarrow>
              (case dict_get extension ''EXT_texture_webp'' of
                 PDict w \<Rightarrow> dict_get w ''source'' | _ \<Rightarrow> PNone)
          | _ \<Rightarrow> PNone)
      in index_of (if webp = PNone then dict_get texture ''source'' else webp) image_count)"

section \<open>Materials\<close>

definition check_texture_slots :: "nat \<Rightarrow> pydict \<Rightarrow> string list \<Rightarrow> unit result" where
  "check_texture_slots texture_count d names =
     fold_result (\<lambda>name _.
       if has_key d name then res_map (\<lambda>_. ()) (texture_index (dict_get d name) texture_count)
       else Inr ()) names ()"

definition check_material :: "nat \<Rightarrow> pydict \<Rightarrow> unit result" where
  "check_material texture_count material =
     res_bind (case dict_get material ''pbrMetallicRoughness'' of
         PNone \<Rightarrow> Inr ()
       | v \<Rightarrow> res_bind (object_of v) (\<lambda>pbr.
           check_texture_slots texture_count pbr [''baseColorTexture'', ''metallicRoughnessTexture''])) (\<lambda>_.
     check_texture_slots texture_count material [''normalTexture'', ''occlusionTexture'', ''emissiveTexture''])"

definition validate_materials :: "pydict \<Rightarrow> nat \<Rightarrow> pydict list result" where
  "validate_materials document texture_count =
     res_bind (array_field document ''materials'' False) (\<lambda>raw.
     res_bind (seq_results (map object_of raw)) (\<lambda>materials.
     res_bind (seq_results (map (check_material texture_count) materials)) (\<lambda>_.
     Inr materials)))"

end
