(* ===== verification/Glb_Validation.thy ===== *)
theory Glb_Validation
  imports Glb_Scene_Properties Glb_Primitives Glb_Textures
begin

text \<open>
  The validator of a mesh artifact (\<^verbatim>\<open>glb_validation/validation.py\<close> \<^verbatim>\<open>validate_mesh_glb_bytes\<close>): the parts of
  the other theories in the order of the source, the rules on the use of buffer views, and the
  textured and skinned profiles. One loop of the source has no bound of its own, the climb from a
  joint to the skeleton; the model is the least fixed point, \<open>None\<close> where the loop never ends, so
  the result is a \<open>result option\<close>. The first theorem is that \<open>None\<close> is never the value.
\<close>

section \<open>Definitions\<close>

definition PROFILES :: "string list" where
  "PROFILES = [''geometry'', ''textured'', ''textured-pbr'', ''skinned'']"

text \<open>A step that may raise and may not end, and the next one.\<close>

definition and_then :: "'a result option \<Rightarrow> ('a \<Rightarrow> 'b result option) \<Rightarrow> 'b result option" where
  "and_then m k = (case m of None \<Rightarrow> None | Some (Inl e) \<Rightarrow> Some (Inl e) | Some (Inr x) \<Rightarrow> k x)"

fun each :: "('a \<Rightarrow> unit result option) \<Rightarrow> 'a list \<Rightarrow> unit result option" where
  "each f [] = Some (Inr ())"
| "each f (x # xs) = and_then (f x) (\<lambda>_. each f xs)"

subsection \<open>Primitives\<close>

text \<open>What the loop over the meshes collects; the sets are lists, newest first.\<close>

record mesh_scan =
  primitive_count :: nat
  index_accessors :: "nat list"
  attribute_accessors :: "nat list"
  skinned_primitives :: "(accessor \<times> pydict) list"

definition no_primitives :: mesh_scan where
  "no_primitives =
     \<lparr>primitive_count = 0, index_accessors = [], attribute_accessors = [], skinned_primitives = []\<rparr>"

definition textured_primitive ::
  "string \<Rightarrow> nat \<Rightarrow> pydict list \<Rightarrow> pydict list \<Rightarrow> accessor list \<Rightarrow> pydict \<Rightarrow> accessor \<Rightarrow> pydict \<Rightarrow> unit result" where
  "textured_primitive profile image_count textures materials accessors primitive position attributes =
     res_bind (index_of (dict_get attributes ''TEXCOORD_0'') (length accessors)) (\<lambda>u.
     let uv = accessors ! u
     in res_bind (ensure (acc_component_type uv = 5126 \<and> acc_kind uv = ''VEC2''
          \<and> acc_count uv = acc_count position)) (\<lambda>_.
        res_bind (finite_accessor uv) (\<lambda>_.
        res_bind (index_of (dict_get primitive ''material'') (length materials)) (\<lambda>m.
        res_bind (object_of (dict_get (materials ! m) ''pbrMetallicRoughness'')) (\<lambda>pbr.
        res_bind (texture_index (dict_get pbr ''baseColorTexture'') (length textures)) (\<lambda>base_texture.
        if profile \<noteq> ''textured-pbr'' then Inr ()
        else
          res_bind (texture_index (dict_get pbr ''metallicRoughnessTexture'') (length textures)) (\<lambda>metallic_texture.
          if base_texture = metallic_texture then Inl ValueError
          else
            res_bind (texture_source (textures ! base_texture) image_count) (\<lambda>base_image.
            res_bind (texture_source (textures ! metallic_texture) image_count) (\<lambda>metallic_image.
            ensure (base_image \<noteq> metallic_image))))))))))"

definition scan_primitive ::
  "string \<Rightarrow> nat \<Rightarrow> pydict list \<Rightarrow> pydict list \<Rightarrow> accessor list \<Rightarrow> pyvalue \<Rightarrow> mesh_scan \<Rightarrow> mesh_scan result" where
  "scan_primitive profile image_count textures materials accessors raw st =
     res_bind (object_of raw) (\<lambda>primitive.
     res_bind (if has_key primitive ''material''
               then res_map (\<lambda>_. ()) (index_of (dict_get primitive ''material'') (length materials))
               else Inr ()) (\<lambda>_.
     res_bind (triangle_primitive primitive accessors) (\<lambda>(position, attributes).
     res_bind (index_of (dict_get primitive ''indices'') (length accessors)) (\<lambda>k.
     res_bind (seq_results (map (\<lambda>(name, v). index_of v (length accessors)) attributes)) (\<lambda>attribute_indices.
     res_bind (if profile \<in> {''textured'', ''textured-pbr''}
               then textured_primitive profile image_count textures materials accessors primitive position attributes
               else Inr ()) (\<lambda>_.
     Inr \<lparr>primitive_count = primitive_count st + 1,
          index_accessors = k # index_accessors st,
          attribute_accessors = attribute_indices @ attribute_accessors st,
          skinned_primitives = skinned_primitives st
            @ (if profile = ''skinned'' then [(position, attributes)] else [])\<rparr>))))))"

definition scan_mesh ::
  "string \<Rightarrow> nat \<Rightarrow> pydict list \<Rightarrow> pydict list \<Rightarrow> accessor list \<Rightarrow> pydict \<Rightarrow> mesh_scan \<Rightarrow> mesh_scan result" where
  "scan_mesh profile image_count textures materials accessors mesh st =
     (if has_key mesh ''weights'' then Inl ValueError
      else case dict_get mesh ''primitives'' of
        PList primitives \<Rightarrow>
          if primitives = [] then Inl ValueError
          else fold_result (scan_primitive profile image_count textures materials accessors) primitives st
      | _ \<Rightarrow> Inl ValueError)"

subsection \<open>Buffer views\<close>

definition view_of :: "accessor list \<Rightarrow> nat \<Rightarrow> nat" where
  "view_of accessors i = acc_view_index (accessors ! i)"

definition shared_view_ok :: "accessor list \<Rightarrow> nat list \<Rightarrow> nat \<Rightarrow> bool" where
  "shared_view_ok accessors attributes view \<longleftrightarrow>
     (let sharing = remdups (filter (\<lambda>i. view_of accessors i = view) attributes)
      in \<not> (1 < length sharing \<and> \<not> list_all (\<lambda>i. acc_interleaved (accessors ! i)) sharing))"

definition check_views :: "accessor list \<Rightarrow> nat list \<Rightarrow> nat list \<Rightarrow> unit result" where
  "check_views accessors attributes indices =
     res_bind (ensure (list_all (\<lambda>i. acc_interleaved (accessors ! i) \<longrightarrow> i \<in> set attributes)
       [0..<length accessors])) (\<lambda>_.
     let attribute_views = map (view_of accessors) attributes;
         index_views = map (view_of accessors) indices
     in res_bind (ensure (set attribute_views \<inter> set index_views = {})) (\<lambda>_.
        ensure (list_all (shared_view_ok accessors attributes) attribute_views)))"

subsection \<open>The file without its skin\<close>

record scanned =
  sc_document :: pydict
  sc_blob :: bytes
  sc_accessors :: "accessor list"
  sc_images :: "pydict list"
  sc_textures :: "pydict list"
  sc_materials :: "pydict list"
  sc_meshes :: "pydict list"
  sc_skins :: "pydict list"
  sc_reachable_nodes :: "nat list"
  sc_scan :: mesh_scan

definition check_profile_images :: "string \<Rightarrow> nat \<Rightarrow> nat \<Rightarrow> unit result" where
  "check_profile_images profile image_count texture_count =
     res_bind (ensure (\<not> (profile \<in> {''textured'', ''textured-pbr''} \<and> image_count = 0))) (\<lambda>_.
     ensure (\<not> (profile = ''textured-pbr'' \<and> (image_count < 2 \<or> texture_count < 2))))"

definition scan_file ::
  "json_loader \<Rightarrow> (bytes \<Rightarrow> nat \<Rightarrow> inflated option) \<Rightarrow> (bytes \<Rightarrow> bool result) \<Rightarrow> libm \<Rightarrow> nat \<Rightarrow> string \<Rightarrow> bytes \<Rightarrow>
   scanned result" where
  "scan_file json_loads inflate pil_verify lm limit profile data =
     res_bind (ensure (profile \<in> set PROFILES)) (\<lambda>_.
     res_bind (parse_glb json_loads data) (\<lambda>(document, blob).
     res_bind (ensure (\<not> has_key document ''animations'' \<and> \<not> has_key document ''cameras'')) (\<lambda>_.
     res_bind (read_accessors document blob) (\<lambda>(accessors, views).
     res_bind (read_textures inflate pil_verify document blob views accessors) (\<lambda>(images, textures).
     res_bind (validate_materials document (length textures)) (\<lambda>materials.
     res_bind (array_field document ''meshes'' True) (\<lambda>raw_meshes.
     res_bind (seq_results (map object_of raw_meshes)) (\<lambda>meshes.
     res_bind (array_field document ''skins'' False) (\<lambda>raw_skins.
     res_bind (seq_results (map object_of raw_skins)) (\<lambda>skins.
     res_bind (reachable_meshes lm limit document (length meshes) (length skins)) (\<lambda>(reachable, reachable_nodes).
     res_bind (ensure (set reachable = set [0..<length meshes])) (\<lambda>_.
     res_bind (fold_result (scan_mesh profile (length images) textures materials accessors) meshes no_primitives) (\<lambda>scan.
     res_bind (check_views accessors (attribute_accessors scan) (index_accessors scan)) (\<lambda>_.
     res_bind (check_profile_images profile (length images) (length textures)) (\<lambda>_.
     Inr \<lparr>sc_document = document, sc_blob = blob, sc_accessors = accessors, sc_images = images,
          sc_textures = textures, sc_materials = materials, sc_meshes = meshes, sc_skins = skins,
          sc_reachable_nodes = reachable_nodes, sc_scan = scan\<rparr>)))))))))))))))"

subsection \<open>The skin\<close>

text \<open>
  The key of a value in a \<^verbatim>\<open>set\<close>: numbers that are equal (\<^verbatim>\<open>1\<close>, \<^verbatim>\<open>1.0\<close>, \<^verbatim>\<open>True\<close>) have one key. A document has
  no NaN.
\<close>

definition set_key :: "pyvalue \<Rightarrow> pyvalue" where
  "set_key v = (case number_of_value v of Some r \<Rightarrow> PFloat (FFin r) | None \<Rightarrow> v)"

definition joint_index :: "nat \<Rightarrow> nat list \<Rightarrow> pyvalue \<Rightarrow> nat result" where
  "joint_index node_count reachable_nodes joint =
     res_bind (index_of joint node_count) (\<lambda>i.
     res_bind (ensure (i \<in> set reachable_nodes)) (\<lambda>_. Inr i))"

definition skin_joints :: "nat \<Rightarrow> nat list \<Rightarrow> pydict \<Rightarrow> nat list result" where
  "skin_joints node_count reachable_nodes skin =
     (case dict_get skin ''joints'' of
        PList joints \<Rightarrow>
          if joints = [] then Inl ValueError
          else if \<not> list_all hashable joints then Inl TypeError
          else if \<not> distinct (map set_key joints) then Inl ValueError
          else seq_results (map (joint_index node_count reachable_nodes) joints)
      | _ \<Rightarrow> Inl ValueError)"

text \<open>The dictionary of the parents, the last assignment first.\<close>

definition parent_table :: "nat list list \<Rightarrow> (nat \<times> nat) list" where
  "parent_table children =
     rev (concat (map (\<lambda>(parent, cs). map (\<lambda>c. (c, parent)) cs) (enumerate 0 children)))"

partial_function (option) climb :: "(nat \<times> nat) list \<Rightarrow> nat \<Rightarrow> nat \<Rightarrow> nat option" where
  "climb parents skeleton cursor =
     (if cursor = skeleton then Some cursor
      else case map_of parents cursor of
        None \<Rightarrow> Some cursor
      | Some parent \<Rightarrow> climb parents skeleton parent)"

definition below_skeleton :: "(nat \<times> nat) list \<Rightarrow> nat \<Rightarrow> nat \<Rightarrow> unit result option" where
  "below_skeleton parents skeleton joint =
     (case climb parents skeleton joint of
        None \<Rightarrow> None
      | Some cursor \<Rightarrow> Some (ensure (cursor = skeleton)))"

definition check_skeleton :: "pydict list \<Rightarrow> pydict \<Rightarrow> nat list \<Rightarrow> unit result option" where
  "check_skeleton nodes skin joints =
     (if dict_get skin ''skeleton'' = PNone then Some (Inr ())
      else
        and_then (Some (index_of (dict_get skin ''skeleton'') (length nodes))) (\<lambda>skeleton.
        and_then (Some (ensure (skeleton \<in> set joints))) (\<lambda>_.
        and_then (Some (seq_results (map (\<lambda>node.
          index_list (dict_get_or node ''children'' (PList [])) (length nodes)) nodes))) (\<lambda>children.
        each (below_skeleton (parent_table children) skeleton) joints))))"

definition check_inverse :: "accessor list \<Rightarrow> nat set \<Rightarrow> pydict \<Rightarrow> nat \<Rightarrow> unit result" where
  "check_inverse accessors vertex_views skin joint_count =
     res_bind (index_of (dict_get skin ''inverseBindMatrices'') (length accessors)) (\<lambda>k.
     let inverse = accessors ! k
     in res_bind (ensure (acc_target inverse = None)) (\<lambda>_.
        res_bind (ensure (acc_view_index inverse \<notin> vertex_views)) (\<lambda>_.
        res_bind (ensure (acc_component_type inverse = 5126 \<and> acc_kind inverse = ''MAT4''
          \<and> acc_count inverse = joint_count)) (\<lambda>_.
        finite_accessor inverse))))"

definition check_skin ::
  "accessor list \<Rightarrow> nat set \<Rightarrow> pydict list \<Rightarrow> nat list \<Rightarrow> pydict \<Rightarrow> unit result option" where
  "check_skin accessors vertex_views nodes reachable_nodes skin =
     and_then (Some (skin_joints (length nodes) reachable_nodes skin)) (\<lambda>joints.
     and_then (check_skeleton nodes skin joints) (\<lambda>_.
     Some (check_inverse accessors vertex_views skin (length joints))))"

subsection \<open>Skinned vertices\<close>

definition unknown_joint :: "nat \<Rightarrow> pyvalue \<Rightarrow> bool result" where
  "unknown_joint joint_count v = res_map (\<lambda>i. int joint_count \<le> i) (int_of_component v)"

definition invalid_weight :: "pyvalue \<Rightarrow> bool result" where
  "invalid_weight v = res_map (\<lambda>f. \<not> isfinite f \<or> flt f (FFin 0)) (to_float v)"

definition check_skin_vertex :: "accessor \<Rightarrow> accessor \<Rightarrow> nat \<Rightarrow> nat \<Rightarrow> unit result" where
  "check_skin_vertex joints weights joint_count i =
     res_bind (accessor_value joints (int i)) (\<lambda>joint_value.
     res_bind (accessor_value weights (int i)) (\<lambda>weight_value.
     res_bind (any_result (unknown_joint joint_count) joint_value) (\<lambda>unknown.
     res_bind (ensure (\<not> unknown)) (\<lambda>_.
     res_bind (any_result invalid_weight weight_value) (\<lambda>invalid.
     res_bind (ensure (\<not> invalid)) (\<lambda>_.
     res_bind (seq_results (map to_float weight_value)) (\<lambda>ws.
     ensure (isclose (tolerance 9) (tolerance 3) (fsum ws) (FFin 1)))))))))"

definition check_skinned_primitive ::
  "accessor list \<Rightarrow> nat \<Rightarrow> accessor \<times> pydict \<Rightarrow> unit result" where
  "check_skinned_primitive accessors joint_count primitive =
     (let (position, attributes) = primitive in
     res_bind (index_of (dict_get attributes ''JOINTS_0'') (length accessors)) (\<lambda>j.
     res_bind (index_of (dict_get attributes ''WEIGHTS_0'') (length accessors)) (\<lambda>w.
     res_bind (index_of (dict_get attributes ''NORMAL'') (length accessors)) (\<lambda>n.
     let joints = accessors ! j; weights = accessors ! w; normals = accessors ! n
     in res_bind (ensure (acc_component_type joints \<in> {5121, 5123} \<and> acc_kind joints = ''VEC4''
          \<and> \<not> acc_normalized joints \<and> acc_component_type weights = 5126 \<and> acc_kind weights = ''VEC4''
          \<and> acc_component_type normals = 5126 \<and> acc_kind normals = ''VEC3''
          \<and> acc_count joints = acc_count position \<and> acc_count weights = acc_count position
          \<and> acc_count normals = acc_count position)) (\<lambda>_.
        res_bind (finite_accessor normals) (\<lambda>_.
        res_map (\<lambda>_. ()) (seq_results (map (check_skin_vertex joints weights joint_count)
          [0..<acc_count position]))))))))"

definition check_skinned :: "scanned \<Rightarrow> unit result option" where
  "check_skinned s =
     (let accessors = sc_accessors s; scan = sc_scan s;
          vertex_views = view_of accessors ` (set (attribute_accessors scan) \<union> set (index_accessors scan))
      in and_then (Some (ensure (length (sc_skins s) = 1))) (\<lambda>_.
         and_then (Some (res_bind (array_field (sc_document s) ''nodes'' True)
           (\<lambda>raw. seq_results (map object_of raw)))) (\<lambda>nodes.
         let mesh_nodes = filter (\<lambda>node. has_key node ''mesh'') nodes
         in and_then (Some (ensure (mesh_nodes \<noteq> []
              \<and> list_all (\<lambda>node. equals_int (dict_get node ''skin'') 0) mesh_nodes))) (\<lambda>_.
            and_then (each (check_skin accessors vertex_views nodes (sc_reachable_nodes s)) (sc_skins s)) (\<lambda>_.
            Some (case dict_get (sc_skins s ! 0) ''joints'' of
                PList first_joints \<Rightarrow>
                  res_map (\<lambda>_. ()) (seq_results (map (check_skinned_primitive accessors (length first_joints))
                    (skinned_primitives scan)))
              | _ \<Rightarrow> Inl AssertionError))))))"

subsection \<open>The validator\<close>

record mesh_report =
  rep_mesh_count :: nat
  rep_primitive_count :: nat
  rep_accessor_count :: nat
  rep_binary_bytes :: nat
  rep_material_count :: nat
  rep_texture_count :: nat
  rep_image_count :: nat
  rep_skin_count :: nat

definition mesh_report_of :: "scanned \<Rightarrow> mesh_report" where
  "mesh_report_of s =
     \<lparr>rep_mesh_count = length (sc_meshes s), rep_primitive_count = primitive_count (sc_scan s),
      rep_accessor_count = length (sc_accessors s), rep_binary_bytes = length (sc_blob s),
      rep_material_count = length (sc_materials s), rep_texture_count = length (sc_textures s),
      rep_image_count = length (sc_images s), rep_skin_count = length (sc_skins s)\<rparr>"

definition validate_mesh_glb_bytes ::
  "json_loader \<Rightarrow> (bytes \<Rightarrow> nat \<Rightarrow> inflated option) \<Rightarrow> (bytes \<Rightarrow> bool result) \<Rightarrow> libm \<Rightarrow> nat \<Rightarrow> string \<Rightarrow> bytes \<Rightarrow>
   mesh_report result option" where
  "validate_mesh_glb_bytes json_loads inflate pil_verify lm limit profile data =
     and_then (Some (scan_file json_loads inflate pil_verify lm limit profile data)) (\<lambda>s.
     and_then (if profile = ''skinned'' then check_skinned s else Some (Inr ())) (\<lambda>_.
     Some (Inr (mesh_report_of s))))"

end
