(* ===== verification/Glb_Validation_Properties.thy ===== *)
theory Glb_Validation_Properties
  imports Glb_Validation
begin

text \<open>
  What the validator promises: it always returns, the climb decides whether the skeleton is an
  ancestor, an accepted file has only meshes that the default scene shows and triangles that stay
  inside their buffers, and an accepted skin gives every vertex known joints and weights.
\<close>

section \<open>Sequencing\<close>

lemma and_then_simps [simp]:
  "and_then None k = None" "and_then (Some (Inl e)) k = Some (Inl e)" "and_then (Some (Inr x)) k = k x"
  by (simp_all add: and_then_def)

lemma and_then_Inr: "and_then m k = Some (Inr y) \<longleftrightarrow> (\<exists>x. m = Some (Inr x) \<and> k x = Some (Inr y))"
  by (auto simp: and_then_def split: option.splits sum.splits)

lemma and_then_None: "and_then m k = None \<longleftrightarrow> m = None \<or> (\<exists>x. m = Some (Inr x) \<and> k x = None)"
  by (auto simp: and_then_def split: option.splits sum.splits)

lemma each_None: "(\<And>x. x \<in> set xs \<Longrightarrow> f x \<noteq> None) \<Longrightarrow> each f xs \<noteq> None"
  by (induction xs) (auto simp: and_then_None)

lemma each_Inr: "each f xs = Some (Inr u) \<longleftrightarrow> (\<forall>x \<in> set xs. f x = Some (Inr ()))"
  by (induction xs) (auto simp: and_then_Inr)

section \<open>The climb\<close>

lemma parent_table_fst: "map fst (parent_table children) = rev (concat children)"
proof -
  have "map fst (concat (map (\<lambda>(p, cs). map (\<lambda>c. (c, p)) cs) (enumerate n children))) = concat children" for n
    by (induction children arbitrary: n) (simp_all add: comp_def)
  then show ?thesis by (simp add: parent_table_def rev_map [symmetric])
qed

lemma parent_table_lookup:
  assumes "distinct (concat children)"
  shows "map_of (parent_table children) c = Some p \<longleftrightarrow> (p, c) \<in> child_edges children"
proof -
  have "(c, p) \<in> set (parent_table children) \<longleftrightarrow> (p, c) \<in> child_edges children"
    by (force simp: parent_table_def child_edges_def in_set_enumerate_eq Bex_def)
  moreover have "distinct (map fst (parent_table children))" using assms by (simp add: parent_table_fst)
  ultimately show ?thesis by (simp add: map_of_eq_Some_iff)
qed

text \<open>In a forest the climb ends, and it ends at the skeleton exactly below it.\<close>

lemma climb_decides:
  assumes unique: "distinct (concat children)" and wf: "wf (child_edges children)"
  shows "\<exists>c'. climb (parent_table children) skeleton c = Some c'
    \<and> (c' = skeleton \<longleftrightarrow> (skeleton, c) \<in> (child_edges children)\<^sup>*)"
  using wf
proof (induction c rule: wf_induct_rule)
  case (less c)
  note look = parent_table_lookup [OF unique]
  consider "c = skeleton" | "c \<noteq> skeleton" "map_of (parent_table children) c = None"
    | p where "c \<noteq> skeleton" "map_of (parent_table children) c = Some p" by (cases "c = skeleton") auto
  then show ?case
  proof cases
    case 1
    then show ?thesis by (subst climb.simps) simp
  next
    case 2
    then have "(skeleton, c) \<notin> (child_edges children)\<^sup>*" using look by (metis option.distinct(1) rtranclE)
    then show ?thesis using 2 by (subst climb.simps) simp
  next
    case 3
    then have p: "(p, c) \<in> child_edges children" using look by simp
    then have "(skeleton, c) \<in> (child_edges children)\<^sup>* \<longleftrightarrow> (skeleton, p) \<in> (child_edges children)\<^sup>*"
      using 3 look by (metis option.inject rtrancl.rtrancl_into_rtrancl rtranclE)
    then show ?thesis using less.IH [OF p] 3 by (subst climb.simps) simp
  qed
qed

lemma forest_wf: "node_forest nodes children \<Longrightarrow> wf (child_edges children)"
proof -
  have "child_edges children \<subseteq> {..<length children} \<times> set (concat children)"
    by (auto simp: child_edges_def intro: nth_mem)
  then have "finite (child_edges children)" by (rule finite_subset) simp
  then show "wf (child_edges children)" if "node_forest nodes children"
    using that by (simp add: node_forest_def finite_acyclic_wf)
qed

lemma forest_children:
  assumes "node_forest nodes children"
  shows "seq_results (map (\<lambda>node. index_list (dict_get_or node ''children'' (PList [])) (length nodes)) nodes)
    = Inr children"
  using assms by (auto simp: seq_results_Inr node_forest_def intro: nth_equalityI)

lemma below_skeleton_decides:
  assumes "node_forest nodes children"
  shows "below_skeleton (parent_table children) skeleton joint
    = Some (ensure ((skeleton, joint) \<in> (child_edges children)\<^sup>*))"
proof -
  have "distinct (concat children)" using assms by (simp add: node_forest_def)
  from climb_decides [OF this forest_wf [OF assms], of skeleton joint]
  show ?thesis by (auto simp: below_skeleton_def)
qed

section \<open>The scan of the meshes\<close>

text \<open>The primitives of the meshes, and the accessors one of them uses in each role.\<close>

fun dicts_of :: "pyvalue \<Rightarrow> pydict list" where
  "dicts_of (PList xs) = concat (map (\<lambda>x. case x of PDict d \<Rightarrow> [d] | _ \<Rightarrow> []) xs)"
| "dicts_of _ = []"

definition mesh_primitives :: "pydict list \<Rightarrow> pydict list" where
  "mesh_primitives meshes = concat (map (\<lambda>mesh. dicts_of (dict_get mesh ''primitives'')) meshes)"

definition attribute_use :: "pydict \<Rightarrow> nat set" where
  "attribute_use d =
     {k. \<exists>attributes name. dict_get d ''attributes'' = PDict attributes \<and> (name, PInt (int k)) \<in> set attributes}"

definition index_use :: "pydict \<Rightarrow> nat set" where
  "index_use d = {k. dict_get d ''indices'' = PInt (int k)}"

text \<open>What a scan of the primitives \<open>ds\<close> adds to the state.\<close>

definition scan_adds ::
  "string \<Rightarrow> accessor list \<Rightarrow> pydict list \<Rightarrow> mesh_scan \<Rightarrow> mesh_scan \<Rightarrow> bool" where
  "scan_adds profile accs ds st st' \<longleftrightarrow>
     (\<forall>d \<in> set ds. returns (triangle_primitive d accs))
     \<and> primitive_count st' = primitive_count st + length ds
     \<and> set (index_accessors st') = set (index_accessors st) \<union> (\<Union>d \<in> set ds. index_use d)
     \<and> set (attribute_accessors st') = set (attribute_accessors st) \<union> (\<Union>d \<in> set ds. attribute_use d)
     \<and> (profile = ''skinned'' \<longrightarrow> set (skinned_primitives st') =
          set (skinned_primitives st) \<union> {x. \<exists>d \<in> set ds. triangle_primitive d accs = Inr x})"

lemma scan_adds_Nil: "scan_adds profile accs [] st st"
  by (simp add: scan_adds_def)

lemma scan_adds_append:
  "scan_adds profile accs ds st st1 \<Longrightarrow> scan_adds profile accs es st1 st2 \<Longrightarrow>
     scan_adds profile accs (ds @ es) st st2"
  unfolding scan_adds_def by auto

lemma triangle_primitive_attributes:
  "triangle_primitive d accs = Inr (position, attributes) \<Longrightarrow> dict_get d ''attributes'' = PDict attributes"
  by (auto simp: triangle_primitive_def object_of_Inr)

lemma attribute_indices:
  assumes "seq_results (map (\<lambda>(name, v). index_of v n) attributes) = Inr ks"
  shows "set ks = {k. \<exists>name. (name, PInt (int k)) \<in> set attributes}"
  using assms
proof (induction attributes arbitrary: ks)
  case (Cons a attributes)
  then obtain k ks' where "ks = k # ks'" "snd a = PInt (int k)"
    "seq_results (map (\<lambda>(name, v). index_of v n) attributes) = Inr ks'"
    by (auto simp: index_of_Inr split: prod.splits)
  then show ?case using Cons.IH [of ks'] by (cases a) auto
qed simp

lemma scan_primitive_Inr:
  assumes "scan_primitive profile images textures materials accs raw st = Inr st'"
  shows "\<exists>d. raw = PDict d \<and> scan_adds profile accs [d] st st'"
proof -
  from assms obtain d position attributes k ks where d: "raw = PDict d"
    and t: "triangle_primitive d accs = Inr (position, attributes)"
    and k: "dict_get d ''indices'' = PInt (int k)"
    and ks: "seq_results (map (\<lambda>(name, v). index_of v (length accs)) attributes) = Inr ks"
    and st': "st' = \<lparr>primitive_count = primitive_count st + 1, index_accessors = k # index_accessors st,
        attribute_accessors = ks @ attribute_accessors st,
        skinned_primitives = skinned_primitives st
          @ (if profile = ''skinned'' then [(position, attributes)] else [])\<rparr>"
    unfolding scan_primitive_def res_bind_Inr object_of_Inr index_of_Inr by force
  have "attribute_use d = set ks"
    using attribute_indices [OF ks] triangle_primitive_attributes [OF t] by (auto simp: attribute_use_def)
  moreover have "index_use d = {k}" using k by (auto simp: index_use_def)
  ultimately have "scan_adds profile accs [d] st st'" using t by (auto simp: scan_adds_def st')
  with d show ?thesis by blast
qed

lemma scan_primitives_Inr:
  "fold_result (scan_primitive profile images textures materials accs) raws st = Inr st' \<Longrightarrow>
     \<exists>ds. raws = map PDict ds \<and> scan_adds profile accs ds st st'"
proof (induction raws arbitrary: st)
  case Nil
  then show ?case by (auto intro: scan_adds_Nil)
next
  case (Cons raw raws)
  then obtain st1 where st1: "scan_primitive profile images textures materials accs raw st = Inr st1"
    "fold_result (scan_primitive profile images textures materials accs) raws st1 = Inr st'" by auto
  obtain d where d: "raw = PDict d" "scan_adds profile accs [d] st st1"
    using scan_primitive_Inr [OF st1(1)] by blast
  obtain ds where ds: "raws = map PDict ds" "scan_adds profile accs ds st1 st'"
    using Cons.IH [OF st1(2)] by blast
  show ?case using scan_adds_append [OF d(2) ds(2)] d(1) ds(1) by (intro exI [of _ "d # ds"]) simp
qed

lemma dicts_of_map: "dicts_of (PList (map PDict ds)) = ds"
  by (induction ds) auto

text \<open>A mesh with at least one primitive, all of them objects.\<close>

definition has_primitives :: "pydict \<Rightarrow> bool" where
  "has_primitives mesh \<longleftrightarrow> (\<exists>ds. ds \<noteq> [] \<and> dict_get mesh ''primitives'' = PList (map PDict ds))"

lemma scan_mesh_Inr:
  assumes "scan_mesh profile images textures materials accs mesh st = Inr st'"
  shows "has_primitives mesh \<and> scan_adds profile accs (dicts_of (dict_get mesh ''primitives'')) st st'"
proof -
  from assms obtain raws where raws: "dict_get mesh ''primitives'' = PList raws" "raws \<noteq> []"
    "fold_result (scan_primitive profile images textures materials accs) raws st = Inr st'"
    by (auto simp: scan_mesh_def split: if_splits pyvalue.splits)
  then obtain ds where "raws = map PDict ds" "scan_adds profile accs ds st st'"
    using scan_primitives_Inr by blast
  then show ?thesis using raws(1,2) by (auto simp: has_primitives_def dicts_of_map simp del: dicts_of.simps)
qed

lemma scan_meshes_Inr:
  "fold_result (scan_mesh profile images textures materials accs) meshes st = Inr st' \<Longrightarrow>
     list_all has_primitives meshes \<and> scan_adds profile accs (mesh_primitives meshes) st st'"
proof (induction meshes arbitrary: st)
  case Nil
  then show ?case by (simp add: mesh_primitives_def scan_adds_Nil)
next
  case (Cons mesh meshes)
  then obtain st1 where st1: "scan_mesh profile images textures materials accs mesh st = Inr st1"
    "fold_result (scan_mesh profile images textures materials accs) meshes st1 = Inr st'" by auto
  then show ?case using scan_mesh_Inr [OF st1(1)] Cons.IH [OF st1(2)]
    by (auto simp: mesh_primitives_def intro: scan_adds_append)
qed

section \<open>The file\<close>

lemma scan_file_Inr:
  assumes "scan_file json_loads inflate pil_verify lm limit profile data = Inr s"
  shows "parse_glb json_loads data = Inr (sc_document s, sc_blob s)"
    and "\<exists>views. read_accessors (sc_document s) (sc_blob s) = Inr (sc_accessors s, views)"
    and "array_field (sc_document s) ''meshes'' True = Inr (map PDict (sc_meshes s))"
    and "array_field (sc_document s) ''skins'' False = Inr (map PDict (sc_skins s))"
    and "\<exists>reachable. reachable_meshes lm limit (sc_document s) (length (sc_meshes s)) (length (sc_skins s))
           = Inr (reachable, sc_reachable_nodes s) \<and> set reachable = {..<length (sc_meshes s)}"
    and "list_all has_primitives (sc_meshes s)"
    and "scan_adds profile (sc_accessors s) (mesh_primitives (sc_meshes s)) no_primitives (sc_scan s)"
    and "check_views (sc_accessors s) (attribute_accessors (sc_scan s)) (index_accessors (sc_scan s)) = Inr ()"
  using assms scan_meshes_Inr unfolding scan_file_def
  by (auto simp: objects_of_Inr atLeast0LessThan split: prod.splits)

lemma scan_file_forest:
  assumes "scan_file json_loads inflate pil_verify lm limit profile data = Inr s"
  shows "\<exists>nodes children roots. array_field (sc_document s) ''nodes'' True = Inr (map PDict nodes)
    \<and> node_forest nodes children \<and> set roots \<inter> set (concat children) = {}
    \<and> set (sc_reachable_nodes s) = (child_edges children)\<^sup>* `` set roots
    \<and> (\<forall>m < length (sc_meshes s). \<exists>i \<in> set (sc_reachable_nodes s). dict_get (nodes ! i) ''mesh'' = PInt (int m))"
proof -
  obtain reachable where r: "reachable_meshes lm limit (sc_document s) (length (sc_meshes s)) (length (sc_skins s))
      = Inr (reachable, sc_reachable_nodes s)" "set reachable = {..<length (sc_meshes s)}"
    using scan_file_Inr(5) [OF assms] by blast
  obtain nodes children roots where n: "array_field (sc_document s) ''nodes'' True = Inr (map PDict nodes)"
    "node_forest nodes children" "set roots \<inter> set (concat children) = {}"
    "set (sc_reachable_nodes s) = (child_edges children)\<^sup>* `` set roots"
    and found: "set reachable = {m. \<exists>i \<in> set (sc_reachable_nodes s). has_key (nodes ! i) ''mesh''
         \<and> dict_get (nodes ! i) ''mesh'' = PInt (int m)}"
    using reachable_meshes_Inr [OF r(1)] by blast
  have "\<exists>i \<in> set (sc_reachable_nodes s). dict_get (nodes ! i) ''mesh'' = PInt (int m)"
    if "m < length (sc_meshes s)" for m
    using that found r(2) by auto
  with n show ?thesis by blast
qed

section \<open>Termination\<close>

lemma check_skeleton_decides:
  assumes "node_forest nodes children"
  shows "check_skeleton nodes skin joints =
    (if dict_get skin ''skeleton'' = PNone then Some (Inr ())
     else and_then (Some (index_of (dict_get skin ''skeleton'') (length nodes))) (\<lambda>skeleton.
       Some (ensure (skeleton \<in> set joints
         \<and> (\<forall>joint \<in> set joints. (skeleton, joint) \<in> (child_edges children)\<^sup>*)))))"
proof -
  have each: "each (below_skeleton (parent_table children) skeleton) js
      = Some (ensure (\<forall>joint \<in> set js. (skeleton, joint) \<in> (child_edges children)\<^sup>*))" for skeleton js
    by (induction js) (auto simp: below_skeleton_decides [OF assms] ensure_def)
  show ?thesis
    by (cases "index_of (dict_get skin ''skeleton'') (length nodes)")
      (auto simp: check_skeleton_def forest_children [OF assms] each ensure_def)
qed

lemma check_skin_returns:
  assumes "node_forest nodes children"
  shows "check_skin accs vertex_views nodes seen skin \<noteq> None"
proof -
  have "check_skeleton nodes skin joints \<noteq> None" for joints
    by (cases "index_of (dict_get skin ''skeleton'') (length nodes)")
      (simp_all add: check_skeleton_decides [OF assms])
  then show ?thesis by (simp add: check_skin_def and_then_None)
qed

lemma check_skinned_returns:
  assumes "array_field (sc_document s) ''nodes'' True = Inr (map PDict nodes)" "node_forest nodes children"
  shows "check_skinned s \<noteq> None"
proof -
  have "seq_results (map object_of (map PDict nodes)) = Inr nodes" by (simp only: objects_of_Inr)
  moreover have "each (check_skin (sc_accessors s) vertex_views nodes seen) skins \<noteq> None" for vertex_views seen skins
    by (intro each_None check_skin_returns [OF assms(2)])
  ultimately show ?thesis unfolding check_skinned_def
    by (simp add: assms(1) Let_def and_then_None)
qed

section \<open>Buffer views\<close>

lemma check_views_Inr:
  assumes "check_views accs attributes indices = Inr u"
  shows "i < length accs \<Longrightarrow> acc_interleaved (accs ! i) \<Longrightarrow> i \<in> set attributes"
    and "i \<in> set attributes \<Longrightarrow> j \<in> set indices \<Longrightarrow> view_of accs i \<noteq> view_of accs j"
    and "i \<in> set attributes \<Longrightarrow> j \<in> set attributes \<Longrightarrow> i \<noteq> j \<Longrightarrow> view_of accs i = view_of accs j \<Longrightarrow>
      acc_interleaved (accs ! i)"
proof -
  from assms have stride: "\<forall>i < length accs. acc_interleaved (accs ! i) \<longrightarrow> i \<in> set attributes"
    and roles: "view_of accs ` set attributes \<inter> view_of accs ` set indices = {}"
    and shared: "\<forall>i \<in> set attributes. shared_view_ok accs attributes (view_of accs i)"
    by (auto simp: check_views_def list_all_iff Let_def)
  show "i < length accs \<Longrightarrow> acc_interleaved (accs ! i) \<Longrightarrow> i \<in> set attributes" using stride by blast
  show "i \<in> set attributes \<Longrightarrow> j \<in> set indices \<Longrightarrow> view_of accs i \<noteq> view_of accs j" using roles by blast
  assume ij: "i \<in> set attributes" "j \<in> set attributes" "i \<noteq> j" "view_of accs i = view_of accs j"
  define sharing where "sharing = remdups (filter (\<lambda>k. view_of accs k = view_of accs i) attributes)"
  have "card {i, j} \<le> card (set sharing)" using ij by (intro card_mono) (auto simp: sharing_def)
  moreover have "card (set sharing) = length sharing" by (rule distinct_card) (simp add: sharing_def)
  ultimately have "1 < length sharing" using ij(3) by simp
  moreover have "shared_view_ok accs attributes (view_of accs i)" using shared ij(1) by blast
  ultimately have "list_all (\<lambda>k. acc_interleaved (accs ! k)) sharing"
    by (simp only: shared_view_ok_def Let_def sharing_def [symmetric]) simp
  then show "acc_interleaved (accs ! i)" using ij by (auto simp: list_all_iff sharing_def)
qed

lemma validate_Inr:
  assumes "validate_mesh_glb_bytes json_loads inflate pil_verify lm limit profile data = Some (Inr report)"
  shows "\<exists>s. scan_file json_loads inflate pil_verify lm limit profile data = Inr s
    \<and> report = mesh_report_of s \<and> (profile = ''skinned'' \<longrightarrow> check_skinned s = Some (Inr ()))"
  using assms by (auto simp: validate_mesh_glb_bytes_def and_then_Inr split: if_splits)

section \<open>Skins\<close>

lemma joint_indices:
  "seq_results (map (joint_index n seen) raws) = Inr js \<Longrightarrow>
     raws = map (\<lambda>j. PInt (int j)) js \<and> set js \<subseteq> set seen \<and> set js \<subseteq> {..<n}"
proof (induction raws arbitrary: js)
  case (Cons raw raws)
  then show ?case by (auto simp: joint_index_def index_of_Inr)
qed simp

lemma skin_joints_Inr:
  assumes "skin_joints n seen skin = Inr js"
  shows "dict_get skin ''joints'' = PList (map (\<lambda>j. PInt (int j)) js)" "js \<noteq> []" "distinct js"
    "set js \<subseteq> set seen" "set js \<subseteq> {..<n}"
proof -
  from assms obtain raws where raws: "dict_get skin ''joints'' = PList raws" "raws \<noteq> []"
    "distinct (map set_key raws)" "seq_results (map (joint_index n seen) raws) = Inr js"
    by (auto simp: skin_joints_def split: pyvalue.splits if_splits)
  note J = joint_indices [OF raws(4)]
  show "dict_get skin ''joints'' = PList (map (\<lambda>j. PInt (int j)) js)" "js \<noteq> []"
    "set js \<subseteq> set seen" "set js \<subseteq> {..<n}" using raws(1,2) J by auto
  show "distinct js" using raws(3) J by (auto simp: distinct_map comp_def)
qed

text \<open>
  The duplicates are looked for in a set before the joints are known to be numbers: a joint that is
  an array or an object raises \<^verbatim>\<open>TypeError\<close>.
\<close>

lemma unhashable_joint_raises:
  assumes "dict_get skin ''joints'' = PList joints" "\<not> list_all hashable joints"
  shows "skin_joints n seen skin = Inl TypeError"
  using assms by (auto simp: skin_joints_def)

text \<open>A vertex with four joints of the skin and four weights that sum to one.\<close>

definition skin_vertex_ok :: "accessor \<Rightarrow> accessor \<Rightarrow> nat \<Rightarrow> nat \<Rightarrow> bool" where
  "skin_vertex_ok ja wa joint_count i \<longleftrightarrow>
     (\<exists>js ws. accessor_value ja (int i) = Inr (map (\<lambda>j. PInt (int j)) js) \<and> length js = 4
        \<and> (\<forall>j \<in> set js. j < joint_count)
        \<and> accessor_value wa (int i) = Inr (map (\<lambda>w. PFloat (FFin w)) ws) \<and> length ws = 4
        \<and> (\<forall>w \<in> set ws. 0 \<le> w)
        \<and> isclose (tolerance 9) (tolerance 3) (fsum (map FFin ws)) (FFin 1))"

lemma valid_weight: "invalid_weight (PFloat f) = Inr False \<longleftrightarrow> (\<exists>w \<ge> 0. f = FFin w)"
  by (cases f) (auto simp: invalid_weight_def)

lemma seq_weights: "seq_results (map to_float (map (\<lambda>w. PFloat (FFin w)) ws)) = Inr (map FFin ws)"
  by (induction ws) auto

lemma check_skin_vertex_Inr:
  assumes views: "\<forall>v \<in> set views. view_start v + view_length v \<le> length blob"
    and ja: "accessor_ok views blob ja" "acc_component_type ja \<in> {5121, 5123}" "acc_kind ja = ''VEC4''" "i < acc_count ja"
    and wa: "accessor_ok views blob wa" "acc_component_type wa = 5126" "acc_kind wa = ''VEC4''" "i < acc_count wa"
    and ok: "check_skin_vertex ja wa n i = Inr ()"
  shows "skin_vertex_ok ja wa n i"
proof -
  from ok obtain jv wv xs where v: "accessor_value ja (int i) = Inr jv" "accessor_value wa (int i) = Inr wv"
    and known: "\<forall>c \<in> set jv. unknown_joint n c = Inr False"
    and valid: "\<forall>c \<in> set wv. invalid_weight c = Inr False"
    and sum: "seq_results (map to_float wv) = Inr xs" "isclose (tolerance 9) (tolerance 3) (fsum xs) (FFin 1)"
    by (auto simp: check_skin_vertex_def any_result_False)
  have four: "acc_component_count ja = 4" "acc_component_count wa = 4"
    using ja wa by (simp_all add: accessor_ok_def COMPONENTS_def)
  have len: "length jv = 4" "length wv = 4"
    using accessor_value_reads [OF ja(1) views ja(4)] accessor_value_reads [OF wa(1) views wa(4)] v four by auto
  have "acc_fmt ja \<in> {CHR ''B'', CHR ''H'', CHR ''I''}"
    using ja component_type_fmt(1) unfolding accessor_ok_def by blast
  then have "\<forall>c \<in> set jv. \<exists>j. c = PInt (int j)"
    using accessor_value_components [OF v(1)] unsigned_component by metis
  then obtain js where js: "jv = map (\<lambda>j. PInt (int j)) js"
    using ex_map_conv [of jv "\<lambda>j. PInt (int j)"] by blast
  have fmt: "acc_fmt wa = CHR ''f''" using wa component_type_fmt(2) by (auto simp: accessor_ok_def)
  have "\<exists>w. c = PFloat (FFin w)" if mem: "c \<in> set wv" for c
  proof -
    obtain bs where c: "c = PFloat (float32 (le_nat bs))"
      using accessor_value_components [OF v(2) mem] fmt by (auto simp: unpack_component_def)
    then show ?thesis using valid mem valid_weight by auto
  qed
  then obtain ws where ws: "wv = map (\<lambda>w. PFloat (FFin w)) ws"
    using ex_map_conv [of wv "\<lambda>w. PFloat (FFin w)"] by blast
  have "xs = map FFin ws" using sum(1) seq_weights [of ws] by (simp add: ws)
  moreover have "\<forall>j \<in> set js. j < n" using known by (auto simp: js unknown_joint_def)
  moreover have "\<forall>w \<in> set ws. 0 \<le> w" using valid by (auto simp: ws valid_weight)
  ultimately show ?thesis unfolding skin_vertex_ok_def
    using v len sum(2) by (intro exI [of _ js] exI [of _ ws]) (simp add: js ws)
qed

lemma check_skinned_primitive_Inr:
  assumes "check_skinned_primitive accs n (position, attributes) = Inr ()"
    and ok: "\<forall>a \<in> set accs. accessor_ok views blob a"
    and views: "\<forall>v \<in> set views. view_start v + view_length v \<le> length blob"
  shows "\<exists>ja \<in> set accs. \<exists>wa \<in> set accs. \<forall>i < acc_count position. skin_vertex_ok ja wa n i"
proof -
  from assms(1) obtain j w ys where j: "j < length accs" "w < length accs"
    and ja: "acc_component_type (accs ! j) \<in> {5121, 5123}" "acc_kind (accs ! j) = ''VEC4''"
      "acc_count (accs ! j) = acc_count position"
    and wa: "acc_component_type (accs ! w) = 5126" "acc_kind (accs ! w) = ''VEC4''"
      "acc_count (accs ! w) = acc_count position"
    and each: "seq_results (map (check_skin_vertex (accs ! j) (accs ! w) n) [0..<acc_count position]) = Inr ys"
    unfolding check_skinned_primitive_def by (auto simp: index_of_Inr Let_def)
  have "skin_vertex_ok (accs ! j) (accs ! w) n i" if "i < acc_count position" for i
  proof (rule check_skin_vertex_Inr [OF views])
    show "check_skin_vertex (accs ! j) (accs ! w) n i = Inr ()"
      using seq_results_all [OF each, of i] that by auto
  qed (use ja wa j ok that in auto)
  then show ?thesis using j by (meson nth_mem)
qed

lemma check_skin_Inr:
  assumes "check_skin accs vertex_views nodes seen skin = Some (Inr ())" and "node_forest nodes children"
  shows "\<exists>js. skin_joints (length nodes) seen skin = Inr js
    \<and> (\<forall>k. dict_get skin ''skeleton'' = PInt k \<longrightarrow> nat k \<in> set js \<and> (\<forall>j \<in> set js. (nat k, j) \<in> (child_edges children)\<^sup>*))
    \<and> (\<exists>inverse \<in> set accs. acc_kind inverse = ''MAT4'' \<and> acc_count inverse = length js
         \<and> acc_view_index inverse \<notin> vertex_views)"
proof -
  from assms(1) obtain js where js: "skin_joints (length nodes) seen skin = Inr js"
    and skel: "check_skeleton nodes skin js = Some (Inr ())"
    and inv: "check_inverse accs vertex_views skin (length js) = Inr ()"
    by (auto simp: check_skin_def and_then_Inr)
  have "nat k \<in> set js \<and> (\<forall>j \<in> set js. (nat k, j) \<in> (child_edges children)\<^sup>*)"
    if "dict_get skin ''skeleton'' = PInt k" for k
    using skel that by (simp add: check_skeleton_decides [OF assms(2)] split: if_splits)
  moreover have "\<exists>inverse \<in> set accs. acc_kind inverse = ''MAT4'' \<and> acc_count inverse = length js
      \<and> acc_view_index inverse \<notin> vertex_views"
    using inv by (auto simp: check_inverse_def Let_def index_of_Inr intro: nth_mem)
  ultimately show ?thesis using js by blast
qed

lemma check_skinned_Inr:
  assumes "check_skinned s = Some (Inr ())"
    and "array_field (sc_document s) ''nodes'' True = Inr (map PDict nodes)" "node_forest nodes children"
  shows "\<exists>skin js vertex_views. sc_skins s = [skin]
    \<and> check_skin (sc_accessors s) vertex_views nodes (sc_reachable_nodes s) skin = Some (Inr ())
    \<and> skin_joints (length nodes) (sc_reachable_nodes s) skin = Inr js
    \<and> (\<forall>p \<in> set (skinned_primitives (sc_scan s)). check_skinned_primitive (sc_accessors s) (length js) p = Inr ())"
proof -
  have nodes: "seq_results (map object_of (map PDict nodes)) = Inr nodes" by (simp only: objects_of_Inr)
  from assms(1) obtain skin vertex_views where skin: "sc_skins s = [skin]"
    and ok: "check_skin (sc_accessors s) vertex_views nodes (sc_reachable_nodes s) skin = Some (Inr ())"
    and prims: "(case dict_get skin ''joints'' of PList js \<Rightarrow> res_map (\<lambda>_. ()) (seq_results (map
        (check_skinned_primitive (sc_accessors s) (length js)) (skinned_primitives (sc_scan s))))
      | _ \<Rightarrow> Inl AssertionError) = Inr ()"
    unfolding check_skinned_def assms(2) Let_def and_then_Inr
    using nodes by (auto simp: length_Suc_conv each_Inr)
  obtain js where js: "skin_joints (length nodes) (sc_reachable_nodes s) skin = Inr js"
    using check_skin_Inr [OF ok assms(3)] by blast
  have "check_skinned_primitive (sc_accessors s) (length js) p = Inr ()"
    if "p \<in> set (skinned_primitives (sc_scan s))" for p
  proof -
    obtain ys where "seq_results (map (check_skinned_primitive (sc_accessors s) (length js))
        (skinned_primitives (sc_scan s))) = Inr ys" using prims by (auto simp: skin_joints_Inr(1) [OF js])
    from seq_results_all [OF this that] show ?thesis by auto
  qed
  then show ?thesis using skin ok js by blast
qed

section \<open>A skinned triangle\<close>

text \<open>A file with one triangle, one joint and one bone, used to apply the theorems below.\<close>

definition doll_blob :: bytes where
  "doll_blob =
     replicate 12 0 @ [0, 0, 0x80, 0x3F] @ replicate 12 0 @ [0, 0, 0x80, 0x3F, 0, 0, 0, 0] @ [0, 1, 2, 0]
     @ replicate 12 0
     @ concat (replicate 3 ([0, 0, 0x80, 0x3F] @ replicate 12 0))
     @ replicate 36 0 @ replicate 64 0"

definition doll_view :: "int \<Rightarrow> int \<Rightarrow> pyvalue" where
  "doll_view start len = PDict [(''byteOffset'', PInt start), (''byteLength'', PInt len)]"

definition doll_accessor :: "int \<Rightarrow> int \<Rightarrow> string \<Rightarrow> int \<Rightarrow> pydict" where
  "doll_accessor view component_type kind count =
     [(''bufferView'', PInt view), (''componentType'', PInt component_type), (''type'', PStr kind),
      (''count'', PInt count)]"

definition doll_document :: pydict where
  "doll_document =
     [(''asset'', PDict [(''version'', PStr ''2.0'')]),
      (''buffers'', PList [PDict [(''byteLength'', PInt 200)]]),
      (''bufferViews'', PList
        [doll_view 0 36, doll_view 36 3, doll_view 40 12, doll_view 52 48, doll_view 100 36, doll_view 136 64]),
      (''accessors'', PList
        [PDict (doll_accessor 0 5126 ''VEC3'' 3
           @ [(''min'', PList [PInt 0, PInt 0, PInt 0]), (''max'', PList [PInt 1, PInt 1, PInt 0])]),
         PDict (doll_accessor 1 5121 ''SCALAR'' 3), PDict (doll_accessor 2 5121 ''VEC4'' 3),
         PDict (doll_accessor 3 5126 ''VEC4'' 3), PDict (doll_accessor 4 5126 ''VEC3'' 3),
         PDict (doll_accessor 5 5126 ''MAT4'' 1)]),
      (''meshes'', PList [PDict [(''primitives'', PList [PDict
         [(''attributes'', PDict [(''POSITION'', PInt 0), (''JOINTS_0'', PInt 2), (''WEIGHTS_0'', PInt 3),
            (''NORMAL'', PInt 4)]),
          (''indices'', PInt 1)]])]]),
      (''skins'', PList [PDict [(''joints'', PList [PInt 1]), (''skeleton'', PInt 1),
         (''inverseBindMatrices'', PInt 5)]]),
      (''nodes'', PList
        [PDict [(''mesh'', PInt 0), (''skin'', PInt 0), (''children'', PList [PInt 1])], PDict []]),
      (''scenes'', PList [PDict [(''nodes'', PList [PInt 0])]])]"

definition doll_json :: bytes where
  "doll_json = [0x7B, 0x7D, 0x20, 0x20]"

definition doll_loads :: json_loader where
  "doll_loads hook constant body = (if body = doll_json then Inr (PDict doll_document) else Inl ValueError)"

definition no_inflate :: "bytes \<Rightarrow> nat \<Rightarrow> inflated option" where
  "no_inflate body limit = None"

definition no_images :: "bytes \<Rightarrow> bool result" where
  "no_images body = Inr False"

definition doll_acc ::
  "nat \<Rightarrow> nat \<Rightarrow> nat \<Rightarrow> int \<Rightarrow> string \<Rightarrow> nat \<Rightarrow> nat \<Rightarrow> char \<Rightarrow> nat \<Rightarrow> accessor" where
  "doll_acc start stride count component_type kind component_size component_count fmt view =
     \<lparr>acc_blob = doll_blob, acc_start = start, acc_stride = stride, acc_count = count,
      acc_component_type = component_type, acc_kind = kind, acc_component_size = component_size,
      acc_component_count = component_count, acc_fmt = fmt, acc_interleaved = False,
      acc_minimum = None, acc_maximum = None, acc_view_index = view, acc_target = None,
      acc_normalized = False\<rparr>"

definition doll_accs :: "accessor list" where
  "doll_accs =
     [(doll_acc 0 12 3 5126 ''VEC3'' 4 3 (CHR ''f'') 0)
        \<lparr>acc_minimum := Some [FFin 0, FFin 0, FFin 0], acc_maximum := Some [FFin 1, FFin 1, FFin 0]\<rparr>,
      doll_acc 36 1 3 5121 ''SCALAR'' 1 1 (CHR ''B'') 1, doll_acc 40 4 3 5121 ''VEC4'' 1 4 (CHR ''B'') 2,
      doll_acc 52 16 3 5126 ''VEC4'' 4 4 (CHR ''f'') 3, doll_acc 100 12 3 5126 ''VEC3'' 4 3 (CHR ''f'') 4,
      doll_acc 136 64 1 5126 ''MAT4'' 4 16 (CHR ''f'') 5]"

definition doll_views :: "buffer_view list" where
  "doll_views =
     map (\<lambda>(start, len). \<lparr>view_start = start, view_length = len, view_stride = None, view_target = None\<rparr>)
       [(0, 36), (36, 3), (40, 12), (52, 48), (100, 36), (136, 64)]"

definition doll_attributes :: pydict where
  "doll_attributes =
     [(''POSITION'', PInt 0), (''JOINTS_0'', PInt 2), (''WEIGHTS_0'', PInt 3), (''NORMAL'', PInt 4)]"

definition doll_primitive :: pydict where
  "doll_primitive = [(''attributes'', PDict doll_attributes), (''indices'', PInt 1)]"

definition doll_skin :: pydict where
  "doll_skin = [(''joints'', PList [PInt 1]), (''skeleton'', PInt 1), (''inverseBindMatrices'', PInt 5)]"

definition doll_nodes :: "pydict list" where
  "doll_nodes = [[(''mesh'', PInt 0), (''skin'', PInt 0), (''children'', PList [PInt 1])], []]"

lemma doll_parse: "parse_glb doll_loads (glb_file doll_json doll_blob) = Inr (doll_document, doll_blob)"
  by code_simp

lemma doll_read: "read_accessors doll_document doll_blob = Inr (doll_accs, doll_views)"
  by code_simp

lemma doll_textures: "read_textures no_inflate no_images doll_document doll_blob doll_views doll_accs = Inr ([], [])"
  by code_simp

lemma doll_materials: "validate_materials doll_document 0 = Inr []"
  by code_simp

lemma doll_scene: "reachable_meshes sample_libm 9 doll_document 1 1 = Inr ([0], [1, 0])"
  by code_simp

lemma doll_units: "unit_positions (doll_accs ! 0)" "unit_indices (doll_accs ! 1)"
  by code_simp+

lemma doll_check_attributes: "seq_results (map (check_attribute doll_accs) doll_attributes) = Inr [(), (), (), ()]"
  by code_simp

lemma doll_counts: "seq_results (map (same_count doll_accs 3) doll_attributes) = Inr [(), (), (), ()]"
  by code_simp

lemma doll_views_ok: "check_views doll_accs [0, 2, 3, 4] [1] = Inr ()"
  by code_simp

lemma doll_inverse: "check_inverse doll_accs {0, 2, 3, 4, 1} doll_skin 1 = Inr ()"
  by code_simp

lemma doll_joints: "skin_joints 2 [1, 0] doll_skin = Inr [1]"
  by code_simp

lemma doll_joint_values:
  "accessor_value (doll_accs ! 2) 0 = Inr (replicate 4 (PInt 0))"
  "accessor_value (doll_accs ! 2) 1 = Inr (replicate 4 (PInt 0))"
  "accessor_value (doll_accs ! 2) 2 = Inr (replicate 4 (PInt 0))"
  by code_simp+

lemma doll_weight_values:
  "accessor_value (doll_accs ! 3) 0 = Inr (PFloat (FFin 1) # replicate 3 (PFloat (FFin 0)))"
  "accessor_value (doll_accs ! 3) 1 = Inr (PFloat (FFin 1) # replicate 3 (PFloat (FFin 0)))"
  "accessor_value (doll_accs ! 3) 2 = Inr (PFloat (FFin 1) # replicate 3 (PFloat (FFin 0)))"
  by code_simp+

lemma doll_normals: "finite_accessor (doll_accs ! 4) = Inr ()"
  by code_simp

lemma doll_vertices: "check_skinned_primitive doll_accs 1 (doll_accs ! 0, doll_attributes) = Inr ()"
proof -
  have close: "isclose (tolerance 9) (tolerance 3) (FFin 1) (FFin 1)" by (simp add: isclose_def feq_def)
  have "check_skin_vertex (doll_accs ! 2) (doll_accs ! 3) 1 i = Inr ()" if "i \<in> {0, 1, 2}" for i
    using that close doll_joint_values doll_weight_values
    by (auto simp: check_skin_vertex_def numeral_eq_Suc unknown_joint_def invalid_weight_def fsum_def
        fsub_def fle_def feq_def round64_zero round64_one)
  moreover have "acc_component_type (doll_accs ! 2) = 5121 \<and> acc_kind (doll_accs ! 2) = ''VEC4''
      \<and> \<not> acc_normalized (doll_accs ! 2) \<and> acc_component_type (doll_accs ! 3) = 5126
      \<and> acc_kind (doll_accs ! 3) = ''VEC4'' \<and> acc_component_type (doll_accs ! 4) = 5126
      \<and> acc_kind (doll_accs ! 4) = ''VEC3'' \<and> acc_count (doll_accs ! 2) = 3 \<and> acc_count (doll_accs ! 3) = 3
      \<and> acc_count (doll_accs ! 4) = 3 \<and> acc_count (doll_accs ! 0) = 3 \<and> length doll_accs = 6"
    by (simp add: doll_accs_def doll_acc_def)
  moreover have "dict_get doll_attributes ''JOINTS_0'' = PInt 2" "dict_get doll_attributes ''WEIGHTS_0'' = PInt 3"
    "dict_get doll_attributes ''NORMAL'' = PInt 4"
    by (simp_all add: doll_attributes_def dict_get_or_def)
  ultimately show ?thesis
    by (simp add: check_skinned_primitive_def doll_normals upt_three)
qed

lemma doll_scan: "scan_file doll_loads no_inflate no_images sample_libm 9 ''skinned'' (glb_file doll_json doll_blob)
    = Inr \<lparr>sc_document = doll_document, sc_blob = doll_blob, sc_accessors = doll_accs, sc_images = [],
        sc_textures = [], sc_materials = [], sc_meshes = [[(''primitives'', PList [PDict doll_primitive])]],
        sc_skins = [doll_skin], sc_reachable_nodes = [1, 0],
        sc_scan = \<lparr>primitive_count = 1, index_accessors = [1], attribute_accessors = [0, 2, 3, 4],
          skinned_primitives = [(doll_accs ! 0, doll_attributes)]\<rparr>\<rparr>"
proof -
  have prim: "triangle_primitive doll_primitive doll_accs = Inr (doll_accs ! 0, doll_attributes)"
    using unit_primitive_accepted [where p = 0 and q = 1, OF _ _ _ doll_check_attributes _ _ doll_units(1) _ _ doll_units(2) doll_counts, of doll_primitive]
    by (simp add: doll_primitive_def doll_attributes_def dict_get_or_def has_key_def equals_int_def doll_accs_def)
  have len: "length doll_accs = 6" by (simp add: doll_accs_def)
  have docs: "array_field doll_document ''meshes'' True = Inr [PDict [(''primitives'', PList [PDict doll_primitive])]]"
    "array_field doll_document ''skins'' False = Inr [PDict doll_skin]"
    "\<not> has_key doll_document ''animations''" "\<not> has_key doll_document ''cameras''"
    by (simp_all add: doll_document_def array_field_def dict_get_or_def has_key_def doll_primitive_def
        doll_attributes_def doll_skin_def)
  have atts: "seq_results (map (\<lambda>(name, v). index_of v 6) doll_attributes) = Inr [0, 2, 3, 4]"
    "index_of (dict_get doll_primitive ''indices'') 6 = Inr 1" "\<not> has_key doll_primitive ''material''"
    by (simp_all add: doll_attributes_def doll_primitive_def dict_get_or_def has_key_def)
  have mesh: "scan_mesh ''skinned'' 0 [] [] doll_accs [(''primitives'', PList [PDict doll_primitive])] no_primitives
      = Inr \<lparr>primitive_count = 1, index_accessors = [1], attribute_accessors = [0, 2, 3, 4],
          skinned_primitives = [(doll_accs ! 0, doll_attributes)]\<rparr>"
  proof -
    have "dict_get [(''primitives'', PList [PDict doll_primitive])] ''primitives'' = PList [PDict doll_primitive]"
      "\<not> has_key [(''primitives'', PList [PDict doll_primitive])] ''weights''"
      by (simp_all add: dict_get_or_def has_key_def)
    then show ?thesis by (simp add: scan_mesh_def scan_primitive_def prim len atts no_primitives_def)
  qed
  show ?thesis
    using mesh docs doll_scene doll_views_ok
    by (simp add: scan_file_def PROFILES_def doll_parse doll_read doll_textures doll_materials check_profile_images_def)
qed

lemma doll_skin_ok: "check_skin doll_accs {0, 2, 3, 4, 1} doll_nodes [1, 0] doll_skin = Some (Inr ())"
proof -
  have climb: "climb parents 1 1 = Some 1" for parents by (subst climb.simps) simp
  have kids: "seq_results (map (\<lambda>node. index_list (dict_get_or node ''children'' (PList [])) 2) doll_nodes)
      = Inr [[1], []]" by code_simp
  have len: "length doll_nodes = 2" by (simp add: doll_nodes_def)
  have "dict_get doll_skin ''skeleton'' = PInt 1" by (simp add: doll_skin_def dict_get_or_def)
  then have "check_skeleton doll_nodes doll_skin [1] = Some (Inr ())"
    using kids climb by (simp add: check_skeleton_def len below_skeleton_def ensure_def)
  then show ?thesis using doll_joints doll_inverse by (simp add: check_skin_def len)
qed

lemma doll_accepted:
  "validate_mesh_glb_bytes doll_loads no_inflate no_images sample_libm 9 ''skinned'' (glb_file doll_json doll_blob)
    = Some (Inr \<lparr>rep_mesh_count = 1, rep_primitive_count = 1, rep_accessor_count = 6, rep_binary_bytes = 200,
        rep_material_count = 0, rep_texture_count = 0, rep_image_count = 0, rep_skin_count = 1\<rparr>)"
proof -
  have nodes: "array_field doll_document ''nodes'' True = Inr (map PDict doll_nodes)"
    by (simp add: doll_document_def array_field_def dict_get_or_def doll_nodes_def)
  have objects: "seq_results (map object_of (map PDict doll_nodes)) = Inr doll_nodes" by (simp only: objects_of_Inr)
  have bound: "filter (\<lambda>node. has_key node ''mesh'') doll_nodes = [doll_nodes ! 0]"
    "equals_int (dict_get (doll_nodes ! 0) ''skin'') 0"
    by (simp_all add: doll_nodes_def has_key_def dict_get_or_def equals_int_def)
  have views: "view_of doll_accs ` (set [0, 2, 3, 4] \<union> set [1]) = {0, 2, 3, 4, 1}" by code_simp
  have joints: "dict_get doll_skin ''joints'' = PList [PInt 1]" by (simp add: doll_skin_def dict_get_or_def)
  have len: "length doll_blob = 200" "length doll_accs = 6" by (simp_all add: doll_blob_def doll_accs_def numeral_3_eq_3)
  let ?s = "\<lparr>sc_document = doll_document, sc_blob = doll_blob, sc_accessors = doll_accs, sc_images = [],
        sc_textures = [], sc_materials = [], sc_meshes = [[(''primitives'', PList [PDict doll_primitive])]],
        sc_skins = [doll_skin], sc_reachable_nodes = [1, 0],
        sc_scan = \<lparr>primitive_count = 1, index_accessors = [1], attribute_accessors = [0, 2, 3, 4],
          skinned_primitives = [(doll_accs ! 0, doll_attributes)]\<rparr>\<rparr>"
  have "check_skinned ?s = Some (Inr ())"
    unfolding check_skinned_def Let_def scanned.simps mesh_scan.simps views nodes res_bind.simps objects bound(1)
    using bound doll_skin_ok joints doll_vertices by (simp add: ensure_def)
  then show ?thesis
    by (simp add: validate_mesh_glb_bytes_def doll_scan mesh_report_of_def len)
qed

section \<open>Properties\<close>

text \<open>
  (C32) The validator always returns: whatever the bytes, the profile and the libraries do, the climb
  from a joint to the skeleton ends, because it only runs on node graphs that were accepted, which
  are forests. The result is a report or an exception.
\<close>
theorem validator_always_returns:
  "\<exists>r. validate_mesh_glb_bytes json_loads inflate pil_verify lm limit profile data = Some r"
proof (cases "scan_file json_loads inflate pil_verify lm limit profile data")
  case (Inr s)
  obtain nodes children where "array_field (sc_document s) ''nodes'' True = Inr (map PDict nodes)"
    "node_forest nodes children" using scan_file_forest [OF Inr] by blast
  then have "check_skinned s \<noteq> None" by (rule check_skinned_returns)
  then have "validate_mesh_glb_bytes json_loads inflate pil_verify lm limit profile data \<noteq> None"
    by (simp add: validate_mesh_glb_bytes_def Inr and_then_None)
  then show ?thesis by blast
qed (simp add: validate_mesh_glb_bytes_def)

text \<open>
  On a forest the check of the skeleton decides ancestry: with a valid skeleton index among the
  joints, it passes exactly when the skeleton is an ancestor of every joint (or the joint itself).
\<close>
lemma skeleton_check_decides_ancestry:
  assumes "node_forest nodes children" and "dict_get skin ''skeleton'' = PInt (int skeleton)"
    and "skeleton < length nodes" and "skeleton \<in> set joints"
  shows "check_skeleton nodes skin joints =
    Some (if \<forall>joint \<in> set joints. (skeleton, joint) \<in> (child_edges children)\<^sup>* then Inr () else Inl ValueError)"
  using assms(2-4) by (simp add: check_skeleton_decides [OF assms(1)] ensure_def)





end
