(* ===== verification/Glb_Image_Properties.thy ===== *)
theory Glb_Image_Properties
  imports Glb_Images
begin

text \<open>
  What the payload checks of \<^verbatim>\<open>glb_validation/images.py\<close> guarantee: which of them can raise and where,
  and what an accepted PNG is made of.
\<close>

section \<open>The PNG walk\<close>

text \<open>The bytes of a chunk: length, kind, payload, CRC.\<close>

definition png_chunk :: "bytes \<times> bytes \<Rightarrow> bytes" where
  "png_chunk c = be_bytes 4 (length (snd c)) @ fst c @ snd c @ be_bytes 4 (crc32 (fst c @ snd c))"

lemma be_bytes_slice4: "length bs = 4 \<Longrightarrow> be_bytes 4 (be_nat bs) = bs"
  using be_bytes_be_nat [of bs] by simp

text \<open>One turn of the walk, its reads resolved.\<close>

definition png_len :: "bytes \<Rightarrow> nat \<Rightarrow> nat" where
  "png_len v offset = be_nat (slice offset (offset + 4) v)"

definition png_kind :: "bytes \<Rightarrow> nat \<Rightarrow> bytes" where
  "png_kind v offset = slice (offset + 4) (offset + 8) v"

definition png_payload :: "bytes \<Rightarrow> nat \<Rightarrow> bytes" where
  "png_payload v offset = slice (offset + 8) (offset + 8 + png_len v offset) v"

definition png_crc :: "bytes \<Rightarrow> nat \<Rightarrow> nat" where
  "png_crc v offset =
     be_nat (slice (offset + 8 + png_len v offset) (offset + 8 + png_len v offset + 4) v)"

definition png_turn_ok :: "bytes \<Rightarrow> nat \<Rightarrow> bool" where
  "png_turn_ok v offset \<longleftrightarrow>
     list_all is_letter (png_kind v offset)
     \<and> \<not> unknown_critical (unat (png_kind v offset ! 0)) (png_kind v offset)
     \<and> offset + 12 + png_len v offset \<le> length v
     \<and> crc32 (png_kind v offset @ png_payload v offset) = png_crc v offset"

lemma length_png_kind: "offset + 12 \<le> length v \<Longrightarrow> length (png_kind v offset) = 4"
  by (simp add: png_kind_def)

lemma png_chunks_turn:
  assumes "offset + 12 \<le> length v"
  shows "png_chunks v offset chunks =
    (if \<not> png_turn_ok v offset then Inr None
     else let c = (png_kind v offset, png_payload v offset) in
       if fst c = bytes_of ''IEND'' then Inr (Some (chunks @ [c], offset + 12 + png_len v offset))
       else png_chunks v (offset + 12 + png_len v offset) (chunks @ [c]))"
proof -
  have len: "unpack_be 4 v offset = Inr (png_len v offset)"
    using assms by (simp add: png_len_def)
  have first: "byte_at (png_kind v offset) 0 = Inr (unat (png_kind v offset ! 0))"
    using length_png_kind [OF assms] by simp
  have crc: "unpack_be 4 v (offset + 8 + png_len v offset) = Inr (png_crc v offset)"
    if "offset + 12 + png_len v offset \<le> length v"
    using that by (simp add: png_crc_def)
  have "\<not> offset + 12 > length v" "offset < length v" using assms by auto
  then show ?thesis
    using length_png_kind [OF assms] crc
    unfolding png_chunks.simps [of v offset chunks] png_turn_ok_def Let_def
      png_kind_def [symmetric] len res_bind.simps first png_payload_def [symmetric] fst_conv
    by (cases "list_all is_letter (png_kind v offset)";
        cases "unknown_critical (unat (png_kind v offset ! 0)) (png_kind v offset)";
        cases "offset + 12 + png_len v offset \<le> length v")
      (simp_all del: unpack_be_Inr split del: if_split)
qed

lemma png_chunks_stop:
  "\<not> offset + 12 \<le> length v \<Longrightarrow>
     png_chunks v offset chunks = (if offset < length v then Inr None else Inr (Some (chunks, offset)))"
  by (subst png_chunks.simps) simp

lemma png_walk_induct [case_names stop turn]:
  assumes "\<And>offset chunks. \<not> offset + 12 \<le> length v \<Longrightarrow> P offset chunks"
    and "\<And>offset chunks.
      \<lbrakk>offset + 12 \<le> length v;
       png_turn_ok v offset \<Longrightarrow>
         P (offset + 12 + png_len v offset) (chunks @ [(png_kind v offset, png_payload v offset)])\<rbrakk>
      \<Longrightarrow> P offset chunks"
  shows "P offset chunks"
proof (induction "length v - offset" arbitrary: offset chunks rule: less_induct)
  case (less offset chunks)
  show ?case
  proof (cases "offset + 12 \<le> length v")
    case True
    have "P (offset + 12 + png_len v offset) (chunks @ [(png_kind v offset, png_payload v offset)])"
      by (rule less) (use True in simp)
    then show ?thesis by (rule assms(2) [OF True])
  next
    case False
    then show ?thesis by (rule assms(1))
  qed
qed

lemma png_chunks_returns: "returns (png_chunks v offset chunks)"
proof (induction offset chunks rule: png_walk_induct [of v])
  case (stop offset chunks)
  then show ?case by (auto simp: png_chunks_stop)
next
  case (turn offset chunks)
  then show ?case using png_chunks_turn [OF turn(1), of chunks] by (auto simp: Let_def)
qed

lemma png_turn_bytes:
  assumes "offset + 12 \<le> length v" and "png_turn_ok v offset"
  shows "slice offset (offset + 12 + png_len v offset) v
    = png_chunk (png_kind v offset, png_payload v offset)"
proof -
  let ?n = "png_len v offset"
  have ok: "offset + 12 + ?n \<le> length v"
    and crc: "crc32 (png_kind v offset @ png_payload v offset)
      = be_nat (slice (offset + 8 + ?n) (offset + 8 + ?n + 4) v)"
    using assms(2) unfolding png_turn_ok_def png_crc_def by blast+
  have "slice offset (offset + 12 + ?n) v
      = slice offset (offset + 4) v @ png_kind v offset @ png_payload v offset
        @ slice (offset + 8 + ?n) (offset + 8 + ?n + 4) v"
    using slice_slice [of offset "offset + 4" "offset + 12 + ?n" v]
      slice_slice [of "offset + 4" "offset + 8" "offset + 12 + ?n" v]
      slice_slice [of "offset + 8" "offset + 8 + ?n" "offset + 12 + ?n" v]
    by (simp add: png_kind_def png_payload_def algebra_simps)
  moreover have "be_bytes 4 ?n = slice offset (offset + 4) v"
    unfolding png_len_def using assms(1) by (intro be_bytes_slice4) simp
  moreover have "be_bytes 4 (be_nat (slice (offset + 8 + ?n) (offset + 8 + ?n + 4) v))
      = slice (offset + 8 + ?n) (offset + 8 + ?n + 4) v"
    using ok by (intro be_bytes_slice4) simp
  moreover have "length (png_payload v offset) = ?n"
    using ok by (simp add: png_payload_def)
  ultimately show ?thesis by (simp add: png_chunk_def crc)
qed

lemma png_chunks_Inr:
  "png_chunks v offset chunks = Inr (Some (cs, stop)) \<Longrightarrow> offset \<le> length v \<Longrightarrow>
     offset \<le> stop \<and> stop \<le> length v
     \<and> (\<exists>new. cs = chunks @ new \<and> slice offset stop v = concat (map png_chunk new)
          \<and> (\<forall>c \<in> set new. length (fst c) = 4 \<and> list_all is_letter (fst c)))"
proof (induction offset chunks rule: png_walk_induct [of v])
  case (stop offset chunks)
  then show ?case by (auto simp: png_chunks_stop slice_def split: if_splits)
next
  case (turn offset chunks)
  let ?c = "(png_kind v offset, png_payload v offset)"
  let ?next = "offset + 12 + png_len v offset"
  have ok: "png_turn_ok v offset" 
    using turn(3) png_chunks_turn [OF turn(1), of chunks] by (auto split: if_splits)
  have c: "length (fst ?c) = 4 \<and> list_all is_letter (fst ?c)"
    using ok length_png_kind [OF turn(1)] by (simp add: png_turn_ok_def)
  have le: "?next \<le> length v" using ok by (simp add: png_turn_ok_def)
  have head: "slice offset ?next v = png_chunk ?c" by (rule png_turn_bytes [OF turn(1) ok])
  show ?case
  proof (cases "fst ?c = bytes_of ''IEND''")
    case True
    then have "cs = chunks @ [?c]" "stop = ?next"
      using turn(3) ok png_chunks_turn [OF turn(1), of chunks] by (simp_all add: Let_def)
    then show ?thesis using head le c by auto
  next
    case False
    then have "png_chunks v ?next (chunks @ [?c]) = Inr (Some (cs, stop))"
      using turn(3) ok png_chunks_turn [OF turn(1), of chunks] by (simp add: Let_def)
    from turn(2) [OF ok this le] obtain new where "?next \<le> stop" "stop \<le> length v"
      and new: "cs = chunks @ ?c # new" "slice ?next stop v = concat (map png_chunk new)"
        "\<forall>c \<in> set new. length (fst c) = 4 \<and> list_all is_letter (fst c)"
      by auto
    moreover have "slice offset stop v = concat (map png_chunk (?c # new))"
      using slice_slice [of offset ?next stop v] \<open>?next \<le> stop\<close> head new by simp
    ultimately show ?thesis using c by (intro conjI exI [of _ "?c # new"]) auto
  qed
qed

text \<open>The walk reads back what \<open>png_chunk\<close> writes.\<close>

definition png_chunk_ok :: "bytes \<times> bytes \<Rightarrow> bool" where
  "png_chunk_ok c \<longleftrightarrow> length (fst c) = 4 \<and> list_all is_letter (fst c)
     \<and> \<not> unknown_critical (unat (fst c ! 0)) (fst c) \<and> length (snd c) < 2 ^ 32"

lemma crc32_bound: "crc32 bs < 2 ^ 32"
  unfolding crc32_def by (rule order.strict_trans2 [OF unsigned_less]) simp

lemma length_png_chunk: "png_chunk_ok c \<Longrightarrow> length (png_chunk c) = 12 + length (snd c)"
  by (simp add: png_chunk_def png_chunk_ok_def)

lemma png_turn_append:
  assumes c: "png_chunk_ok c"
  shows "png_len (pre @ png_chunk c @ rest) (length pre) = length (snd c)"
    and "png_kind (pre @ png_chunk c @ rest) (length pre) = fst c"
    and "png_payload (pre @ png_chunk c @ rest) (length pre) = snd c"
    and "png_turn_ok (pre @ png_chunk c @ rest) (length pre)"
proof -
  let ?v = "pre @ png_chunk c @ rest" and ?i = "length pre" and ?n = "length (snd c)"
  have k: "length (fst c) = 4" and n: "?n < 2 ^ 32" using c by (auto simp: png_chunk_ok_def)
  have "slice ?i (?i + 4) ?v = be_bytes 4 ?n"
    by (simp add: slice_def png_chunk_def)
  then show len: "png_len ?v ?i = ?n" using n by (simp add: png_len_def)
  show kind: "png_kind ?v ?i = fst c"
    using k slice_append_mid [of "?i + 4" "pre @ be_bytes 4 ?n" "?i + 8" "fst c"
        "snd c @ be_bytes 4 (crc32 (fst c @ snd c)) @ rest"]
    by (simp add: png_kind_def png_chunk_def)
  show payload: "png_payload ?v ?i = snd c"
    using k len slice_append_mid [of "?i + 8" "pre @ be_bytes 4 ?n @ fst c" "?i + 8 + ?n" "snd c"
        "be_bytes 4 (crc32 (fst c @ snd c)) @ rest"]
    by (simp add: png_payload_def png_chunk_def)
  have "slice (?i + 8 + ?n) (?i + 8 + ?n + 4) ?v = be_bytes 4 (crc32 (fst c @ snd c))"
    using k slice_append_mid [of "?i + 8 + ?n" "pre @ be_bytes 4 ?n @ fst c @ snd c" "?i + 8 + ?n + 4"
        "be_bytes 4 (crc32 (fst c @ snd c))" rest]
    by (simp add: png_chunk_def)
  then have "png_crc ?v ?i = crc32 (fst c @ snd c)"
    using crc32_bound [of "fst c @ snd c"] unfolding png_crc_def len by simp
  then show "png_turn_ok ?v ?i"
    using c len kind payload length_png_chunk [OF c] by (simp add: png_turn_ok_def png_chunk_ok_def)
qed

lemma png_chunks_complete:
  assumes "\<forall>c \<in> set cs. png_chunk_ok c" and "cs \<noteq> []"
    and "fst (last cs) = bytes_of ''IEND''" and "\<forall>c \<in> set (butlast cs). fst c \<noteq> bytes_of ''IEND''"
  shows "png_chunks (pre @ concat (map png_chunk cs)) (length pre) acc
    = Inr (Some (acc @ cs, length (pre @ concat (map png_chunk cs))))"
  using assms
proof (induction cs arbitrary: pre acc)
  case Nil
  then show ?case by simp
next
  case (Cons c cs)
  let ?v = "pre @ png_chunk c @ concat (map png_chunk cs)"
  have c: "png_chunk_ok c" using Cons.prems by simp
  note parts = png_turn_append [OF c, of pre "concat (map png_chunk cs)"]
  have "length pre + 12 \<le> length ?v" using length_png_chunk [OF c] by simp
  note turn = png_chunks_turn [OF this, of acc, unfolded parts(1-3) Let_def fst_conv prod.collapse]
  show ?case
  proof (cases "cs = []")
    case True
    then show ?thesis using turn parts(4) Cons.prems length_png_chunk [OF c] by simp
  next
    case False
    then have "fst c \<noteq> bytes_of ''IEND''" using Cons.prems by simp
    moreover have "png_chunks ?v (length (pre @ png_chunk c)) (acc @ [c])
        = Inr (Some (acc @ c # cs, length ?v))"
      using Cons.IH [of "pre @ png_chunk c" "acc @ [c]"] Cons.prems False by simp
    ultimately show ?thesis using turn parts(4) length_png_chunk [OF c] by (simp add: add.assoc)
  qed
qed

lemma map_of_channels: "map_of allowed_depths t = Some ds \<Longrightarrow> map_of channels t \<noteq> None"
  by (simp add: allowed_depths_def channels_def split: if_splits)

lemma png_row_bytes_returns: "png_header_ok h \<Longrightarrow> returns (png_row_bytes h)"
  using map_of_channels [of "png_color_type h"]
  by (cases "map_of allowed_depths (png_color_type h)")
    (auto simp: png_header_ok_def png_row_bytes_def)

lemma unpack_ihdr_returns: "png_structure_ok chunks \<Longrightarrow> returns (unpack_ihdr (snd (chunks ! 0)))"
  by (simp add: png_structure_ok_def unpack_ihdr_def Let_def)

lemma filter_bytes_return:
  assumes "length d = height + n * height"
  shows "returns (any_result (\<lambda>row. res_map (\<lambda>b. \<not> b \<le> 4) (byte_at d (row + row * n))) [0..<height])"
proof (rule returns_any)
  fix row assume "row \<in> set [0..<height]"
  then have "row < height" by simp
  moreover have "row * n \<le> n * height" using \<open>row < height\<close> by (simp add: mult.commute)
  ultimately have "row + row * n < length d" using assms by linarith
  then show "returns (res_map (\<lambda>b. \<not> b \<le> 4) (byte_at d (row + row * n)))" by simp
qed

lemma valid_png_returns: "returns (valid_png inflate v)"
  unfolding valid_png_def
  by (auto intro!: returns_bind png_chunks_returns png_row_bytes_returns unpack_ihdr_returns
      filter_bytes_return simp: Let_def split: option.split)

section \<open>The JPEG walk\<close>

lemma set_range_step: "0 < k \<Longrightarrow> i \<in> set (range_step a b k) \<Longrightarrow> a \<le> i \<and> i < b"
proof -
  assume k: "0 < k" and "i \<in> set (range_step a b k)"
  then obtain j where j: "i = a + k * j" "j < (b - a + k - 1) div k"
    by (auto simp: range_step_def)
  have "k * (j + 1) \<le> k * ((b - a + k - 1) div k)" using j(2) by (intro mult_le_mono2) simp
  also have "\<dots> \<le> b - a + k - 1" by simp
  finally have "k * j < b - a" using k by simp
  then show ?thesis using j(1) by simp
qed

lemma range_step_3: "i \<in> set (range_step a (a + 3 * n) 3) \<Longrightarrow> i + 2 < a + 3 * n"
proof -
  assume "i \<in> set (range_step a (a + 3 * n) 3)"
  then obtain j where j: "i = a + 3 * j" "j < (3 * n + 2) div 3" by (auto simp: range_step_def)
  have "(3 * n + 2) div 3 = n" by simp
  then show ?thesis using j by linarith
qed

lemma frame_loop_returns:
  "(\<And>i. i \<in> set ps \<Longrightarrow> i + 2 < length v) \<Longrightarrow> returns (frame_loop v ps comps)"
proof (induction ps arbitrary: comps)
  case (Cons p ps)
  have "p + 2 < length v" using Cons.prems by simp
  then have reads: "byte_at v p = Inr (unat (v ! p))" "byte_at v (p + 1) = Inr (unat (v ! (p + 1)))"
    "byte_at v (p + 2) = Inr (unat (v ! (p + 2)))" by simp_all
  have "returns (frame_loop v ps cs)" for cs by (intro Cons.IH Cons.prems) simp
  then show ?case unfolding frame_loop.simps reads res_bind.simps by simp
qed simp

lemma frame_segment_returns:
  assumes "offset + segment_length \<le> length v"
  shows "returns (frame_segment v offset segment_length st)"
proof -
  have "returns (frame_loop v (range_step (offset + 8) (offset + segment_length) 3) [])"
    if "segment_length = 8 + 3 * n" for n
    using that assms range_step_3 [of _ "offset + 8" n]
    by (intro frame_loop_returns) (fastforce simp: add.assoc)
  then show ?thesis using assms unfolding frame_segment_def
    by (auto intro!: returns_bind)
qed

lemma quantization_loop_returns:
  "stop \<le> length v \<Longrightarrow> returns (quantization_loop v stop cursor tables)"
proof (induction v stop cursor tables rule: quantization_loop.induct)
  case (1 v stop cursor tables)
  then show ?case by (subst quantization_loop.simps) (auto simp: Let_def)
qed

lemma coding_loop_returns:
  "stop \<le> length v \<Longrightarrow> returns (coding_loop v stop cursor tables)"
proof (induction v stop cursor tables rule: coding_loop.induct)
  case (1 v stop cursor tables)
  then show ?case by (subst coding_loop.simps) (auto simp: Let_def)
qed

lemma jpeg_segment_returns:
  "offset + segment_length \<le> length v \<Longrightarrow> returns (jpeg_segment v marker offset segment_length st)"
  by (simp add: jpeg_segment_def frame_segment_returns quantization_loop_returns coding_loop_returns)

text \<open>The scan header is the only place where a read may leave the payload.\<close>

lemma scan_loop_error:
  "scan_loop v st ps comps ok = Inl e \<Longrightarrow> e = IndexError \<and> (\<exists>p \<in> set ps. length v \<le> p + 1)"
proof (induction ps arbitrary: comps ok)
  case (Cons p ps)
  show ?case
  proof (cases "p + 1 < length v")
    case True
    then show ?thesis using Cons by auto
  next
    case False
    then show ?thesis using Cons.prems by (cases "p < length v") (auto simp: byte_at_def)
  qed
qed simp

lemma range_step_2: "i \<in> set (range_step a (a + 2 * n) 2) \<Longrightarrow> i + 1 < a + 2 * n"
proof -
  assume "i \<in> set (range_step a (a + 2 * n) 2)"
  then obtain j where j: "i = a + 2 * j" "j < (2 * n + 1) div 2" by (auto simp: range_step_def)
  have "(2 * n + 1) div 2 = n" by simp
  then show ?thesis using j by linarith
qed

text \<open>A scan header that claims more components than the payload has bytes for.\<close>

definition scan_overruns :: "bytes \<Rightarrow> nat \<Rightarrow> bool" where
  "scan_overruns v offset \<longleftrightarrow>
     0 < offset \<and> offset + 3 \<le> length v \<and> v ! (offset - 1) = 0xDA
     \<and> length v < offset + 3 + 2 * unat (v ! (offset + 2))"

lemma scan_segment_error:
  assumes "scan_segment v offset segment_length st = Inl e" and "offset + segment_length \<le> length v"
    and "0 < offset" "v ! (offset - 1) = 0xDA"
  shows "e = IndexError \<and> scan_overruns v offset"
proof -
  have long: "segment_length \<ge> 3"
  proof (rule ccontr)
    assume "\<not> 3 \<le> segment_length"
    then show False using assms(1) by (simp add: scan_segment_def range_step_def Let_def)
  qed
  define n where "n = unat (v ! (offset + 2))"
  have "byte_at v (offset + 2) = Inr n" using long assms(2) by (simp add: n_def)
  then have "scan_loop v st (range_step (offset + 3) (offset + 3 + 2 * n) 2) [] True = Inl e"
    using assms(1) long
    by (cases "scan_loop v st (range_step (offset + 3) (offset + 3 + 2 * n) 2) [] True")
      (auto simp: scan_segment_def Let_def)
  from scan_loop_error [OF this] obtain p where "e = IndexError" "length v \<le> p + 1"
    and p: "p \<in> set (range_step (offset + 3) (offset + 3 + 2 * n) 2)" by blast
  then show ?thesis using range_step_2 [OF p] long assms by (simp add: scan_overruns_def n_def)
qed

text \<open>One turn of the walk, its reads resolved.\<close>

lemma jpeg_loop_turn:
  assumes "offset < length v - 2" "v ! offset = 0xFF" "skip_fill v offset < length v"
  defines "pos \<equiv> skip_fill v offset" and "len \<equiv> be_nat (slice (skip_fill v offset + 1) (skip_fill v offset + 3) v)"
  shows "jpeg_loop v offset st =
    (let marker = unat (v ! pos) in
     if marker = 0x01 \<or> (0xD0 \<le> marker \<and> marker < 0xD8) then jpeg_loop v (pos + 1) st
     else if marker \<in> {0x00, 0xD8, 0xD9} \<or> length v < pos + 3 then Inr False
     else if len < 2 \<or> length v < pos + 1 + len then Inr False
     else res_bind (jpeg_segment v marker (pos + 1) len st) (\<lambda>seg.
       case seg of
         None \<Rightarrow> Inr False
       | Some st' \<Rightarrow> if marker = 0xDA then scan_segment v (pos + 1) len st'
                     else jpeg_loop v (pos + 1 + len) st'))"
proof -
  have len: "unpack_be 2 v (pos + 1) = Inr len" if "\<not> length v < pos + 3"
    using that by (simp add: pos_def len_def numeral_3_eq_3)
  have "\<not> length v \<le> pos" "offset < length v - 2" using assms by simp_all
  then show ?thesis using assms(2) len
    unfolding jpeg_loop.simps [of v offset] Let_def pos_def [symmetric]
    by (cases "length v < pos + 3") (simp_all add: numeral_3_eq_3 split del: if_split cong: if_cong)
qed

lemma jpeg_loop_stop:
  "\<not> (offset < length v - 2 \<and> v ! offset = 0xFF \<and> skip_fill v offset < length v) \<Longrightarrow>
     jpeg_loop v offset st = Inr False"
  by (subst jpeg_loop.simps) (auto simp: Let_def)

lemma jpeg_loop_error:
  "jpeg_loop v offset st = Inl e \<Longrightarrow> e = IndexError \<and> (\<exists>i. scan_overruns v i)"
proof (induction "length v - offset" arbitrary: offset st rule: less_induct)
  case (less offset st)
  define pos where "pos = skip_fill v offset"
  define marker where "marker = unat (v ! pos)"
  define len where "len = be_nat (slice (pos + 1) (pos + 3) v)"
  have walk: "offset < length v - 2" "v ! offset = 0xFF" "skip_fill v offset < length v"
    using less.prems jpeg_loop_stop [of offset v st] by auto
  have pos: "offset < pos" "pos < length v"
    using skip_fill_moves [of offset v] walk by (auto simp: pos_def)
  note turn = jpeg_loop_turn [OF walk, of st, folded pos_def, folded len_def marker_def, unfolded Let_def]
  show ?case
  proof (cases "marker = 0x01 \<or> (0xD0 \<le> marker \<and> marker < 0xD8)")
    case True
    then have "jpeg_loop v (pos + 1) st = Inl e" using less.prems turn by simp
    then show ?thesis using less.hyps [of "pos + 1" st] pos by simp
  next
    case False
    with less.prems turn have fits: "pos + 1 + len \<le> length v" and ge: "2 \<le> len"
      and seg: "res_bind (jpeg_segment v marker (pos + 1) len st) (\<lambda>seg.
        case seg of
          None \<Rightarrow> Inr False
        | Some st' \<Rightarrow> if marker = 0xDA then scan_segment v (pos + 1) len st'
                      else jpeg_loop v (pos + 1 + len) st') = Inl e"
      by (auto split: if_splits)
    obtain r where r: "jpeg_segment v marker (pos + 1) len st = Inr r"
      using jpeg_segment_returns [OF fits, of marker st] unfolding returns_def by blast
    with seg obtain st' where
      cont: "(if marker = 0xDA then scan_segment v (pos + 1) len st' else jpeg_loop v (pos + 1 + len) st')
        = Inl e"
      by (cases r) auto
    show ?thesis
    proof (cases "marker = 0xDA")
      case True
      then have "v ! pos = 0xDA"
        by (intro unsigned_word_eqI [where ?'a = nat]) (simp add: marker_def)
      then show ?thesis using scan_segment_error [of v "pos + 1" len st' e] cont True fits by auto
    next
      case False
      then show ?thesis using cont less.hyps [of "pos + 1 + len" st'] pos by simp
    qed
  qed
qed

section \<open>The WebP walk\<close>

lemma vp8_frame_ok_returns: "returns (vp8_frame_ok payload)"
  by (auto simp: vp8_frame_ok_def Let_def intro!: returns_bind)

lemma vp8l_frame_ok_returns: "returns (vp8l_frame_ok payload)"
  by (auto simp: vp8l_frame_ok_def byte_at_def intro!: returns_bind)

lemma webp_loop_returns: "returns (webp_loop v offset n)"
proof (induction v offset n rule: webp_loop.induct)
  case (1 v offset n)
  then show ?case
    by (subst webp_loop.simps)
      (auto simp: Let_def intro!: returns_bind vp8_frame_ok_returns vp8l_frame_ok_returns)
qed

lemma valid_webp_returns: "returns (valid_webp v)"
  by (auto simp: valid_webp_def intro!: returns_bind webp_loop_returns)

section \<open>Properties\<close>

text \<open>
  Which payload checks can raise: for every payload the PNG and the WebP check return a verdict,
  whatever the decompressor answers, so none of their reads leaves the payload; the JPEG check
  raises nothing but \<^verbatim>\<open>IndexError\<close>, and only for a payload with a scan header that declares more
  components than there are bytes left.
\<close>
lemma payload_checks_raise_only_in_the_scan_header:
  "returns (valid_png inflate v) \<and> returns (valid_webp v)
   \<and> (\<forall>e. valid_jpeg v = Inl e \<longrightarrow> e = IndexError \<and> (\<exists>i. scan_overruns v i))"
  using valid_png_returns valid_webp_returns jpeg_loop_error
  by (auto simp: valid_jpeg_def)

text \<open>A JPEG whose scan header declares three components and whose payload ends after two.\<close>

definition short_scan :: bytes where
  "short_scan = [0xFF, 0xD8, 0xFF, 0xDA, 0, 3, 3, 0, 0, 0, 0xFF, 0xD9]"

lemma valid_jpeg_short_scan: "valid_jpeg short_scan = Inl IndexError"
  by code_simp


text \<open>
  (C38) An accepted PNG is exactly its chunks: the signature followed by well-formed chunks with
  matching CRCs and nothing after \<^verbatim>\<open>IEND\<close>, a header first, one run of image data, dimensions of at
  most 16384, and image data that decompresses - under a limit of 512 MiB - to exactly the rows
  the header declares, each with a known filter.
\<close>
theorem accepted_png_is_its_chunks:
  assumes "valid_png inflate v = Inr True"
  shows "\<exists>chunks h n out.
    v = PNG_SIGNATURE @ concat (map png_chunk chunks) \<and> png_structure_ok chunks
    \<and> chunks \<noteq> [] \<and> fst (chunks ! 0) = bytes_of ''IHDR'' \<and> unpack_ihdr (snd (chunks ! 0)) = Inr h
    \<and> png_header_ok h \<and> png_row_bytes h = Inr n \<and> (n + 1) * png_height h \<le> MAX_DECODED
    \<and> inflate (concat (map snd (filter (\<lambda>c. fst c = bytes_of ''IDAT'') chunks)))
        ((n + 1) * png_height h + 1) = Some out
    \<and> length (inf_decoded out) = (n + 1) * png_height h
    \<and> (\<forall>row < png_height h. unat (inf_decoded out ! (row * (n + 1))) \<le> 4)"
proof -
  from assms obtain chunks where walk: "png_chunks v 8 [] = Inr (Some (chunks, length v))"
    and sig: "take 8 v = PNG_SIGNATURE"
    and shape: "chunks \<noteq> []" "fst (chunks ! 0) = bytes_of ''IHDR''" "png_structure_ok chunks"
    by (auto simp: valid_png_def split: if_splits option.splits prod.splits)
  obtain h where h: "unpack_ihdr (snd (chunks ! 0)) = Inr h"
    using unpack_ihdr_returns [OF shape(3)] by (auto elim: returnsE)
  have ok: "png_header_ok h"
    using assms by (auto simp: valid_png_def sig walk shape h split: if_splits)
  obtain n where n: "png_row_bytes h = Inr n"
    using png_row_bytes_returns [OF ok] by (auto elim: returnsE)
  have idat: "filter (\<lambda>(kind, payload). kind = bytes_of ''IDAT'') chunks
      = filter (\<lambda>c. fst c = bytes_of ''IDAT'') chunks"
    by (rule filter_cong) auto
  from assms obtain out where small: "(n + 1) * png_height h \<le> MAX_DECODED"
    and out: "inflate (concat (map snd (filter (\<lambda>c. fst c = bytes_of ''IDAT'') chunks)))
        ((n + 1) * png_height h + 1) = Some out"
    and len: "length (inf_decoded out) = (n + 1) * png_height h"
    and rows: "any_result (\<lambda>row. res_map (\<lambda>b. \<not> b \<le> 4)
        (byte_at (inf_decoded out) (row * (n + 1)))) [0..<png_height h] = Inr False"
    by (auto simp: valid_png_def sig walk shape h ok n idat Let_def simp del: mult_Suc add_Suc_right
        split: if_splits option.splits)
  have filters: "\<forall>row < png_height h. unat (inf_decoded out ! (row * (n + 1))) \<le> 4"
    using rows by (auto simp: any_result_False byte_at_def split: if_splits)
  have eight: "8 \<le> length v" using arg_cong [OF sig, of length] by (simp add: PNG_SIGNATURE_def)
  have "drop 8 v = concat (map png_chunk chunks)"
    using png_chunks_Inr [OF walk eight] by (simp add: slice_def)
  then have "v = PNG_SIGNATURE @ concat (map png_chunk chunks)"
    using append_take_drop_id [of 8 v] sig by simp
  then show ?thesis using shape h ok n small out len filters by blast
qed

definition sample_inflate :: "bytes \<Rightarrow> nat \<Rightarrow> inflated option" where
  "sample_inflate bs limit = Some \<lparr>inf_decoded = [0, 5], inf_eof = True, inf_unused_data = [],
     inf_unconsumed_tail = []\<rparr>"

definition sample_chunks :: "(bytes \<times> bytes) list" where
  "sample_chunks =
     [(bytes_of ''IHDR'', [0, 0, 0, 1, 0, 0, 0, 1, 8, 0, 0, 0, 0]), (bytes_of ''IDAT'', [7]),
      (bytes_of ''IEND'', [])]"

definition sample_png :: bytes where
  "sample_png = PNG_SIGNATURE @ concat (map png_chunk sample_chunks)"

lemma sample_chunks_ok: "png_structure_ok sample_chunks" "\<forall>c \<in> set sample_chunks. png_chunk_ok c"
  by code_simp+

lemma sample_png_walk: "png_chunks sample_png 8 [] = Inr (Some (sample_chunks, length sample_png))"
proof -
  have "sample_chunks \<noteq> []" "fst (last sample_chunks) = bytes_of ''IEND''"
    "\<forall>c \<in> set (butlast sample_chunks). fst c \<noteq> bytes_of ''IEND''" "length PNG_SIGNATURE = 8"
    by code_simp+
  then show ?thesis
    using png_chunks_complete [OF sample_chunks_ok(2), of PNG_SIGNATURE "[]"]
    unfolding sample_png_def by simp
qed

definition sample_header :: png_header where
  "sample_header = \<lparr>png_width = 1, png_height = 1, png_bit_depth = 8, png_color_type = 0,
     png_compression = 0, png_filtering = 0, png_interlace = 0\<rparr>"

lemma sample_png_accepted: "valid_png sample_inflate sample_png = Inr True"
proof -
  have sig: "take 8 sample_png = PNG_SIGNATURE" by (simp add: sample_png_def PNG_SIGNATURE_def)
  have shape: "sample_chunks \<noteq> []" "fst (sample_chunks ! 0) = bytes_of ''IHDR''"
    "unpack_ihdr (snd (sample_chunks ! 0)) = Inr sample_header" "png_header_ok sample_header"
    "png_row_bytes sample_header = Inr 1"
    "concat (map snd (filter (\<lambda>(kind, payload). kind = bytes_of ''IDAT'') sample_chunks)) = [7]"
    by code_simp+
  have dims: "png_height sample_header = 1" "png_color_type sample_header = 0"
    by (simp_all add: sample_header_def)
  show ?thesis
    by (simp add: valid_png_def sig sample_png_walk shape sample_chunks_ok dims Let_def MAX_DECODED_def
        sample_inflate_def)
qed

theorem accepted_png_is_its_chunks_witness:
  "valid_png sample_inflate sample_png = Inr True
   \<and> (\<exists>chunks. sample_png = PNG_SIGNATURE @ concat (map png_chunk chunks) \<and> png_structure_ok chunks)"
  using accepted_png_is_its_chunks [OF sample_png_accepted] sample_png_accepted by blast

end
