(* ===== verification/Spec2Isabelle.thy ===== *)
theory Spec2Isabelle
  imports Stall_Window Lifecycle_Properties Composite Job_Service Memory_Snapshot Agent_Upgrade
    Evidence State_Machines Strict_Json Range_Control Agent_Order_Properties
    Glb_Validation_Properties Glb_Image_Properties
begin

text \<open>
  A verification development of the Vonk Forge controller: the decisions its Python code makes
  about long-running work on a fleet of Sparks, and about the memory and swap a Spark lends it, with
  the validator of the mesh artifacts that recipes produce.

  \<^bold>\<open>The program.\<close> The controller (\<^verbatim>\<open>control/src/vonk_control\<close>) keeps one row per piece of
  work (a job, an agent order, an upgrade, a cache operation). Every row moves through one
  lifecycle, decided by a pure transition function; a reconcile loop feeds it events, runs the
  commands it names through an adapter of the row's kind and saves what it decided. Retries
  follow one backoff policy, failures are classified once into fail, wait, observe or security,
  and a row that waits persists what it waits for. Before a recipe is loaded, a planner decides
  whether its demand fits the memory of the selected Sparks and whether their swap carries the
  rise of the load. The words both sides use are closed enums of \<^verbatim>\<open>agent_protocol\<close>. A mesh a recipe
  returns (\<^verbatim>\<open>src/cluster_profiles\<close>) is a binary glTF file that is checked before it is published.

  \<^bold>\<open>The theories.\<close>
  \<^item> \<open>Prelude\<close>: Python values (instants in microseconds, optional strings and their truth,
    exceptions as \<open>py_error\<close>), sequencing of code that may raise, generic lemmas.
  \<^item> \<open>Vocabulary\<close>: the enums of \<^verbatim>\<open>lifecycle_vocabulary.py\<close>, \<^verbatim>\<open>agent_words.py\<close> and
    \<^verbatim>\<open>contracts.py\<close> with their wire words, the readers of stored words and the tables of
    \<^verbatim>\<open>disposition.py\<close>.
  \<^item> \<open>Recovery_Policy\<close> (\<^verbatim>\<open>recovery_policy.py\<close>): the backoff clock; the locale \<open>retry_clock\<close>
    states what its users rely on and is interpreted for the three policies of the code.
  \<^item> \<open>Stall_Window\<close> (\<^verbatim>\<open>stall_window.py\<close>): when work without progress may be ended.
  \<^item> \<open>Failure_Classification\<close> (\<^verbatim>\<open>security_edges.py\<close>, \<^verbatim>\<open>failure_classification.py\<close>): the verdict
    on an exception chain.
  \<^item> \<open>Lifecycle_Types\<close>, \<open>Lifecycle_Core\<close> (\<^verbatim>\<open>lifecycle/types.py\<close>, \<^verbatim>\<open>lifecycle/core.py\<close>): the row,
    its events and commands, and every handler of \<^verbatim>\<open>transition\<close>.
  \<^item> \<open>Lifecycle_Moves\<close>: the abstract specification \<open>moves\<close>, a relation with one rule per kind
    of move, and the refinement of \<open>transition\<close> to it; the runs below are argued over its rules.
  \<^item> \<open>Machine\<close>: runs of a step function, with the locale \<open>row_machine\<close> for machines whose ended
    states are final.
  \<^item> \<open>Lifecycle_Runs\<close>, \<open>Lifecycle_Properties\<close>: runs of the core and what they guarantee.
  \<^item> \<open>Reconciler\<close> (\<^verbatim>\<open>lifecycle/reconciler.py\<close>): the settle loop and one pass over the due rows;
    the locale \<open>row_store\<close> is the contract of an adapter and its writer.
  \<^item> \<open>Composite\<close> (\<^verbatim>\<open>lifecycle/composite.py\<close>): the state of a parent.
  \<^item> \<open>Waits\<close> (\<^verbatim>\<open>persisted_waits.py\<close>, \<^verbatim>\<open>wait_contract.py\<close>, \<^verbatim>\<open>operation_blockers.py\<close>).
  \<^item> \<open>Jobs\<close>, \<open>Job_Service\<close> (\<^verbatim>\<open>lifecycle/job.py\<close>, \<^verbatim>\<open>job_states.py\<close>, \<^verbatim>\<open>jobs.py\<close>): the job adapter,
    an interpretation of \<open>row_store\<close>, and the claims of the job service.
  \<^item> \<open>Agent_Upgrade\<close> (\<^verbatim>\<open>lifecycle/agent_upgrade.py\<close>): the adapter of an upgrade rollout, a second
    interpretation of \<open>row_store\<close>.
  \<^item> \<open>Agent_Order_Facts\<close> (\<^verbatim>\<open>agent_operation_states.py\<close>, \<^verbatim>\<open>agent_operation_facts.py\<close>) and
    \<open>Agent_Orders\<close> (\<^verbatim>\<open>lifecycle/agent_operation.py\<close>): the Spark order and its attempts, and their
    adapter, the third interpretation. \<open>Lifecycle_Doubt\<close>: how an effect in doubt stays in doubt
    through the core's handlers and through a settle pass. \<open>Agent_Order_Properties\<close>: what the
    order's writes guarantee.
  \<^item> \<open>Evidence\<close> (\<^verbatim>\<open>lifecycle/evidence.py\<close>): damaged bookkeeping becomes a value, reported once.
  \<^item> \<open>State_Machines\<close> (\<^verbatim>\<open>agent_protocol/.../state_machines.py\<close>): the stored state words outside the
    lifecycle; the locale \<open>wire_machine\<close> has one interpretation per machine.
  \<^item> \<open>Json\<close>, \<open>Strict_Json\<close> (\<^verbatim>\<open>strict_json.py\<close>): JSON documents, the presence policy of serialised
    models and the reading of stored documents that retired fields make invalid.
  \<^item> \<open>Model_Cache_Ranges\<close>, \<open>Range_Control\<close> (\<^verbatim>\<open>model_cache_ranges.py\<close>): ranged downloads by
    concurrent threads, as schedules of moves on shared state, and the assembly of the segments.
  \<^item> \<open>Swap\<close> (\<^verbatim>\<open>agent_protocol/.../swap.py\<close>), \<open>Resource_Types\<close>, \<open>Resource_Settings\<close>,
    \<open>Resource_Demand\<close>, \<open>Capacity_Planning\<close>, \<open>Capacity_Properties\<close>, \<open>Resource_Preflight\<close>,
    \<open>Memory_Snapshot\<close> (\<^verbatim>\<open>resource_planning/\<close>): the settings of a recipe, its demand, the capacity
    snapshot, the planner and the preflight.
  \<^item> \<open>Glb_Bytes\<close>, \<open>Py_Float\<close>: byte strings and \<^verbatim>\<open>struct\<close>, and IEEE 754 arithmetic with its rounding, for the
    validator \<^verbatim>\<open>glb_validation/\<close>. \<open>Glb_Container\<close> (\<^verbatim>\<open>common.py\<close>, \<^verbatim>\<open>accessors.py\<close>): the chunks, the
    padding and the rules on the document. \<open>Glb_Accessors\<close>: buffer views, accessors and their reads.
    \<open>Glb_Images\<close>, \<open>Glb_Image_Properties\<close> (\<^verbatim>\<open>images.py\<close>): the walks over PNG, JPEG and WebP payloads.
    \<open>Glb_Textures\<close> (\<^verbatim>\<open>textures.py\<close>). \<open>Glb_Scene\<close>, \<open>Glb_Scene_Properties\<close> and \<open>Glb_Primitives\<close>
    (\<^verbatim>\<open>meshes.py\<close>): the node graph and the triangles. \<open>Glb_Validation\<close>, \<open>Glb_Validation_Properties\<close>
    (\<^verbatim>\<open>validation.py\<close>): the validator, which composes them, and what its verdict means.

  \<^bold>\<open>Correspondence.\<close> A dataclass or table row is a record, an enum a datatype with a \<open>_value\<close>
  function for its words, a function that may raise returns \<open>py_error + 'a\<close>. A function keeps
  the source's name without the leading underscore; where that name is taken in Isabelle it has a
  prefix (\<open>job_claim\<close>, \<open>service_claim\<close>). Aware times are instants; times that may be naive keep a
  flag. State is passed explicitly. SHA-256, the text redaction, the validation of a document by its
  Pydantic model and the memory admission of the contract package are parameters, as are the decoding
  of JSON text, zlib, Pillow's verification, the C functions \<^verbatim>\<open>pow\<close> and \<^verbatim>\<open>sqrt\<close> and Python's recursion
  limit in the validator; a theorem that
  needs more of one says so in a hypothesis (the server of a ranged download answers with the bytes
  of the object it names, the admission follows its documented contract).

  \<^bold>\<open>What is shown.\<close> The core refines its specification, is total for named rows, keeps ended rows
  final, never replays an irreversible effect blindly, ends every cancelled and every lost row in
  a bounded number of due ticks, and succeeds only on evidence. The reconcile loop is a run of the
  core, saves before it acts and always returns. The job adapter writes what the core decided, and
  no two workers hold the same job. The clock's answers lie within the policy's bounds. A security
  refusal survives wrapping. The capacity planner never overcommits memory, refuses only with a
  reason, and keeps an admitted load within the host memory guard's swap margins. A rollout and a
  Spark order end as they are told; a user's job in doubt is not handed to a Spark a second time, a
  claim starts exactly the next attempt, every write satisfies the constraints of the tables, and a
  parent job takes its state from its orders. A stored document that is read only loses fields; a
  state word reads back; damaged bookkeeping is reported once and never raises. A finished download
  is the object whatever the interleaving, and its progress counts the bytes on disk. The validator
  always returns. A file it accepts is exactly its chunks, its node graph is a forest whose default
  scene shows every mesh, no read of an accessor leaves its view, every triangle index names a vertex
  with finite coordinates, no view mixes attributes and indices, and a skinned file gives every vertex
  known joints and weights that sum to one. An accepted PNG is exactly its chunks. Two inputs make the
  validator raise something other than a verdict: a short JPEG scan header and a deep chain of nodes.

  \<^bold>\<open>Bounds and fuel.\<close> The only fuel is the source's own: a settle pass takes at most
  \<open>MAX_STEPS_PER_ROW\<close> steps, an exception chain is followed for sixteen errors, a stored document is
  read in at most 64 rounds and 4096 reported keys are remembered. The search for a swap size has
  a termination proof. Downloads are runs over an arbitrary finite schedule, so no bound is chosen.
  The search for a cycle in a node graph recurses as deep as Python's limit, a parameter. The climb
  to the skeleton of a skin, which has no bound of its own, is a least fixed point over \<open>option\<close>; it is
  proved to return.

  \<^bold>\<open>Not modelled.\<close> The SQL layer, HTTP, the file and process I/O of the agents, the command line
  and web clients, the certificate authority, the deployment scripts, which are I/O around services that are not part
  of the sources; reading and replacing the mesh file itself; the adapters of the remaining
  row kinds, the queue around the Spark orders (\<^verbatim>\<open>agent_jobs/\<close>) and the planning of fleet profiles.
\<close>

end
